(* ===== verification/Prelude.thy ===== *)
theory Prelude
  imports Main "HOL-Library.AList" "HOL-Library.Multiset"
begin

text \<open>
  Shared vocabulary of the development: the error values that stand for the exceptions
  the Python code lets escape, Python's \<open>str.strip\<close> and truthiness, the JSON values a
  request body decodes to, and the collections of lemmas that the component theories
  feed to the simplifier. Time is a natural number of milliseconds on one clock shared
  by PostgreSQL, Redis and the Flask workers.
\<close>

named_theorems model_simps "evaluation rules of the model's operations"
named_theorems inv_intros "invariant preservation rules of the model's operations"

type_synonym timestamp = nat

subsection \<open>Errors\<close>

text \<open>
  One constructor per exception that reaches Flask (and becomes HTTP 500), by origin:
  psycopg2 and PostgreSQL errors, redis-py errors, Python errors raised by the route code.
\<close>

datatype error =
    PgConnectionError          \<comment> \<open>psycopg2.OperationalError: server unreachable\<close>
  | PgUndefinedTable           \<comment> \<open>relation "notes" does not exist\<close>
  | PgStringTooLong            \<comment> \<open>value too long for type character varying(80)\<close>
  | PgSequenceExhausted        \<comment> \<open>nextval: reached maximum value of sequence\<close>
  | PyNulInString              \<comment> \<open>ValueError: string literal cannot contain NUL\<close>
  | RedisConnectionError       \<comment> \<open>redis.exceptions.ConnectionError\<close>
  | RedisResponseError         \<comment> \<open>redis.exceptions.ResponseError: invalid expire time\<close>
  | PyAttributeError           \<comment> \<open>AttributeError in the request parsing\<close>
  | PyValueError               \<comment> \<open>ValueError: invalid literal for int()\<close>
  | PyJSONDecodeError          \<comment> \<open>json.JSONDecodeError\<close>

subsection \<open>Python strings: \<open>str.strip\<close>\<close>

text \<open>
  Strings are modelled over 8-bit characters (code points 0 to 255). On that range
  Python's \<open>str.isspace\<close> holds for space, \<open>\t \n \x0b \x0c \r\<close>, the separators
  \<open>\x1c\<close> to \<open>\x1f\<close>, \<open>\x85\<close> (NEL) and \<open>\xa0\<close> (no-break space).
\<close>

definition is_py_space :: "char \<Rightarrow> bool" where
  "is_py_space c \<longleftrightarrow> of_char c = (32::nat) \<or> (9 \<le> (of_char c::nat) \<and> of_char c \<le> (13::nat))
      \<or> (28 \<le> (of_char c::nat) \<and> of_char c \<le> (31::nat)) \<or> of_char c = (133::nat) \<or> of_char c = (160::nat)"

definition py_strip :: "string \<Rightarrow> string" where
  "py_strip s = rev (dropWhile is_py_space (rev (dropWhile is_py_space s)))"

lemma is_py_space_space [simp]: "is_py_space (CHR '' '')"
  by (simp add: is_py_space_def)

lemma py_strip_Nil [simp]: "py_strip [] = []"
  by (simp add: py_strip_def)

lemma all_dropWhile: "(\<forall>x\<in>set (dropWhile P xs). P x) \<longleftrightarrow> (\<forall>x\<in>set xs. P x)"
  by (induction xs) auto

lemma py_strip_all_space: "py_strip s = [] \<longleftrightarrow> (\<forall>c\<in>set s. is_py_space c)"
  by (simp add: py_strip_def dropWhile_eq_Nil_conv all_dropWhile)

lemma py_strip_last:
  assumes "py_strip s \<noteq> []"
  shows "\<not> is_py_space (last (py_strip s))"
proof -
  let ?t = "rev (dropWhile is_py_space s)"
  have "dropWhile is_py_space ?t \<noteq> []" using assms by (simp add: py_strip_def)
  then have "\<not> is_py_space (hd (dropWhile is_py_space ?t))"
    using hd_dropWhile by blast
  then show ?thesis
    by (simp add: py_strip_def last_rev)
qed

lemma py_strip_hd:
  assumes "py_strip s \<noteq> []"
  shows "\<not> is_py_space (hd (py_strip s))"
proof -
  let ?u = "dropWhile is_py_space s"
  have ne: "?u \<noteq> []"
  proof
    assume "?u = []"
    then have "py_strip s = []" by (simp add: py_strip_def all_dropWhile)
    with assms show False by simp
  qed
  have hd_u: "\<not> is_py_space (hd ?u)" using ne hd_dropWhile by blast
  have "hd (py_strip s) = hd ?u"
  proof -
    have "rev ?u = rev ?u" ..
    obtain x xs where u: "?u = x # xs" using ne by (cases ?u) auto
    then have "\<not> is_py_space x" using hd_u by simp
    then have "dropWhile is_py_space (rev xs @ [x]) = dropWhile is_py_space (rev xs) @ [x]"
      by (simp add: dropWhile_append3)
    then show ?thesis
      by (simp add: py_strip_def u hd_rev)
  qed
  with hd_u show ?thesis by simp
qed

lemma set_py_strip: "set (py_strip s) \<subseteq> set s"
  by (auto simp: py_strip_def dest!: set_dropWhileD)

lemma py_strip_idem [simp]: "py_strip (py_strip s) = py_strip s"
proof (cases "py_strip s = []")
  case True
  then show ?thesis by simp
next
  case False
  let ?t = "py_strip s"
  have "dropWhile is_py_space ?t = ?t"
    using False py_strip_hd [OF False] by (cases ?t) auto
  moreover have "dropWhile is_py_space (rev ?t) = rev ?t"
    using False py_strip_last [OF False] by (cases "rev ?t") (auto simp: last_rev)
  ultimately show ?thesis by (simp add: py_strip_def)
qed

subsection \<open>JSON values and Python truthiness\<close>

text \<open>
  What \<open>request.get_json(force=True)\<close> returns: \<open>None\<close> in the model when the body is
  not JSON (Flask answers 400). Objects keep their key/value pairs in source order;
  \<open>json.loads\<close> keeps the last value of a repeated key. JSON numbers are integers here
  (a float behaves the same way in the code: falsy when zero, otherwise not a string).
\<close>

datatype json =
    JNull
  | JBool bool
  | JNum int
  | JStr string
  | JArr "json list"
  | JObj "(string \<times> json) list"

fun py_truthy :: "json \<Rightarrow> bool" where
  "py_truthy JNull = False"
| "py_truthy (JBool b) = b"
| "py_truthy (JNum n) = (n \<noteq> 0)"
| "py_truthy (JStr s) = (s \<noteq> [])"
| "py_truthy (JArr xs) = (xs \<noteq> [])"
| "py_truthy (JObj kvs) = (kvs \<noteq> [])"

text \<open>\<open>data.get(k)\<close>: only a dict has \<open>get\<close>; a missing key gives \<open>None\<close>, i.e. \<open>JNull\<close>.\<close>

fun py_dict_get :: "json \<Rightarrow> string \<Rightarrow> error + json" where
  "py_dict_get (JObj kvs) k = Inr (case map_of (rev kvs) k of None \<Rightarrow> JNull | Some v \<Rightarrow> v)"
| "py_dict_get _ k = Inl PyAttributeError"

text \<open>\<open>(v or d).strip()\<close> for a default string \<open>d\<close>: a truthy non-string has no \<open>strip\<close>.\<close>

definition py_or_strip :: "json \<Rightarrow> string \<Rightarrow> error + string" where
  "py_or_strip v d =
     (if \<not> py_truthy v then Inr (py_strip d)
      else (case v of JStr s \<Rightarrow> Inr (py_strip s) | _ \<Rightarrow> Inl PyAttributeError))"

lemma py_or_strip_str [simp]: "py_or_strip (JStr s) d = Inr (if s = [] then py_strip d else py_strip s)"
  by (simp add: py_or_strip_def)

lemma py_or_strip_null [simp]: "py_or_strip JNull d = Inr (py_strip d)"
  by (simp add: py_or_strip_def)

subsection \<open>Association lists\<close>

text \<open>Facts on \<open>AList.update\<close> and \<open>AList.delete\<close> that the key-value store uses.\<close>

lemma map_of_delete_same [simp]: "map_of (AList.delete k xs) k = None"
  by (simp add: delete_conv)

lemma map_of_delete_other: "k' \<noteq> k \<Longrightarrow> map_of (AList.delete k xs) k' = map_of xs k'"
  by (simp add: delete_conv)

lemma map_of_update_same [simp]: "map_of (AList.update k v xs) k = Some v"
  by (simp add: update_conv')

lemma map_of_update_other: "k' \<noteq> k \<Longrightarrow> map_of (AList.update k v xs) k' = map_of xs k'"
  by (simp add: update_conv')

end
