(* ===== verification/Store.thy ===== *)
theory Store
  imports Prelude
begin

text \<open>
  The PostgreSQL side: \<open>app/services/db_service.py\<close> together with the table that
  \<open>init_db\<close> creates. The server state is the table's rows in physical (insertion)
  order, the \<open>SERIAL\<close> sequence behind \<open>id\<close>, whether the table exists, and whether
  the server accepts connections. Every function of \<open>db_service\<close> opens a connection
  with \<open>autocommit\<close>, runs one statement and closes it, so each is one atomic step here:
  it fails without effect or succeeds with its whole effect.
\<close>

subsection \<open>Data\<close>

text \<open>A row of \<open>notes\<close>: \<open>id SERIAL, content TEXT, author VARCHAR(80), created_at TIMESTAMP\<close>.\<close>

record note_row =
  note_id :: nat
  content :: string
  author :: string
  created_at :: timestamp

record pg_db =
  pg_up :: bool
  table_exists :: bool
  rows :: "note_row list"
  next_id :: nat

text \<open>The \<open>SERIAL\<close> sequence is an \<open>integer\<close> sequence: it stops at \<open>2^31 - 1\<close>.\<close>

definition SERIAL_MAX :: nat where
  "SERIAL_MAX = 2147483647"

definition AUTHOR_MAXLEN :: nat where
  "AUTHOR_MAXLEN = 80"

text \<open>A fresh server: reachable, no table yet, the sequence at its start value 1.\<close>

definition pg_initial :: pg_db where
  "pg_initial = \<lparr>pg_up = True, table_exists = False, rows = [], next_id = 1\<rparr>"

text \<open>
  Assignment to \<open>VARCHAR(n)\<close>: a longer string is an error unless the excess characters
  are all spaces, which are then cut off (the SQL standard rule PostgreSQL implements).
\<close>

definition varchar_coerce :: "nat \<Rightarrow> string \<Rightarrow> error + string" where
  "varchar_coerce n s =
     (if length s \<le> n then Inr s
      else if list_all (\<lambda>c. c = CHR '' '') (drop n s) then Inr (take n s)
      else Inl PgStringTooLong)"

subsection \<open>Operations\<close>

text \<open>\<open>init_db\<close>: \<open>CREATE TABLE IF NOT EXISTS\<close>, idempotent.\<close>

definition init_db :: "pg_db \<Rightarrow> error + pg_db" where
  "init_db db = (if \<not> pg_up db then Inl PgConnectionError else Inr (db\<lparr>table_exists := True\<rparr>))"

text \<open>\<open>ping\<close>: \<open>SELECT 1\<close>; it raises when the connection fails and returns \<open>True\<close> otherwise.\<close>

definition pg_ping :: "pg_db \<Rightarrow> error + bool" where
  "pg_ping db = (if \<not> pg_up db then Inl PgConnectionError else Inr True)"

text \<open>
  \<open>ORDER BY created_at DESC\<close>. PostgreSQL fixes no order among rows with equal
  timestamps; the model picks the one that lists the later insertion first, and the
  contract the code relies on is \<open>listing_spec\<close> below, which any order meets.
\<close>

definition newest_first :: "note_row list \<Rightarrow> note_row list" where
  "newest_first rs = rev (sort_key created_at rs)"

definition get_all_notes :: "pg_db \<Rightarrow> error + note_row list" where
  "get_all_notes db =
     (if \<not> pg_up db then Inl PgConnectionError
      else if \<not> table_exists db then Inl PgUndefinedTable
      else Inr (newest_first (rows db)))"

text \<open>
  \<open>insert_note\<close>: psycopg2 refuses a NUL character before sending the statement; the
  server then needs the table, coerces the author to \<open>VARCHAR(80)\<close> (a constant, folded
  when the statement is planned) and draws the id from the sequence when it executes.
  \<open>created_at\<close> is \<open>NOW()\<close>, the statement's start time \<open>now\<close>.
\<close>

definition insert_note :: "timestamp \<Rightarrow> string \<Rightarrow> string \<Rightarrow> pg_db \<Rightarrow> error + ((nat \<times> timestamp) \<times> pg_db)" where
  "insert_note now c a db =
     (if \<not> pg_up db then Inl PgConnectionError
      else if CHR 0x00 \<in> set c \<or> CHR 0x00 \<in> set a then Inl PyNulInString
      else if \<not> table_exists db then Inl PgUndefinedTable
      else case varchar_coerce AUTHOR_MAXLEN a of
        Inl e \<Rightarrow> Inl e
      | Inr a' \<Rightarrow>
          if SERIAL_MAX < next_id db then Inl PgSequenceExhausted
          else Inr ((next_id db, now),
                    db\<lparr>rows := rows db @ [\<lparr>note_id = next_id db, content = c, author = a', created_at = now\<rparr>],
                       next_id := Suc (next_id db)\<rparr>))"

text \<open>\<open>db_service.delete_note\<close>: \<open>DELETE \<dots> WHERE id = %s RETURNING id\<close>; true iff a row came back.\<close>

definition db_delete_note :: "nat \<Rightarrow> pg_db \<Rightarrow> error + (bool \<times> pg_db)" where
  "db_delete_note i db =
     (if \<not> pg_up db then Inl PgConnectionError
      else if \<not> table_exists db then Inl PgUndefinedTable
      else Inr (list_ex (\<lambda>r. note_id r = i) (rows db),
                db\<lparr>rows := filter (\<lambda>r. note_id r \<noteq> i) (rows db)\<rparr>))"

definition count_notes :: "pg_db \<Rightarrow> error + nat" where
  "count_notes db =
     (if \<not> pg_up db then Inl PgConnectionError
      else if \<not> table_exists db then Inl PgUndefinedTable
      else Inr (length (rows db)))"

subsection \<open>Invariant and abstraction\<close>

text \<open>
  What the table keeps true at clock time \<open>now\<close>: ids strictly increase in insertion order,
  are positive, within \<open>integer\<close> range and below the sequence's next value; timestamps never decrease and are not
  in the future; authors fit the column; rows exist only in an existing table.
\<close>

definition store_inv :: "timestamp \<Rightarrow> pg_db \<Rightarrow> bool" where
  "store_inv now db \<longleftrightarrow>
     sorted_wrt (<) (map note_id (rows db)) \<and>
     (\<forall>r\<in>set (rows db). 0 < note_id r \<and> note_id r < next_id db \<and> note_id r \<le> SERIAL_MAX
                          \<and> created_at r \<le> now
                          \<and> length (author r) \<le> AUTHOR_MAXLEN) \<and>
     sorted (map created_at (rows db)) \<and>
     0 < next_id db \<and>
     (table_exists db \<or> rows db = [])"

text \<open>The table seen as a map from ids to rows, the view the service's contract is about.\<close>

definition store_map :: "pg_db \<Rightarrow> nat \<rightharpoonup> note_row" where
  "store_map db = map_of (map (\<lambda>r. (note_id r, r)) (rows db))"


subsection \<open>Lemmas\<close>

lemma varchar_coerce_length: "varchar_coerce n s = Inr s' \<Longrightarrow> length s' \<le> n"
  by (auto simp: varchar_coerce_def split: if_splits)

lemma varchar_coerce_short [simp]: "length s \<le> n \<Longrightarrow> varchar_coerce n s = Inr s"
  by (simp add: varchar_coerce_def)

text \<open>A string whose last character is not a space is never cut, only refused.\<close>

lemma varchar_coerce_long:
  assumes "n < length s" "last s \<noteq> CHR '' ''"
  shows "varchar_coerce n s = Inl PgStringTooLong"
proof -
  have ne: "drop n s \<noteq> []" using assms(1) by simp
  have "last (drop n s) = last s" using assms(1) by (rule last_drop)
  moreover have "last (drop n s) \<in> set (drop n s)" using ne by (rule last_in_set)
  ultimately have "\<not> list_all (\<lambda>c. c = CHR '' '') (drop n s)"
    using assms(2) unfolding list_all_iff by metis
  with assms(1) show ?thesis by (simp add: varchar_coerce_def)
qed

lemma map_of_snoc_fresh:
  "k \<notin> set (map fst xs) \<Longrightarrow> map_of (xs @ [(k, v)]) = (map_of xs)(k \<mapsto> v)"
  by (induction xs) (auto simp: fun_upd_twist)

lemma map_of_filter_key:
  "map_of (map (\<lambda>r. (f r, r)) (filter (\<lambda>r. f r \<noteq> i) rs)) = (map_of (map (\<lambda>r. (f r, r)) rs))(i := None)"
  by (induction rs) auto

lemma dom_store_map: "dom (store_map db) = note_id ` set (rows db)"
  by (force simp: store_map_def dom_map_of_conv_image_fst)

lemma map_add_singleton_fresh: "m k = None \<Longrightarrow> [k \<mapsto> v] ++ m = m(k \<mapsto> v)"
  by (rule ext) (auto simp: map_add_def split: option.splits)

lemma insert_note_Inr [model_simps]:
  "insert_note now c a db = Inr ((i, t), db') \<longleftrightarrow>
     pg_up db \<and> CHR 0x00 \<notin> set c \<and> CHR 0x00 \<notin> set a \<and> table_exists db \<and> next_id db \<le> SERIAL_MAX \<and>
     (\<exists>a'. varchar_coerce AUTHOR_MAXLEN a = Inr a' \<and> i = next_id db \<and> t = now \<and>
        db' = db\<lparr>rows := rows db @ [\<lparr>note_id = next_id db, content = c, author = a', created_at = now\<rparr>],
                 next_id := Suc (next_id db)\<rparr>)"
  unfolding insert_note_def by (auto split: sum.splits)

lemma db_delete_note_Inr [model_simps]:
  "db_delete_note i db = Inr (b, db') \<longleftrightarrow>
     pg_up db \<and> table_exists db \<and> b = list_ex (\<lambda>r. note_id r = i) (rows db) \<and>
     db' = db\<lparr>rows := filter (\<lambda>r. note_id r \<noteq> i) (rows db)\<rparr>"
  unfolding db_delete_note_def by auto

lemma get_all_notes_Inr [model_simps]:
  "get_all_notes db = Inr ns \<longleftrightarrow> pg_up db \<and> table_exists db \<and> ns = newest_first (rows db)"
  unfolding get_all_notes_def by auto


lemma set_newest_first [simp]: "set (newest_first rs) = set rs"
  by (simp add: newest_first_def)

lemma store_inv_insert [inv_intros]:
  assumes "store_inv now db" "insert_note now c a db = Inr (res, db')"
  shows "store_inv now db'"
proof -
  obtain a' where ok: "pg_up db" "table_exists db" "next_id db \<le> SERIAL_MAX"
    and a': "varchar_coerce AUTHOR_MAXLEN a = Inr a'"
    and db': "db' = db\<lparr>rows := rows db @ [\<lparr>note_id = next_id db, content = c, author = a', created_at = now\<rparr>],
                 next_id := Suc (next_id db)\<rparr>"
    using assms(2) by (cases res) (auto simp: insert_note_Inr)
  have "length a' \<le> AUTHOR_MAXLEN" using a' by (rule varchar_coerce_length)
  with assms(1) ok show ?thesis
    unfolding db' store_inv_def by (auto simp: sorted_wrt_append sorted_append)
qed

lemma store_inv_delete [inv_intros]:
  assumes "store_inv now db" "db_delete_note i db = Inr (b, db')"
  shows "store_inv now db'"
  using assms
  by (auto simp: store_inv_def db_delete_note_Inr sorted_wrt_map sorted_wrt_filter sorted_filter)

lemma store_inv_init_db [inv_intros]:
  assumes "store_inv now db" "init_db db = Inr db'"
  shows "store_inv now db'"
  using assms by (auto simp: store_inv_def init_db_def split: if_splits)

lemma store_inv_clock [inv_intros]: "store_inv now db \<Longrightarrow> now \<le> now' \<Longrightarrow> store_inv now' db"
  by (fastforce simp: store_inv_def)

lemma store_inv_pg_up [inv_intros]: "store_inv now db \<Longrightarrow> store_inv now (db\<lparr>pg_up := b\<rparr>)"
  by (simp add: store_inv_def)

lemma store_inv_initial: "store_inv now pg_initial"
  by (simp add: store_inv_def pg_initial_def)

lemma store_inv_ids_distinct: "store_inv now db \<Longrightarrow> distinct (map note_id (rows db))"
  by (auto simp: store_inv_def strict_sorted_iff)

text \<open>The definitions to unfold when a concrete state is evaluated.\<close>

lemmas store_eval = insert_note_def get_all_notes_def db_delete_note_def count_notes_def pg_ping_def
  init_db_def pg_initial_def SERIAL_MAX_def AUTHOR_MAXLEN_def newest_first_def varchar_coerce_def

subsection \<open>Properties of the store\<close>

text \<open>C27: Insert refines a map update. On a table that satisfies the invariant, a successful \<open>insert_note\<close> returns a fresh id larger than every stored id and the timestamp \<open>now\<close>, and the id map of the table gains exactly that id, mapped to the new row (whose author is the given one when it fits the column).\<close>

theorem insert_note_refines:
  assumes "store_inv now db" "insert_note now c a db = Inr ((i, t), db')"
  shows "i \<notin> dom (store_map db) \<and> (\<forall>j\<in>dom (store_map db). j < i) \<and> t = now \<and>
         (\<exists>a'. store_map db' = (store_map db)(i \<mapsto> \<lparr>note_id = i, content = c, author = a', created_at = now\<rparr>)
               \<and> (length a \<le> AUTHOR_MAXLEN \<longrightarrow> a' = a))"
proof -
  obtain a' where a': "varchar_coerce AUTHOR_MAXLEN a = Inr a'" and i: "i = next_id db" "t = now"
    and db': "db' = db\<lparr>rows := rows db @ [\<lparr>note_id = next_id db, content = c, author = a', created_at = now\<rparr>],
                 next_id := Suc (next_id db)\<rparr>"
    using assms(2) by (auto simp: insert_note_Inr)
  have lt: "\<forall>j\<in>dom (store_map db). j < i"
    using assms(1) i by (auto simp: store_inv_def dom_store_map)
  then have fresh: "i \<notin> set (map fst (map (\<lambda>r. (note_id r, r)) (rows db)))"
    by (auto simp: dom_store_map)
  have "store_map db' = (store_map db)(i \<mapsto> \<lparr>note_id = i, content = c, author = a', created_at = now\<rparr>)"
    unfolding db' store_map_def using fresh i
    by (simp add: map_add_singleton_fresh map_of_eq_None_iff image_image)
  moreover have "length a \<le> AUTHOR_MAXLEN \<longrightarrow> a' = a" using a' by (auto simp: varchar_coerce_def)
  ultimately show ?thesis using lt i by auto
qed

theorem insert_note_refines_witness:
  "store_inv 0 (pg_initial\<lparr>table_exists := True\<rparr>) \<and>
   insert_note 0 ''hi'' ''bob'' (pg_initial\<lparr>table_exists := True\<rparr>) =
     Inr ((1, 0), \<lparr>pg_up = True, table_exists = True,
        rows = [\<lparr>note_id = 1, content = ''hi'', author = ''bob'', created_at = 0\<rparr>], next_id = 2\<rparr>) \<and>
   (1::nat) \<notin> dom (store_map (pg_initial\<lparr>table_exists := True\<rparr>))"
proof -
  have h1: "store_inv 0 (pg_initial\<lparr>table_exists := True\<rparr>)" by (simp add: store_inv_def pg_initial_def)
  have h2: "insert_note 0 ''hi'' ''bob'' (pg_initial\<lparr>table_exists := True\<rparr>) =
     Inr ((1, 0), \<lparr>pg_up = True, table_exists = True,
        rows = [\<lparr>note_id = 1, content = ''hi'', author = ''bob'', created_at = 0\<rparr>], next_id = 2\<rparr>)"
    by (simp add: store_eval)
  show ?thesis using h1 h2 insert_note_refines [OF h1 h2] by blast
qed

text \<open>C28: Delete refines a map removal. A successful \<open>delete_note\<close> returns true exactly when the id was in the table, and the id map loses exactly that id; the sequence is untouched.\<close>

theorem db_delete_note_refines:
  assumes "db_delete_note i db = Inr (b, db')"
  shows "b = (i \<in> dom (store_map db)) \<and> store_map db' = (store_map db)(i := None) \<and> next_id db' = next_id db"
proof -
  from assms have b: "b = list_ex (\<lambda>r. note_id r = i) (rows db)"
    and db': "db' = db\<lparr>rows := filter (\<lambda>r. note_id r \<noteq> i) (rows db)\<rparr>"
    by (simp_all add: db_delete_note_Inr)
  have "b = (i \<in> dom (store_map db))" unfolding b by (auto simp: dom_store_map list_ex_iff)
  moreover have "store_map db' = (store_map db)(i := None)"
    unfolding db' store_map_def by (simp add: map_of_filter_key)
  ultimately show ?thesis using db' by simp
qed

theorem db_delete_note_refines_witness:
  "db_delete_note 3 (pg_initial\<lparr>table_exists := True\<rparr>) = Inr (False, pg_initial\<lparr>table_exists := True\<rparr>) \<and>
   False = ((3::nat) \<in> dom (store_map (pg_initial\<lparr>table_exists := True\<rparr>)))"
proof -
  have h: "db_delete_note 3 (pg_initial\<lparr>table_exists := True\<rparr>) = Inr (False, pg_initial\<lparr>table_exists := True\<rparr>)"
    by (simp add: store_eval)
  show ?thesis using h db_delete_note_refines [OF h] by simp
qed

text \<open>Count. On a table that satisfies the invariant, \<open>count_notes\<close> is the number of distinct ids stored.\<close>

theorem count_notes_refines:
  assumes "store_inv now db" "count_notes db = Inr n"
  shows "n = card (dom (store_map db))"
proof -
  have "distinct (map note_id (rows db))" using assms(1) by (rule store_inv_ids_distinct)
  then have "card (set (map note_id (rows db))) = length (map note_id (rows db))"
    by (rule distinct_card)
  then have "card (note_id ` set (rows db)) = length (rows db)" by simp
  moreover have "n = length (rows db)" using assms(2) by (auto simp: count_notes_def split: if_splits)
  ultimately show ?thesis by (simp add: dom_store_map)
qed

theorem count_notes_refines_witness:
  "store_inv 0 \<lparr>pg_up = True, table_exists = True,
        rows = [\<lparr>note_id = 1, content = ''hi'', author = ''bob'', created_at = 0\<rparr>], next_id = 2\<rparr> \<and>
   count_notes \<lparr>pg_up = True, table_exists = True,
        rows = [\<lparr>note_id = 1, content = ''hi'', author = ''bob'', created_at = 0\<rparr>], next_id = 2\<rparr> = Inr 1 \<and>
   1 = card (dom (store_map \<lparr>pg_up = True, table_exists = True,
        rows = [\<lparr>note_id = 1, content = ''hi'', author = ''bob'', created_at = (0::nat)\<rparr>], next_id = 2\<rparr>))"
proof -
  let ?db = "\<lparr>pg_up = True, table_exists = True,
        rows = [\<lparr>note_id = 1, content = ''hi'', author = ''bob'', created_at = (0::nat)\<rparr>], next_id = 2\<rparr>"
  have h1: "store_inv 0 ?db" by (simp add: store_inv_def SERIAL_MAX_def AUTHOR_MAXLEN_def)
  have h2: "count_notes ?db = Inr 1" by (simp add: count_notes_def)
  show ?thesis using h1 h2 count_notes_refines [OF h1 h2] by simp
qed

text \<open>Id range. Every id an insert hands out is within the \<open>integer\<close> range of the \<open>SERIAL\<close> column (1 to \<open>2^31 - 1\<close>), and once the sequence is spent every further insert fails.\<close>

theorem insert_note_sequence_exhausted:
  assumes "store_inv now db" "insert_note now c a db = Inr ((i, t), db')"
  shows "0 < i \<and> i \<le> SERIAL_MAX \<and> (\<forall>r\<in>set (rows db'). 0 < note_id r \<and> note_id r \<le> SERIAL_MAX) \<and>
         (next_id db' = Suc SERIAL_MAX \<longrightarrow> (\<forall>now' c' a'. \<exists>e. insert_note now' c' a' db' = Inl e))"
proof -
  have inv': "store_inv now db'" using assms by (rule store_inv_insert)
  have "i = next_id db" "next_id db \<le> SERIAL_MAX" "next_id db' = Suc (next_id db)"
    using assms(2) by (auto simp: insert_note_Inr)
  moreover have "0 < next_id db" using assms(1) by (simp add: store_inv_def)
  moreover have "\<forall>r\<in>set (rows db'). 0 < note_id r \<and> note_id r \<le> SERIAL_MAX"
    using inv' by (simp add: store_inv_def)
  moreover have "next_id db' = Suc SERIAL_MAX \<Longrightarrow> \<exists>e. insert_note now' c' a' db' = Inl e" for now' c' a'
    by (auto simp: insert_note_def split: sum.splits)
  ultimately show ?thesis by auto
qed

theorem insert_note_sequence_exhausted_witness:
  "store_inv 0 \<lparr>pg_up = True, table_exists = True, rows = [], next_id = SERIAL_MAX\<rparr> \<and>
   insert_note 0 ''hi'' ''bob'' \<lparr>pg_up = True, table_exists = True, rows = [], next_id = SERIAL_MAX\<rparr> =
     Inr ((SERIAL_MAX, 0), \<lparr>pg_up = True, table_exists = True,
        rows = [\<lparr>note_id = SERIAL_MAX, content = ''hi'', author = ''bob'', created_at = 0\<rparr>], next_id = Suc SERIAL_MAX\<rparr>) \<and>
   (\<exists>e. insert_note 5 ''x'' ''y'' \<lparr>pg_up = True, table_exists = True,
        rows = [\<lparr>note_id = SERIAL_MAX, content = ''hi'', author = ''bob'', created_at = 0\<rparr>], next_id = Suc SERIAL_MAX\<rparr> = Inl e)"
proof -
  let ?db = "\<lparr>pg_up = True, table_exists = True, rows = [], next_id = SERIAL_MAX\<rparr>"
  let ?db' = "\<lparr>pg_up = True, table_exists = True,
        rows = [\<lparr>note_id = SERIAL_MAX, content = ''hi'', author = ''bob'', created_at = (0::nat)\<rparr>], next_id = Suc SERIAL_MAX\<rparr>"
  have h1: "store_inv 0 ?db" by (simp add: store_inv_def SERIAL_MAX_def)
  have h2: "insert_note 0 ''hi'' ''bob'' ?db = Inr ((SERIAL_MAX, 0), ?db')"
    by (simp add: insert_note_def varchar_coerce_def AUTHOR_MAXLEN_def)
  show ?thesis using h1 h2 insert_note_sequence_exhausted [OF h1 h2] by auto
qed



end
