(* ===== verification/Json.thy ===== *)
theory Json
  imports Prelude
begin

text \<open>
  The JSON text that \<open>cache_service.set_notes\<close> stores (\<open>json.dumps(notes)\<close>) and
  that \<open>get_notes\<close> decodes (\<open>json.loads(raw) if raw else None\<close>). Python's \<open>json\<close>
  module is not in the repository; it is modelled from its documented behaviour with the
  default arguments: \<open>ensure_ascii=True\<close> (every character outside \<open>' '..'~'\<close>, the quote
  and the backslash escaped), separators \<open>", "\<close> and \<open>": "\<close>, integers in decimal;
  \<open>loads\<close> in strict mode (no raw control characters inside strings), whitespace around
  tokens, trailing data refused. Characters are the 256 code points of \<open>char\<close>; a
  \<open>\u\<close> escape above \<open>\u00ff\<close> and a number with fraction or exponent have no value
  in the model and decode to \<open>None\<close>. \<open>None\<close> stands for \<open>JSONDecodeError\<close>.
\<close>

subsection \<open>Encoding: \<open>json.dumps\<close>\<close>

definition hex_digit :: "nat \<Rightarrow> char" where
  "hex_digit d = (if d < 10 then char_of (48 + d) else char_of (87 + d))"

definition json_escape_char :: "char \<Rightarrow> string" where
  "json_escape_char c =
     (let n = (of_char c :: nat) in
      if c = CHR 0x22 then [CHR 0x5C, CHR 0x22]
      else if c = CHR 0x5C then [CHR 0x5C, CHR 0x5C]
      else if n = 10 then [CHR 0x5C, CHR ''n'']
      else if n = 13 then [CHR 0x5C, CHR ''r'']
      else if n = 9 then [CHR 0x5C, CHR ''t'']
      else if n = 8 then [CHR 0x5C, CHR ''b'']
      else if n = 12 then [CHR 0x5C, CHR ''f'']
      else if n < 32 \<or> 127 \<le> n
        then [CHR 0x5C, CHR ''u'', CHR ''0'', CHR ''0'', hex_digit (n div 16), hex_digit (n mod 16)]
      else [c])"

definition json_escape :: "string \<Rightarrow> string" where
  "json_escape s = concat (map json_escape_char s)"

definition digit_char :: "nat \<Rightarrow> char" where
  "digit_char d = char_of (48 + d)"

fun show_nat :: "nat \<Rightarrow> string" where
  "show_nat n = (if n < 10 then [digit_char n] else show_nat (n div 10) @ [digit_char (n mod 10)])"

declare show_nat.simps [simp del]

definition show_int :: "int \<Rightarrow> string" where
  "show_int i = (if i < 0 then CHR ''-'' # show_nat (nat (- i)) else show_nat (nat i))"

text \<open>\<open>sep.join(parts)\<close>.\<close>

fun py_join :: "string \<Rightarrow> string list \<Rightarrow> string" where
  "py_join sep [] = []"
| "py_join sep [x] = x"
| "py_join sep (x # y # zs) = x @ sep @ py_join sep (y # zs)"

definition json_quote :: "string \<Rightarrow> string" where
  "json_quote s = CHR 0x22 # json_escape s @ [CHR 0x22]"

fun json_dumps :: "json \<Rightarrow> string" where
  "json_dumps JNull = ''null''"
| "json_dumps (JBool b) = (if b then ''true'' else ''false'')"
| "json_dumps (JNum i) = show_int i"
| "json_dumps (JStr s) = json_quote s"
| "json_dumps (JArr xs) = CHR ''['' # py_join '', '' (map json_dumps xs) @ '']''"
| "json_dumps (JObj kvs) =
     CHR ''{'' # py_join '', '' (map (\<lambda>(k, v). json_quote k @ '': '' @ json_dumps v) kvs) @ ''}''"

subsection \<open>Decoding: \<open>json.loads\<close>\<close>

definition is_json_ws :: "char \<Rightarrow> bool" where
  "is_json_ws c \<longleftrightarrow> c = CHR '' '' \<or> c = CHR 0x09 \<or> c = CHR 0x0A \<or> c = CHR 0x0D"

definition skip_ws :: "string \<Rightarrow> string" where
  "skip_ws s = dropWhile is_json_ws s"

definition is_digit :: "char \<Rightarrow> bool" where
  "is_digit c \<longleftrightarrow> (48::nat) \<le> of_char c \<and> of_char c \<le> (57::nat)"

definition hex_val :: "char \<Rightarrow> nat option" where
  "hex_val c =
     (let n = (of_char c :: nat) in
      if 48 \<le> n \<and> n \<le> 57 then Some (n - 48)
      else if 97 \<le> n \<and> n \<le> 102 then Some (n - 87)
      else if 65 \<le> n \<and> n \<le> 70 then Some (n - 55)
      else None)"

fun unhex :: "nat \<Rightarrow> string \<Rightarrow> nat option" where
  "unhex acc [] = Some acc"
| "unhex acc (c # cs) = (case hex_val c of None \<Rightarrow> None | Some d \<Rightarrow> unhex (16 * acc + d) cs)"

definition unescape :: "char \<Rightarrow> char option" where
  "unescape e =
     (if e = CHR 0x22 then Some (CHR 0x22)
      else if e = CHR 0x5C then Some (CHR 0x5C)
      else if e = CHR ''/'' then Some (CHR ''/'')
      else if e = CHR ''b'' then Some (CHR 0x08)
      else if e = CHR ''f'' then Some (CHR 0x0C)
      else if e = CHR ''n'' then Some (CHR 0x0A)
      else if e = CHR ''r'' then Some (CHR 0x0D)
      else if e = CHR ''t'' then Some (CHR 0x09)
      else None)"

text \<open>The body of a string after its opening quote: the decoded string and the text after
  the closing quote.\<close>

fun parse_str :: "string \<Rightarrow> (string \<times> string) option" where
  "parse_str [] = None"
| "parse_str (c # cs) =
     (if c = CHR 0x22 then Some ([], cs)
      else if c = CHR 0x5C then
        (case cs of
           [] \<Rightarrow> None
         | e # cs' \<Rightarrow>
             (if e = CHR ''u'' then
                (case cs' of
                   h1 # h2 # h3 # h4 # r \<Rightarrow>
                     (case unhex 0 [h1, h2, h3, h4] of
                        Some n \<Rightarrow>
                          if n < 256 then map_option (\<lambda>(t, r'). (char_of n # t, r')) (parse_str r) else None
                      | None \<Rightarrow> None)
                 | _ \<Rightarrow> None)
              else
                (case unescape e of
                   Some ch \<Rightarrow> map_option (\<lambda>(t, r'). (ch # t, r')) (parse_str cs')
                 | None \<Rightarrow> None)))
      else if of_char c < (32::nat) then None
      else map_option (\<lambda>(t, r). (c # t, r)) (parse_str cs))"

definition digits_val :: "string \<Rightarrow> nat" where
  "digits_val ds = foldl (\<lambda>acc c. 10 * acc + (of_char c - 48)) 0 ds"

text \<open>\<open>-?(0|[1-9][0-9]*)\<close>; a following fraction or exponent makes a float.\<close>

definition parse_number :: "string \<Rightarrow> (json \<times> string) option" where
  "parse_number s =
     (let neg = (s \<noteq> [] \<and> hd s = CHR ''-'');
          s1 = (if neg then tl s else s);
          ds0 = takeWhile is_digit s1;
          ds = (if ds0 \<noteq> [] \<and> hd ds0 = CHR ''0'' then [CHR ''0''] else ds0);
          r = drop (length ds) s1;
          n = int (digits_val ds)
      in if ds = [] then None
         else if r \<noteq> [] \<and> hd r \<in> {CHR ''.'', CHR ''e'', CHR ''E''} then None
         else Some (JNum (if neg then - n else n), r))"

fun strip_prefix :: "string \<Rightarrow> string \<Rightarrow> string option" where
  "strip_prefix [] s = Some s"
| "strip_prefix (p # ps) [] = None"
| "strip_prefix (p # ps) (c # cs) = (if p = c then strip_prefix ps cs else None)"

text \<open>A value, the elements of an array after its \<open>[\<close>, the members of an object after
  its \<open>{\<close>; the first argument is fuel, one unit per nesting and per element.\<close>

fun parse_value :: "nat \<Rightarrow> string \<Rightarrow> (json \<times> string) option"
and parse_elems :: "nat \<Rightarrow> string \<Rightarrow> (json list \<times> string) option"
and parse_members :: "nat \<Rightarrow> string \<Rightarrow> ((string \<times> json) list \<times> string) option" where
  "parse_value 0 s = None"
| "parse_value (Suc n) s =
     (case skip_ws s of
        [] \<Rightarrow> None
      | c # cs \<Rightarrow>
          if c = CHR ''n'' then map_option (\<lambda>r. (JNull, r)) (strip_prefix ''ull'' cs)
          else if c = CHR ''t'' then map_option (\<lambda>r. (JBool True, r)) (strip_prefix ''rue'' cs)
          else if c = CHR ''f'' then map_option (\<lambda>r. (JBool False, r)) (strip_prefix ''alse'' cs)
          else if c = CHR 0x22 then map_option (\<lambda>(t, r). (JStr t, r)) (parse_str cs)
          else if c = CHR ''['' then
            (case skip_ws cs of
               d # r \<Rightarrow> if d = CHR '']'' then Some (JArr [], r)
                        else map_option (\<lambda>(xs, r'). (JArr xs, r')) (parse_elems n cs)
             | [] \<Rightarrow> None)
          else if c = CHR ''{'' then
            (case skip_ws cs of
               d # r \<Rightarrow> if d = CHR ''}'' then Some (JObj [], r)
                        else map_option (\<lambda>(kvs, r'). (JObj kvs, r')) (parse_members n cs)
             | [] \<Rightarrow> None)
          else parse_number (c # cs))"
| "parse_elems 0 s = None"
| "parse_elems (Suc n) s =
     (case parse_value n s of
        None \<Rightarrow> None
      | Some (v, r) \<Rightarrow>
          (case skip_ws r of
             [] \<Rightarrow> None
           | d # r' \<Rightarrow>
               if d = CHR '','' then map_option (\<lambda>(vs, r''). (v # vs, r'')) (parse_elems n r')
               else if d = CHR '']'' then Some ([v], r')
               else None))"
| "parse_members 0 s = None"
| "parse_members (Suc n) s =
     (case skip_ws s of
        [] \<Rightarrow> None
      | q # r \<Rightarrow>
          if q \<noteq> CHR 0x22 then None
          else
            (case parse_str r of
               None \<Rightarrow> None
             | Some (k, r1) \<Rightarrow>
                 (case skip_ws r1 of
                    [] \<Rightarrow> None
                  | col # r2 \<Rightarrow>
                      if col \<noteq> CHR '':'' then None
                      else
                        (case parse_value n r2 of
                           None \<Rightarrow> None
                         | Some (v, r3) \<Rightarrow>
                             (case skip_ws r3 of
                                [] \<Rightarrow> None
                              | d # r4 \<Rightarrow>
                                  if d = CHR '','' then
                                    map_option (\<lambda>(kvs, r5). ((k, v) # kvs, r5)) (parse_members n r4)
                                  else if d = CHR ''}'' then Some ([(k, v)], r4)
                                  else None)))))"

text \<open>The fuel a value's text needs: one unit per nesting level and per element.\<close>

fun elems_need :: "nat list \<Rightarrow> nat" where
  "elems_need [] = 0"
| "elems_need (x # xs) = Suc (max x (elems_need xs))"

fun json_need :: "json \<Rightarrow> nat" where
  "json_need (JArr xs) = Suc (elems_need (map json_need xs))"
| "json_need (JObj kvs) = Suc (elems_need (map (\<lambda>(k, v). json_need v) kvs))"
| "json_need _ = 1"

text \<open>Each element, member and nesting level of a text uses at least one character, so
  the text's length is enough fuel.\<close>

definition json_loads :: "string \<Rightarrow> json option" where
  "json_loads s =
     (case parse_value (length s) s of
        None \<Rightarrow> None
      | Some (v, r) \<Rightarrow> if skip_ws r = [] then Some v else None)"

text \<open>The decoding in \<open>cache_service.get_notes\<close>: \<open>json.loads(raw) if raw else None\<close> on
  the reply of \<open>GET\<close> (\<open>None\<close> for a missing key); an empty text counts as a miss.\<close>

definition cached_value :: "string option \<Rightarrow> error + json option" where
  "cached_value raw =
     (case raw of
        None \<Rightarrow> Inr None
      | Some s \<Rightarrow>
          if s = [] then Inr None
          else (case json_loads s of None \<Rightarrow> Inl PyJSONDecodeError | Some v \<Rightarrow> Inr (Some v)))"

text \<open>Where a number's text may end (no digit, fraction or exponent follows), and the
  characters a value's text can start with.\<close>

definition num_end :: "string \<Rightarrow> bool" where
  "num_end r = (case r of [] \<Rightarrow> True | c # _ \<Rightarrow> \<not> is_digit c \<and> c \<notin> {CHR ''.'', CHR ''e'', CHR ''E''})"

definition value_start :: "char \<Rightarrow> bool" where
  "value_start c \<longleftrightarrow> c \<in> {CHR ''n'', CHR ''t'', CHR ''f'', CHR 0x22, CHR ''['', CHR ''{'', CHR ''-''} \<or> is_digit c"

subsection \<open>Lemmas: decoding the encoder's output\<close>

lemma hex_val_hex_digit: "d < 16 \<Longrightarrow> hex_val (hex_digit d) = Some d"
  by (auto simp: hex_val_def hex_digit_def Let_def of_char_of)

lemma unhex_escape:
  assumes "n < 256"
  shows "unhex 0 [CHR ''0'', CHR ''0'', hex_digit (n div 16), hex_digit (n mod 16)] = Some n"
proof -
  have h1: "hex_val (hex_digit (n div 16)) = Some (n div 16)" using assms by (simp add: hex_val_hex_digit)
  have h2: "hex_val (hex_digit (n mod 16)) = Some (n mod 16)" by (simp add: hex_val_hex_digit)
  have h0: "hex_val (CHR ''0'') = Some 0" by (simp add: hex_val_def)
  show ?thesis by (simp add: h0 h1 h2)
qed

lemma of_char_inj: "(of_char c :: nat) = of_char d \<Longrightarrow> c = d"
  by (metis char_of_char)

lemma parse_str_escape_char:
  "parse_str (json_escape_char c @ r) = map_option (\<lambda>(t, r'). (c # t, r')) (parse_str r)"
proof -
  let ?n = "of_char c :: nat"
  have lt: "?n < 256" by (rule nat_of_char_less_256)
  consider "c = CHR 0x22" | "c = CHR 0x5C" | "?n = 10" | "?n = 13" | "?n = 9" | "?n = 8" | "?n = 12"
    | "c \<noteq> CHR 0x22" "c \<noteq> CHR 0x5C" "?n \<notin> {8, 9, 10, 12, 13}" "?n < 32 \<or> 127 \<le> ?n"
    | "c \<noteq> CHR 0x22" "c \<noteq> CHR 0x5C" "32 \<le> ?n" "?n < 127"
    by fastforce
  then show ?thesis
  proof cases
    case 1 then show ?thesis by (simp add: json_escape_char_def unescape_def)
  next
    case 2 then show ?thesis by (simp add: json_escape_char_def unescape_def)
  next
    case 3
    then have "c = CHR 0x0A" by (intro of_char_inj) simp
    then show ?thesis by (simp add: json_escape_char_def unescape_def)
  next
    case 4
    then have "c = CHR 0x0D" by (intro of_char_inj) simp
    then show ?thesis by (simp add: json_escape_char_def unescape_def)
  next
    case 5
    then have "c = CHR 0x09" by (intro of_char_inj) simp
    then show ?thesis by (simp add: json_escape_char_def unescape_def)
  next
    case 6
    then have "c = CHR 0x08" by (intro of_char_inj) simp
    then show ?thesis by (simp add: json_escape_char_def unescape_def)
  next
    case 7
    then have "c = CHR 0x0C" by (intro of_char_inj) simp
    then show ?thesis by (simp add: json_escape_char_def unescape_def)
  next
    case 8
    then have e: "json_escape_char c = [CHR 0x5C, CHR ''u'', CHR ''0'', CHR ''0'', hex_digit (?n div 16), hex_digit (?n mod 16)]"
      by (auto simp: json_escape_char_def Let_def)
    show ?thesis using unhex_escape [OF lt] lt by (simp add: e)
  next
    case 9
    then have "json_escape_char c = [c]" by (auto simp: json_escape_char_def Let_def)
    with 9 show ?thesis by simp
  qed
qed

lemma parse_str_quote: "parse_str (json_escape s @ CHR 0x22 # rest) = Some (s, rest)"
  by (induction s) (simp_all add: json_escape_def parse_str_escape_char)

lemma is_digit_char: "d < 10 \<Longrightarrow> is_digit (digit_char d)"
  by (simp add: is_digit_def digit_char_def of_char_of)

lemma digit_char_val: "d < 10 \<Longrightarrow> of_char (digit_char d) - 48 = (d::nat)"
  by (simp add: digit_char_def of_char_of)

lemma show_nat_digits: "\<forall>c\<in>set (show_nat n). is_digit c"
  by (induction n rule: show_nat.induct) (subst show_nat.simps, auto simp: is_digit_char)

lemma show_nat_ne: "show_nat n \<noteq> []"
  by (subst show_nat.simps) auto

lemma digits_val_snoc: "digits_val (xs @ [c]) = 10 * digits_val xs + (of_char c - 48)"
  by (simp add: digits_val_def)

lemma digits_val_show_nat: "digits_val (show_nat n) = n"
  by (induction n rule: show_nat.induct) (subst show_nat.simps, auto simp: digits_val_snoc digit_char_val digits_val_def)

lemma hd_show_nat: "0 < n \<Longrightarrow> hd (show_nat n) \<noteq> CHR ''0''"
proof (induction n rule: show_nat.induct)
  case (1 n)
  show ?case
  proof (cases "n < 10")
    case True
    then have "of_char (digit_char n) \<noteq> (of_char (CHR ''0'') :: nat)"
      using "1.prems" by (simp add: digit_char_def of_char_of)
    with True show ?thesis by (subst show_nat.simps) auto
  next
    case False
    then have "0 < n div 10" by simp
    with "1.IH" False show ?thesis by (subst show_nat.simps) (simp add: show_nat_ne)
  qed
qed

lemma show_nat_zero: "show_nat 0 = [CHR ''0'']"
proof -
  have "digit_char 0 = CHR ''0''" by (rule of_char_inj) (simp add: digit_char_def of_char_of)
  then show ?thesis by (simp add: show_nat.simps)
qed

lemma takeWhile_digits:
  assumes "\<forall>c\<in>set ds. is_digit c" "num_end r"
  shows "takeWhile is_digit (ds @ r) = ds"
proof -
  have "takeWhile is_digit r = []" using assms(2) by (cases r) (auto simp: num_end_def)
  with assms(1) show ?thesis by (simp add: takeWhile_append2)
qed

lemma parse_number_digits:
  assumes "ds \<noteq> []" "\<forall>c\<in>set ds. is_digit c" "hd ds = CHR ''0'' \<Longrightarrow> ds = [CHR ''0'']"
    "num_end r"
  shows "parse_number (ds @ r) = Some (JNum (int (digits_val ds)), r)"
proof -
  have m: "\<not> is_digit (CHR ''-'')" by (simp add: is_digit_def)
  have neg: "(ds @ r \<noteq> [] \<and> hd (ds @ r) = CHR ''-'') = False" using assms(1,2) m by (cases ds) auto
  have tw: "takeWhile is_digit (ds @ r) = ds" using assms(2,4) by (rule takeWhile_digits)
  have e: "r \<noteq> [] \<longrightarrow> hd r \<notin> {CHR ''.'', CHR ''e'', CHR ''E''}" using assms(4) by (cases r) (auto simp: num_end_def)
  have d0: "(if ds \<noteq> [] \<and> hd ds = CHR ''0'' then [CHR ''0''] else ds) = ds" using assms(3) by auto
  have dr: "drop (length ds) (ds @ r) = r" by simp
  have "parse_number (ds @ r) =
     (if ds = [] then None
      else if r \<noteq> [] \<and> hd r \<in> {CHR ''.'', CHR ''e'', CHR ''E''} then None
      else Some (JNum (int (digits_val ds)), r))"
    unfolding parse_number_def Let_def by (simp only: neg if_False tw d0 dr)
  with assms(1) e show ?thesis by auto
qed

lemma parse_number_nat:
  assumes "num_end r"
  shows "parse_number (show_nat n @ r) = Some (JNum (int n), r)"
proof -
  have "show_nat n = [CHR ''0'']" if "hd (show_nat n) = CHR ''0''"
    using that hd_show_nat [of n] show_nat_zero by (cases "n = 0") auto
  from parse_number_digits [OF show_nat_ne show_nat_digits this assms]
  show ?thesis by (simp add: digits_val_show_nat)
qed

lemma parse_number_show_int:
  assumes "num_end r"
  shows "parse_number (show_int i @ r) = Some (JNum i, r)"
proof (cases "i < 0")
  case False
  then show ?thesis using parse_number_nat [OF assms, of "nat i"] by (simp add: show_int_def)
next
  case True
  have p: "parse_number (show_nat (nat (- i)) @ r) = Some (JNum (int (nat (- i))), r)"
    by (rule parse_number_nat [OF assms])
  have ne: "show_nat (nat (- i)) \<noteq> []" by (rule show_nat_ne)
  have "hd (show_nat (nat (- i)) @ r) \<noteq> CHR ''-''"
  proof -
    have "is_digit (hd (show_nat (nat (- i))))" using show_nat_digits [of "nat (- i)"] ne by simp
    then show ?thesis using ne by (auto simp: is_digit_def)
  qed
  with p ne True show ?thesis
    by (auto simp: show_int_def parse_number_def Let_def split: if_splits)
qed

lemma strip_prefix_append: "strip_prefix p (p @ s) = Some s"
  by (induction p) auto

lemma skip_ws_Cons: "\<not> is_json_ws c \<Longrightarrow> skip_ws (c # s) = c # s"
  by (simp add: skip_ws_def)

lemma skip_ws_space: "skip_ws (CHR '' '' # s) = skip_ws s"
  by (simp add: skip_ws_def is_json_ws_def)

lemma parse_value_space: "parse_value n (CHR '' '' # s) = parse_value n s"
  by (cases n) (simp_all add: skip_ws_space)

lemma parse_elems_space: "parse_elems n (CHR '' '' # s) = parse_elems n s"
  by (cases n) (simp_all add: parse_value_space)

lemma parse_members_space: "parse_members n (CHR '' '' # s) = parse_members n s"
  by (cases n) (simp_all add: skip_ws_space)

lemma py_join_Cons:
  "py_join sep (x # xs) = x @ (if xs = [] then [] else sep @ py_join sep xs)"
  by (cases xs) auto

lemma value_start_not: "value_start c \<Longrightarrow> \<not> is_json_ws c \<and> c \<noteq> CHR '']'' \<and> c \<noteq> CHR ''}''"
  by (auto simp: value_start_def is_json_ws_def is_digit_def)

lemma show_int_start: "\<exists>c cs. show_int i = c # cs \<and> (c = CHR ''-'' \<or> is_digit c)"
proof -
  have d: "\<exists>c cs. show_nat m = c # cs \<and> is_digit c" for m
    using show_nat_ne [of m] show_nat_digits [of m] by (cases "show_nat m") auto
  show ?thesis
  proof (cases "i < 0")
    case True
    then show ?thesis by (simp add: show_int_def)
  next
    case False
    from d [of "nat i"] obtain c cs where "show_nat (nat i) = c # cs" "is_digit c" by blast
    with False show ?thesis by (simp add: show_int_def)
  qed
qed

lemma json_dumps_start: "\<exists>c cs. json_dumps v = c # cs \<and> value_start c"
proof (cases v)
  case (JNum i)
  then show ?thesis using show_int_start [of i] by (auto simp: value_start_def)
next
  case (JBool b)
  then show ?thesis by (cases b) (auto simp: value_start_def)
qed (auto simp: value_start_def json_quote_def)

lemma parse_value_number:
  assumes "\<not> is_json_ws c" "c \<notin> {CHR ''n'', CHR ''t'', CHR ''f'', CHR 0x22, CHR ''['', CHR ''{''}"
  shows "parse_value (Suc m) (c # cs) = parse_number (c # cs)"
  using assms by (simp add: skip_ws_Cons)

lemma num_end_sep [simp]:
  "num_end (CHR '','' # r)" "num_end (CHR '']'' # r)" "num_end (CHR ''}'' # r)" "num_end []"
  by (simp_all add: num_end_def is_digit_def)

lemma skip_ws_sep [simp]:
  "skip_ws (CHR '','' # r) = CHR '','' # r" "skip_ws (CHR '']'' # r) = CHR '']'' # r"
  "skip_ws (CHR ''}'' # r) = CHR ''}'' # r" "skip_ws (CHR '':'' # r) = CHR '':'' # r"
  "skip_ws (CHR 0x22 # r) = CHR 0x22 # r" "skip_ws (CHR ''['' # r) = CHR ''['' # r"
  "skip_ws (CHR ''{'' # r) = CHR ''{'' # r"
  by (simp_all add: skip_ws_Cons is_json_ws_def)

lemma parse_elems_join:
  assumes IH: "\<And>x n rest. x \<in> set xs \<Longrightarrow> json_need x \<le> n \<Longrightarrow> num_end rest \<Longrightarrow>
                 parse_value n (json_dumps x @ rest) = Some (x, rest)"
    and "xs \<noteq> []" "elems_need (map json_need xs) \<le> n"
  shows "parse_elems n (py_join '', '' (map json_dumps xs) @ CHR '']'' # rest) = Some (xs, rest)"
  using assms
proof (induction xs arbitrary: n)
  case Nil
  then show ?case by simp
next
  case (Cons x xs)
  obtain m where n: "n = Suc m" using Cons.prems(3) by (cases n) auto
  have hx: "json_need x \<le> m" and hxs: "elems_need (map json_need xs) \<le> m" using Cons.prems(3) n by auto
  show ?case
  proof (cases "xs = []")
    case True
    have "parse_value m (json_dumps x @ CHR '']'' # rest) = Some (x, CHR '']'' # rest)"
      using Cons.prems(1) [of x m "CHR '']'' # rest"] hx by simp
    with True n show ?thesis by simp
  next
    case False
    let ?tl = "py_join '', '' (map json_dumps xs) @ CHR '']'' # rest"
    have px: "parse_value m (json_dumps x @ CHR '','' # CHR '' '' # ?tl) = Some (x, CHR '','' # CHR '' '' # ?tl)"
      using Cons.prems(1) [of x m "CHR '','' # CHR '' '' # ?tl"] hx by simp
    have pxs: "parse_elems m ?tl = Some (xs, rest)"
      using Cons.IH [OF _ False hxs] Cons.prems(1) by simp
    from px pxs False n show ?thesis by (simp add: py_join_Cons parse_elems_space)
  qed
qed

lemma parse_members_join:
  assumes IH: "\<And>k v n rest. (k, v) \<in> set kvs \<Longrightarrow> json_need v \<le> n \<Longrightarrow> num_end rest \<Longrightarrow>
                 parse_value n (json_dumps v @ rest) = Some (v, rest)"
    and "kvs \<noteq> []" "elems_need (map (\<lambda>(k, v). json_need v) kvs) \<le> n"
  shows "parse_members n (py_join '', '' (map (\<lambda>(k, v). json_quote k @ '': '' @ json_dumps v) kvs)
           @ CHR ''}'' # rest) = Some (kvs, rest)"
  using assms
proof (induction kvs arbitrary: n)
  case Nil
  then show ?case by simp
next
  case (Cons kv kvs)
  obtain k v where kv: "kv = (k, v)" by (cases kv)
  obtain m where n: "n = Suc m" using Cons.prems(3) by (cases n) auto
  have hv: "json_need v \<le> m" and hkvs: "elems_need (map (\<lambda>(k, v). json_need v) kvs) \<le> m"
    using Cons.prems(3) n kv by auto
  let ?tl = "if kvs = [] then CHR ''}'' # rest
             else CHR '','' # CHR '' '' # py_join '', '' (map (\<lambda>(k, v). json_quote k @ '': '' @ json_dumps v) kvs)
                    @ CHR ''}'' # rest"
  have ne: "num_end ?tl" by simp
  have pv: "parse_value m (json_dumps v @ ?tl) = Some (v, ?tl)"
    using Cons.prems(1) [of k v m ?tl] kv hv ne by simp
  have pk: "parse_str (json_escape k @ CHR 0x22 # CHR '':'' # CHR '' '' # json_dumps v @ ?tl)
      = Some (k, CHR '':'' # CHR '' '' # json_dumps v @ ?tl)"
    by (rule parse_str_quote)
  show ?case
  proof (cases "kvs = []")
    case True
    with pv pk n kv show ?thesis by (simp add: json_quote_def parse_value_space)
  next
    case False
    have pkvs: "parse_members m (py_join '', '' (map (\<lambda>(k, v). json_quote k @ '': '' @ json_dumps v) kvs)
           @ CHR ''}'' # rest) = Some (kvs, rest)"
    proof (rule Cons.IH [OF _ False hkvs])
      fix k' v' n' rest'
      assume "(k', v') \<in> set kvs" "json_need v' \<le> n'" "num_end rest'"
      then show "parse_value n' (json_dumps v' @ rest') = Some (v', rest')"
        using Cons.prems(1) [of k' v' n' rest'] by simp
    qed
    with pv pk n kv False show ?thesis
      by (simp add: json_quote_def parse_value_space parse_members_space py_join_Cons)
  qed
qed

lemma py_join_start:
  assumes "xs \<noteq> []" "\<And>x. x \<in> set xs \<Longrightarrow> \<exists>c cs. f x = c # cs \<and> P c"
  shows "\<exists>c cs. py_join sep (map f xs) = c # cs \<and> P c"
proof -
  obtain x xs' where xs: "xs = x # xs'" using assms(1) by (cases xs) auto
  obtain c cs where "f x = c # cs" "P c" using assms(2) [of x] xs by auto
  then show ?thesis using xs by (simp add: py_join_Cons)
qed

lemma parse_value_dumps:
  "json_need v \<le> n \<Longrightarrow> num_end rest \<Longrightarrow> parse_value n (json_dumps v @ rest) = Some (v, rest)"
proof (induction v arbitrary: n rest rule: json_dumps.induct)
  case 1
  then obtain m where "n = Suc m" by (cases n) auto
  then show ?case by (simp add: skip_ws_Cons is_json_ws_def strip_prefix_append)
next
  case (2 b)
  then obtain m where "n = Suc m" by (cases n) auto
  then show ?case by (cases b) (simp_all add: skip_ws_Cons is_json_ws_def strip_prefix_append)
next
  case (3 i)
  then obtain m where m: "n = Suc m" by (cases n) auto
  obtain c cs where s: "show_int i = c # cs" and c: "c = CHR ''-'' \<or> is_digit c"
    using show_int_start [of i] by blast
  have nw: "\<not> is_json_ws c" and nc: "c \<notin> {CHR ''n'', CHR ''t'', CHR ''f'', CHR 0x22, CHR ''['', CHR ''{''}"
    using c by (auto simp: is_json_ws_def is_digit_def)
  have "parse_value (Suc m) (c # cs @ rest) = parse_number (c # cs @ rest)"
    using nw nc by (rule parse_value_number)
  with m s parse_number_show_int [OF "3.prems"(2), of i] show ?case by simp
next
  case (4 s)
  then obtain m where "n = Suc m" by (cases n) auto
  then show ?case by (simp add: json_quote_def parse_str_quote)
next
  case (5 xs)
  then obtain m where m: "n = Suc m" by (cases n) auto
  show ?case
  proof (cases "xs = []")
    case True
    with m show ?thesis by simp
  next
    case False
    obtain c cs where j: "py_join '', '' (map json_dumps xs) = c # cs" and vs: "value_start c"
      using py_join_start [OF False, of json_dumps value_start] json_dumps_start by blast
    have e: "parse_elems m (py_join '', '' (map json_dumps xs) @ CHR '']'' # rest) = Some (xs, rest)"
      using parse_elems_join [OF "5.IH" False] "5.prems"(1) m by simp
    from value_start_not [OF vs] have "skip_ws ((c # cs) @ CHR '']'' # rest) = (c # cs) @ CHR '']'' # rest"
      by (simp add: skip_ws_Cons)
    with e j m value_start_not [OF vs] show ?thesis by simp
  qed
next
  case (6 kvs)
  then obtain m where m: "n = Suc m" by (cases n) auto
  show ?case
  proof (cases "kvs = []")
    case True
    with m show ?thesis by simp
  next
    case False
    have "\<exists>c cs. py_join '', '' (map (\<lambda>(k, v). json_quote k @ '': '' @ json_dumps v) kvs) = c # cs
        \<and> c = CHR 0x22"
      by (rule py_join_start [OF False]) (auto simp: json_quote_def)
    then obtain c cs where j: "py_join '', '' (map (\<lambda>(k, v). json_quote k @ '': '' @ json_dumps v) kvs) = c # cs"
        and c: "c = CHR 0x22" by blast
    have ih: "\<And>k v n rest. (k, v) \<in> set kvs \<Longrightarrow> json_need v \<le> n \<Longrightarrow> num_end rest \<Longrightarrow>
                parse_value n (json_dumps v @ rest) = Some (v, rest)"
      using "6.IH" by blast
    have e: "parse_members m (py_join '', '' (map (\<lambda>(k, v). json_quote k @ '': '' @ json_dumps v) kvs)
               @ CHR ''}'' # rest) = Some (kvs, rest)"
      using parse_members_join [OF ih False] "6.prems"(1) m by simp
    with j c m show ?thesis by simp
  qed
qed

lemma elems_need_le:
  assumes "\<And>x. x \<in> set xs \<Longrightarrow> f x \<le> length (g x)" "sep \<noteq> []"
  shows "elems_need (map f xs) \<le> Suc (length (py_join sep (map g xs)))"
  using assms
proof (induction xs)
  case Nil
  then show ?case by simp
next
  case (Cons a xs)
  have fa: "f a \<le> length (g a)" using Cons.prems by simp
  have ih: "elems_need (map f xs) \<le> Suc (length (py_join sep (map g xs)))"
    using Cons.IH Cons.prems by simp
  obtain s0 ss where sep: "sep = s0 # ss" using Cons.prems(2) by (cases sep) auto
  with fa ih show ?case by (cases xs) (auto simp: py_join_Cons)
qed

lemma json_need_le: "json_need v \<le> length (json_dumps v)"
proof (induction v rule: json_dumps.induct)
  case (5 xs)
  have "elems_need (map json_need xs) \<le> Suc (length (py_join '', '' (map json_dumps xs)))"
  proof (rule elems_need_le)
    fix x assume "x \<in> set xs"
    then show "json_need x \<le> length (json_dumps x)" by (rule "5.IH")
  qed simp
  then show ?case by simp
next
  case (6 kvs)
  have "elems_need (map (\<lambda>(k, v). json_need v) kvs)
        \<le> Suc (length (py_join '', '' (map (\<lambda>(k, v). json_quote k @ '': '' @ json_dumps v) kvs)))"
  proof (rule elems_need_le)
    fix x assume x: "x \<in> set kvs"
    obtain k v where kv: "x = (k, v)" by (cases x)
    have "json_need v \<le> length (json_dumps v)" by (rule "6.IH" [OF x kv [symmetric]])
    then show "(\<lambda>(k, v). json_need v) x \<le> length ((\<lambda>(k, v). json_quote k @ '': '' @ json_dumps v) x)"
      using kv by simp
  qed simp
  then show ?case by simp
next
  case (3 i)
  then show ?case using show_int_start [of i] by (auto simp: Suc_le_eq)
qed (auto simp: json_quote_def)

subsection \<open>Properties of the cached text\<close>

lemma json_loads_dumps: "json_loads (json_dumps v) = Some v"
proof -
  have "parse_value (length (json_dumps v)) (json_dumps v @ []) = Some (v, [])"
    using json_need_le num_end_sep(4) by (rule parse_value_dumps)
  then show ?thesis by (simp add: json_loads_def skip_ws_def)
qed

text \<open>C17: Round trip of the cached value. What \<open>set_notes\<close> stores, \<open>json.dumps(v)\<close>,
  \<open>get_notes\<close> decodes back to \<open>v\<close>, for every JSON value of the model; the text is never
  empty, so an empty list is still a hit. This is what the cache model, which stores the
  list itself, assumes.\<close>

theorem json_roundtrip: "cached_value (Some (json_dumps v)) = Inr (Some v)"
proof -
  have "json_dumps v \<noteq> []" using json_dumps_start [of v] by auto
  then show ?thesis by (simp add: cached_value_def json_loads_dumps)
qed

end
