(* ===== verification/Config.thy ===== *)
theory Config
  imports Json
begin

text \<open>
  \<open>app/config/__init__.py\<close>: the class \<open>Config\<close>, whose attributes are computed once,
  when the module is imported, from the environment (\<open>os.getenv(name, default)\<close>); the
  two ports go through \<open>int()\<close>, which raises \<open>ValueError\<close> on a malformed value, so the
  import, and with it the whole process, fails. The environment is a partial map from
  names to strings. Host names, ports and credentials only select which server a
  connection goes to; the rest of the model has one PostgreSQL and one Redis server, so
  only \<open>CACHE_TTL\<close> and \<open>NOTES_CACHE_KEY\<close> of \<open>app/services/cache_service.py\<close> are used
  elsewhere.
\<close>

text \<open>\<open>Config.CACHE_TTL\<close>, in seconds.\<close>

definition CACHE_TTL :: nat where
  "CACHE_TTL = 15"

text \<open>\<open>NOTES_CACHE_KEY\<close>, the one Redis key the service uses.\<close>

definition NOTES_CACHE_KEY :: string where
  "NOTES_CACHE_KEY = ''notes:all''"

subsection \<open>\<open>int()\<close> on a string\<close>

text \<open>The digits of a base-10 literal as \<open>int()\<close> accepts them: at least one digit,
  single underscores only between digits.\<close>

fun py_digits_ok :: "string \<Rightarrow> bool" where
  "py_digits_ok [] = False"
| "py_digits_ok [c] = is_digit c"
| "py_digits_ok (c # d # cs) =
     (is_digit c \<and>
      (if d = CHR ''_'' then (case cs of [] \<Rightarrow> False | e # _ \<Rightarrow> is_digit e) \<and> py_digits_ok cs
       else py_digits_ok (d # cs)))"

text \<open>The whitespace \<open>int()\<close> skips around a literal: CPython first maps every non-ASCII
  whitespace character to a space (here \<open>\x85\<close> and \<open>\xa0\<close>) and then skips ASCII
  space and \<open>\t \n \x0b \x0c \r\<close>; the separators \<open>\x1c\<close> to \<open>\x1f\<close>, which
  \<open>str.strip\<close> removes, make \<open>int()\<close> fail.\<close>

definition is_int_space :: "char \<Rightarrow> bool" where
  "is_int_space c \<longleftrightarrow> of_char c = (32::nat) \<or> (9 \<le> (of_char c::nat) \<and> of_char c \<le> (13::nat))
      \<or> of_char c = (133::nat) \<or> of_char c = (160::nat)"

definition int_strip :: "string \<Rightarrow> string" where
  "int_strip s = rev (dropWhile is_int_space (rev (dropWhile is_int_space s)))"

text \<open>\<open>int(s)\<close>: surrounding whitespace skipped, an optional sign, the digits.\<close>

definition py_int :: "string \<Rightarrow> error + int" where
  "py_int s =
     (let t = int_strip s;
          neg = (t \<noteq> [] \<and> hd t = CHR ''-'');
          body = (if t \<noteq> [] \<and> hd t \<in> {CHR ''-'', CHR ''+''} then tl t else t)
      in if py_digits_ok body
         then Inr ((if neg then -1 else 1) * int (digits_val (filter (\<lambda>c. c \<noteq> CHR ''_'') body)))
         else Inl PyValueError)"

subsection \<open>The class attributes\<close>

record config =
  POSTGRES_HOST :: string
  POSTGRES_PORT :: int
  POSTGRES_DB :: string
  POSTGRES_USER :: string
  POSTGRES_PASSWORD :: string
  REDIS_HOST :: string
  REDIS_PORT :: int
  cfg_cache_ttl :: nat

type_synonym environ = "string \<Rightarrow> string option"

text \<open>\<open>os.getenv(name, default)\<close> for a string default.\<close>

definition getenv_str :: "environ \<Rightarrow> string \<Rightarrow> string \<Rightarrow> string" where
  "getenv_str env name d = (case env name of None \<Rightarrow> d | Some v \<Rightarrow> v)"

text \<open>\<open>int(os.getenv(name, default))\<close> for an integer default: the default is already an
  \<open>int\<close>, a set variable is parsed.\<close>

definition getenv_int :: "environ \<Rightarrow> string \<Rightarrow> int \<Rightarrow> error + int" where
  "getenv_int env name d = (case env name of None \<Rightarrow> Inr d | Some v \<Rightarrow> py_int v)"

text \<open>The class body, top to bottom; the first exception ends the import.\<close>

definition load_config :: "environ \<Rightarrow> error + config" where
  "load_config env =
     (case getenv_int env ''POSTGRES_PORT'' 5432 of
        Inl e \<Rightarrow> Inl e
      | Inr pport \<Rightarrow>
          (case getenv_int env ''REDIS_PORT'' 6379 of
             Inl e \<Rightarrow> Inl e
           | Inr rport \<Rightarrow>
               Inr \<lparr>POSTGRES_HOST = getenv_str env ''POSTGRES_HOST'' ''db'',
                    POSTGRES_PORT = pport,
                    POSTGRES_DB = getenv_str env ''POSTGRES_DB'' ''practicedb'',
                    POSTGRES_USER = getenv_str env ''POSTGRES_USER'' ''admin'',
                    POSTGRES_PASSWORD = getenv_str env ''POSTGRES_PASSWORD'' ''secret'',
                    REDIS_HOST = getenv_str env ''REDIS_HOST'' ''redis'',
                    REDIS_PORT = rport,
                    cfg_cache_ttl = CACHE_TTL\<rparr>))"

subsection \<open>Lemmas\<close>

lemma CACHE_TTL_pos [simp]: "0 < CACHE_TTL"
  by (simp add: CACHE_TTL_def)

lemma py_digits_ok_digits: "ds \<noteq> [] \<Longrightarrow> \<forall>c\<in>set ds. is_digit c \<Longrightarrow> py_digits_ok ds"
proof (induction ds rule: py_digits_ok.induct)
  case (3 c d cs)
  have "d \<noteq> CHR ''_''" using "3.prems"(2) by (auto simp: is_digit_def)
  with 3 show ?case by simp
qed simp_all

lemma int_strip_no_space: "\<forall>c\<in>set s. \<not> is_int_space c \<Longrightarrow> int_strip s = s"
proof -
  assume a: "\<forall>c\<in>set s. \<not> is_int_space c"
  have d: "dropWhile is_int_space xs = xs" if "\<forall>c\<in>set xs. \<not> is_int_space c" for xs
    using that by (cases xs) auto
  show ?thesis using a d [of s] d [of "rev s"] by (simp add: int_strip_def)
qed

lemma digit_not_space: "is_digit c \<Longrightarrow> \<not> is_int_space c"
  by (auto simp: is_digit_def is_int_space_def)

lemma py_int_show_nat: "py_int (show_nat n) = Inr (int n)"
proof -
  let ?ds = "show_nat n"
  have dg: "\<forall>c\<in>set ?ds. is_digit c" by (rule show_nat_digits)
  have ne: "?ds \<noteq> []" by (rule show_nat_ne)
  have "\<forall>c\<in>set ?ds. \<not> is_int_space c" using dg digit_not_space by blast
  then have st: "int_strip ?ds = ?ds" by (rule int_strip_no_space)
  have hd: "hd ?ds \<notin> {CHR ''-'', CHR ''+''}" using dg ne by (cases ?ds) (auto simp: is_digit_def)
  have f: "filter (\<lambda>c. c \<noteq> CHR ''_'') ?ds = ?ds" using dg by (auto simp: filter_id_conv is_digit_def)
  show ?thesis
    using st hd ne f py_digits_ok_digits [OF ne dg] by (simp add: py_int_def Let_def digits_val_show_nat)
qed

subsection \<open>Properties of the configuration\<close>

text \<open>\<open>int(str(i)) == i\<close>. Reading back the decimal text of any integer, as
  \<open>json.dumps\<close> and \<open>str\<close> write it, gives the integer: a port written by \<open>str(port)\<close>
  into the environment is read back unchanged.\<close>

theorem py_int_show_int: "py_int (show_int i) = Inr i"
proof (cases "i < 0")
  case False
  then show ?thesis using py_int_show_nat [of "nat i"] by (simp add: show_int_def)
next
  case True
  let ?ds = "show_nat (nat (- i))"
  have dg: "\<forall>c\<in>set ?ds. is_digit c" by (rule show_nat_digits)
  have ne: "?ds \<noteq> []" by (rule show_nat_ne)
  have "\<forall>c\<in>set ?ds. \<not> is_int_space c" using dg digit_not_space by blast
  moreover have "\<not> is_int_space (CHR ''-'')" by (simp add: is_int_space_def)
  ultimately have "\<forall>c\<in>set (CHR ''-'' # ?ds). \<not> is_int_space c" by simp
  then have st: "int_strip (CHR ''-'' # ?ds) = CHR ''-'' # ?ds" by (rule int_strip_no_space)
  have f: "filter (\<lambda>c. c \<noteq> CHR ''_'') ?ds = ?ds" using dg by (auto simp: filter_id_conv is_digit_def)
  show ?thesis
    using True st f py_digits_ok_digits [OF ne dg] by (simp add: show_int_def py_int_def Let_def digits_val_show_nat)
qed

text \<open>Defaults. With none of the variables set, \<open>Config\<close> holds the documented
  defaults: host \<open>db\<close>, port 5432, database \<open>practicedb\<close>, user \<open>admin\<close>, Redis at
  \<open>redis:6379\<close>, and a 15 second cache TTL.\<close>

theorem load_config_defaults:
  "load_config (\<lambda>_. None) =
     Inr \<lparr>POSTGRES_HOST = ''db'', POSTGRES_PORT = 5432, POSTGRES_DB = ''practicedb'',
          POSTGRES_USER = ''admin'', POSTGRES_PASSWORD = ''secret'', REDIS_HOST = ''redis'',
          REDIS_PORT = 6379, cfg_cache_ttl = 15\<rparr>"
  by (simp add: load_config_def getenv_int_def getenv_str_def CACHE_TTL_def)

text \<open>C32: A malformed port stops the service at import. If \<open>POSTGRES_PORT\<close> or
  \<open>REDIS_PORT\<close> is set to a text that \<open>int()\<close> refuses, importing \<open>app.config\<close> raises
  \<open>ValueError\<close>: the process fails before the start-up loop of \<open>main.py\<close> runs.\<close>

theorem load_config_bad_port:
  assumes "env ''POSTGRES_PORT'' = Some s \<or> env ''REDIS_PORT'' = Some s" "py_int s = Inl PyValueError"
  shows "load_config env = Inl PyValueError"
proof -
  have v: "py_int x = Inl e \<Longrightarrow> e = PyValueError" for x e
    by (auto simp: py_int_def Let_def split: if_splits)
  show ?thesis
    using assms v by (auto simp: load_config_def getenv_int_def split: option.split sum.split)
qed

theorem load_config_bad_port_witness:
  "(([''REDIS_PORT'' \<mapsto> ''6379/tcp'']) ''POSTGRES_PORT'' = Some ''6379/tcp'' \<or>
     ([''REDIS_PORT'' \<mapsto> ''6379/tcp'']) ''REDIS_PORT'' = Some ''6379/tcp'') \<and>
   py_int ''6379/tcp'' = Inl PyValueError \<and>
   load_config [''REDIS_PORT'' \<mapsto> ''6379/tcp''] = Inl PyValueError"
proof -
  have h1: "([''REDIS_PORT'' \<mapsto> ''6379/tcp'']) ''POSTGRES_PORT'' = Some ''6379/tcp'' \<or>
     ([''REDIS_PORT'' \<mapsto> ''6379/tcp'']) ''REDIS_PORT'' = Some ''6379/tcp''" by simp
  have h2: "py_int ''6379/tcp'' = Inl PyValueError"
    by (simp add: py_int_def int_strip_def is_int_space_def is_digit_def)
  have h3: "load_config [''REDIS_PORT'' \<mapsto> ''6379/tcp''] = Inl PyValueError"
    by (rule load_config_bad_port [OF h1 h2])
  from h1 h2 h3 show ?thesis by blast
qed

end
