(* ===== verification/Redis.thy ===== *)
theory Redis
  imports Prelude
begin

text \<open>
  The Redis server the cache service talks to, modelled from Redis's documented command
  semantics (it is not part of the repository). One logical database: a key-value table
  whose entries carry an optional expiry instant, and the two cumulative counters that
  \<open>INFO stats\<close> reports. Values are kept abstract (\<open>'v\<close>); the service stores one
  JSON document. Every command is atomic (Redis runs one command at a time).

  Expiry follows Redis: a key with expiry instant \<open>t\<close> is gone once the clock is past
  \<open>t\<close> (\<open>now > t\<close>); a read of an expired key deletes it (lazy expiry) and a background
  cycle deletes expired keys at any time (\<open>r_active_expire\<close>). Reads through
  \<open>lookupKeyRead\<close> (\<open>GET\<close>, \<open>TTL\<close>) count a hit or a miss; writes count nothing.
\<close>

type_synonym 'v rentry = "'v \<times> timestamp option"

record 'v redis =
  r_up :: bool
  kv :: "(string \<times> 'v rentry) list"
  hits :: nat
  misses :: nat

definition redis_initial :: "'v redis" where
  "redis_initial = \<lparr>r_up = True, kv = [], hits = 0, misses = 0\<rparr>"

definition expired :: "timestamp \<Rightarrow> 'v rentry \<Rightarrow> bool" where
  "expired now e = (case snd e of None \<Rightarrow> False | Some t \<Rightarrow> t < now)"

text \<open>The keyspace as a client sees it at time \<open>now\<close>: expired entries are absent.\<close>

definition r_view :: "timestamp \<Rightarrow> 'v redis \<Rightarrow> string \<Rightarrow> 'v rentry option" where
  "r_view now r k = (case map_of (kv r) k of
                        None \<Rightarrow> None
                      | Some e \<Rightarrow> if expired now e then None else Some e)"

text \<open>\<open>expireIfNeeded\<close>: delete the key if it has expired.\<close>

definition expire_if_needed :: "timestamp \<Rightarrow> string \<Rightarrow> 'v redis \<Rightarrow> 'v redis" where
  "expire_if_needed now k r =
     (case map_of (kv r) k of
        Some e \<Rightarrow> if expired now e then r\<lparr>kv := AList.delete k (kv r)\<rparr> else r
      | None \<Rightarrow> r)"

text \<open>\<open>lookupKeyRead\<close>: lazy expiry, then the lookup, counted as a hit or a miss.\<close>

definition lookup_read :: "timestamp \<Rightarrow> string \<Rightarrow> 'v redis \<Rightarrow> 'v rentry option \<times> 'v redis" where
  "lookup_read now k r =
     (let r' = expire_if_needed now k r in
      case map_of (kv r') k of
        None \<Rightarrow> (None, r'\<lparr>misses := Suc (misses r')\<rparr>)
      | Some e \<Rightarrow> (Some e, r'\<lparr>hits := Suc (hits r')\<rparr>))"

definition r_get :: "timestamp \<Rightarrow> string \<Rightarrow> 'v redis \<Rightarrow> error + ('v option \<times> 'v redis)" where
  "r_get now k r =
     (if \<not> r_up r then Inl RedisConnectionError
      else let (e, r') = lookup_read now k r in Inr (map_option fst e, r'))"

text \<open>
  \<open>TTL\<close>: \<open>-2\<close> for a missing key, \<open>-1\<close> for a key without expiry, otherwise the
  remaining milliseconds rounded to seconds, \<open>(ms + 500) div 1000\<close>.
\<close>

definition ttl_reply :: "timestamp \<Rightarrow> 'v rentry option \<Rightarrow> int" where
  "ttl_reply now e =
     (case e of
        None \<Rightarrow> -2
      | Some (_, None) \<Rightarrow> -1
      | Some (_, Some t) \<Rightarrow> int ((t - now + 500) div 1000))"

definition r_ttl :: "timestamp \<Rightarrow> string \<Rightarrow> 'v redis \<Rightarrow> error + (int \<times> 'v redis)" where
  "r_ttl now k r =
     (if \<not> r_up r then Inl RedisConnectionError
      else let (e, r') = lookup_read now k r in Inr (ttl_reply now e, r'))"

text \<open>\<open>SETEX key seconds value\<close>: overwrite, expiry at \<open>now + seconds\<close>; zero is refused.\<close>

definition r_setex :: "timestamp \<Rightarrow> string \<Rightarrow> nat \<Rightarrow> 'v \<Rightarrow> 'v redis \<Rightarrow> error + 'v redis" where
  "r_setex now k secs v r =
     (if \<not> r_up r then Inl RedisConnectionError
      else if secs = 0 then Inl RedisResponseError
      else Inr (r\<lparr>kv := AList.update k (v, Some (now + secs * 1000)) (kv r)\<rparr>))"

definition r_del :: "string \<Rightarrow> 'v redis \<Rightarrow> error + 'v redis" where
  "r_del k r = (if \<not> r_up r then Inl RedisConnectionError else Inr (r\<lparr>kv := AList.delete k (kv r)\<rparr>))"

definition r_flushdb :: "'v redis \<Rightarrow> error + 'v redis" where
  "r_flushdb r = (if \<not> r_up r then Inl RedisConnectionError else Inr (r\<lparr>kv := []\<rparr>))"

definition r_ping :: "'v redis \<Rightarrow> error + bool" where
  "r_ping r = (if \<not> r_up r then Inl RedisConnectionError else Inr True)"

text \<open>
  \<open>INFO stats\<close> and \<open>INFO keyspace\<close>: the counters and the number of keys stored,
  which includes expired keys not yet reclaimed.
\<close>

definition r_info :: "'v redis \<Rightarrow> error + (nat \<times> nat \<times> nat)" where
  "r_info r = (if \<not> r_up r then Inl RedisConnectionError else Inr (hits r, misses r, length (kv r)))"

text \<open>The background expiry cycle, an environment step.\<close>

definition r_active_expire :: "timestamp \<Rightarrow> 'v redis \<Rightarrow> 'v redis" where
  "r_active_expire now r = r\<lparr>kv := filter (\<lambda>(k, e). \<not> expired now e) (kv r)\<rparr>"

text \<open>The server's keys are distinct.\<close>

definition redis_inv :: "'v redis \<Rightarrow> bool" where
  "redis_inv r \<longleftrightarrow> distinct (map fst (kv r))"

subsection \<open>Lemmas: the client view of each command\<close>

lemma r_view_expire_if_needed [simp]: "r_view now (expire_if_needed now k r) = r_view now r"
proof (rule ext)
  fix x
  show "r_view now (expire_if_needed now k r) x = r_view now r x"
    by (cases "x = k")
      (auto simp: r_view_def expire_if_needed_def map_of_delete_other split: option.splits)
qed

lemma map_of_expire_if_needed: "map_of (kv (expire_if_needed now k r)) k = r_view now r k"
  by (auto simp: r_view_def expire_if_needed_def split: option.splits)

lemma r_view_counters [simp]:
  "r_view now (r\<lparr>hits := h\<rparr>) = r_view now r" "r_view now (r\<lparr>misses := m\<rparr>) = r_view now r"
  "r_view now (r\<lparr>r_up := b\<rparr>) = r_view now r"
  by (simp_all add: fun_eq_iff r_view_def)

lemma lookup_read_view:
  "lookup_read now k r = (e, r') \<Longrightarrow> e = r_view now r k \<and> r_view now r' = r_view now r"
  by (auto simp: lookup_read_def Let_def map_of_expire_if_needed split: option.splits)

lemma lookup_read_stats:
  "lookup_read now k r = (e, r') \<Longrightarrow>
     (if e = None then misses r' = Suc (misses r) \<and> hits r' = hits r
      else hits r' = Suc (hits r) \<and> misses r' = misses r) \<and> r_up r' = r_up r"
  by (auto simp: lookup_read_def Let_def expire_if_needed_def split: option.splits if_splits)

lemma lookup_read_fst [simp]: "fst (lookup_read now k r) = r_view now r k"
  by (metis lookup_read_view prod.collapse)

lemma lookup_read_snd [simp]:
  "r_view now (snd (lookup_read now k r)) = r_view now r"
  "r_up (snd (lookup_read now k r)) = r_up r"
   apply (metis lookup_read_view prod.collapse)
  by (simp add: lookup_read_def Let_def expire_if_needed_def split: option.splits)

lemma r_get_eq:
  "r_get now k r = (if \<not> r_up r then Inl RedisConnectionError
                    else Inr (map_option fst (r_view now r k), snd (lookup_read now k r)))"
  by (simp add: r_get_def split_beta)

lemma r_ttl_eq:
  "r_ttl now k r = (if \<not> r_up r then Inl RedisConnectionError
                    else Inr (ttl_reply now (r_view now r k), snd (lookup_read now k r)))"
  by (simp add: r_ttl_def split_beta)

lemma r_view_setex:
  "r_setex now k secs v r = Inr r' \<Longrightarrow>
     r_view now r' = (r_view now r)(k \<mapsto> (v, Some (now + secs * 1000)))"
  by (auto simp: r_setex_def fun_eq_iff r_view_def expired_def map_of_update_other split: if_splits)

lemma r_view_del:
  "r_del k r = Inr r' \<Longrightarrow> r_view now r' = (r_view now r)(k := None)"
  by (auto simp: r_del_def fun_eq_iff r_view_def map_of_delete_other split: if_splits)

lemma r_view_flushdb: "r_flushdb r = Inr r' \<Longrightarrow> r_view now r' = Map.empty"
  by (auto simp: r_flushdb_def fun_eq_iff r_view_def split: if_splits)

lemma map_of_filter_live:
  "distinct (map fst xs) \<Longrightarrow> map_of (filter (\<lambda>(k, e). \<not> expired now e) xs) x =
     (case map_of xs x of None \<Rightarrow> None | Some e \<Rightarrow> if expired now e then None else Some e)"
  by (induction xs) (auto simp: map_of_eq_None_iff split: option.splits)

lemma r_view_active_expire:
  "redis_inv r \<Longrightarrow> r_view now (r_active_expire now r) = r_view now r"
  by (simp add: fun_eq_iff r_view_def r_active_expire_def redis_inv_def map_of_filter_live
      split: option.splits)

lemma r_view_later:
  "r_view now' r k = Some e \<Longrightarrow> now \<le> now' \<Longrightarrow> r_view now r k = Some e"
  by (auto simp: r_view_def expired_def split: option.splits if_splits)

lemma r_view_live: "r_view now r k = Some (v, Some t) \<Longrightarrow> now \<le> t"
  by (auto simp: r_view_def expired_def split: option.splits if_splits)

lemma redis_inv_setex: "redis_inv r \<Longrightarrow> r_setex now k s v r = Inr r' \<Longrightarrow> redis_inv r'"
  by (auto simp: redis_inv_def r_setex_def distinct_update split: if_splits)

lemma redis_inv_del: "redis_inv r \<Longrightarrow> r_del k r = Inr r' \<Longrightarrow> redis_inv r'"
  by (auto simp: redis_inv_def r_del_def distinct_delete split: if_splits)

lemma redis_inv_flushdb: "r_flushdb r = Inr r' \<Longrightarrow> redis_inv r'"
  by (auto simp: redis_inv_def r_flushdb_def split: if_splits)

lemma redis_inv_active_expire: "redis_inv r \<Longrightarrow> redis_inv (r_active_expire now r)"
  by (auto simp: redis_inv_def r_active_expire_def distinct_map_filter)

lemma redis_inv_lookup_read: "redis_inv r \<Longrightarrow> lookup_read now k r = (e, r') \<Longrightarrow> redis_inv r'"
  by (auto simp: redis_inv_def lookup_read_def Let_def expire_if_needed_def distinct_delete
      split: option.splits if_splits)

lemma redis_inv_lookup_read_snd [simp]: "redis_inv r \<Longrightarrow> redis_inv (snd (lookup_read now k r))"
  by (metis prod.collapse redis_inv_lookup_read)

lemma r_view_update_kv [simp]:
  "r_view now (r\<lparr>kv := AList.update k e (kv r)\<rparr>) k' =
     (if k' = k then (if expired now e then None else Some e) else r_view now r k')"
  by (simp add: r_view_def map_of_update_other)

lemma r_view_delete_kv [simp]:
  "r_view now (r\<lparr>kv := AList.delete k (kv r)\<rparr>) k' = (if k' = k then None else r_view now r k')"
  by (simp add: r_view_def map_of_delete_other)

text \<open>A read of a live key changes nothing but the hit counter.\<close>

lemma lookup_read_hit:
  "r_view now r k = Some e \<Longrightarrow> lookup_read now k r = (Some e, r\<lparr>hits := Suc (hits r)\<rparr>)"
  by (auto simp: r_view_def lookup_read_def expire_if_needed_def split: option.splits if_splits)

text \<open>The definitions to unfold when a concrete state is evaluated.\<close>

lemmas redis_eval = r_get_def r_ttl_def ttl_reply_def r_setex_def r_del_def r_flushdb_def r_ping_def r_info_def
  lookup_read_def expire_if_needed_def expired_def redis_initial_def

end
