(* ===== verification/CacheService.thy ===== *)
theory CacheService
  imports Config Redis
begin

text \<open>
  \<open>app/services/cache_service.py\<close>: every function opens a client
  (\<open>get_client\<close>) and sends one command, so each is one Redis command here. The value
  under \<open>NOTES_CACHE_KEY\<close> is \<open>json.dumps(notes)\<close> and \<open>get_notes\<close> returns
  \<open>json.loads(raw)\<close>; the model stores the list itself, that is, it takes the JSON
  round trip of a list of rows to be the identity (the rows hold integers and strings only,
  \<open>created_at\<close> already rendered as text by the query).
\<close>

type_synonym 'v cache = "'v redis"

definition cache_ping :: "'v cache \<Rightarrow> error + bool" where
  "cache_ping r = r_ping r"

definition get_notes :: "timestamp \<Rightarrow> 'v cache \<Rightarrow> error + ('v option \<times> 'v cache)" where
  "get_notes now r = r_get now NOTES_CACHE_KEY r"

definition get_notes_ttl :: "timestamp \<Rightarrow> 'v cache \<Rightarrow> error + (int \<times> 'v cache)" where
  "get_notes_ttl now r = r_ttl now NOTES_CACHE_KEY r"

definition set_notes :: "timestamp \<Rightarrow> 'v \<Rightarrow> 'v cache \<Rightarrow> error + 'v cache" where
  "set_notes now ns r = r_setex now NOTES_CACHE_KEY CACHE_TTL ns r"

definition invalidate_notes :: "'v cache \<Rightarrow> error + 'v cache" where
  "invalidate_notes r = r_del NOTES_CACHE_KEY r"

definition flush_all :: "'v cache \<Rightarrow> error + 'v cache" where
  "flush_all r = r_flushdb r"

text \<open>\<open>get_stats\<close>: \<open>redis_hits\<close>, \<open>redis_misses\<close>, \<open>redis_keys\<close>.\<close>

definition get_stats :: "'v cache \<Rightarrow> error + (nat \<times> nat \<times> nat)" where
  "get_stats r = r_info r"

subsection \<open>The cache contract\<close>

text \<open>
  The contract of the cache for the notes key, as the design states it: a snapshot that is
  present or absent, with its expiry; \<open>get\<close> returns it, \<open>put\<close> overwrites it with expiry
  \<open>now + ttl\<close>, \<open>remaining_ttl\<close> reports it, \<open>invalidate\<close> and \<open>flush_all\<close> remove it,
  and it disappears by itself once its expiry has passed (\<open>snap_tick\<close>). \<open>cache_call\<close>
  sends the operation through the service functions above; \<open>cache_abs\<close> reads the snapshot
  off the server as a client sees it.
\<close>

type_synonym 'v snap = "'v rentry option"

datatype 'v cache_op = CGet | CPut 'v | CTtl | CInvalidate | CFlush | CPing

datatype 'v cache_reply = RGet "'v option" | RTtl int | RDone | RPong bool

fun cache_spec :: "timestamp \<Rightarrow> 'v cache_op \<Rightarrow> 'v snap \<Rightarrow> 'v cache_reply \<times> 'v snap" where
  "cache_spec now CGet s = (RGet (map_option fst s), s)"
| "cache_spec now (CPut v) s = (RDone, Some (v, Some (now + CACHE_TTL * 1000)))"
| "cache_spec now CTtl s = (RTtl (ttl_reply now s), s)"
| "cache_spec now CInvalidate s = (RDone, None)"
| "cache_spec now CFlush s = (RDone, None)"
| "cache_spec now CPing s = (RPong True, s)"

definition snap_tick :: "timestamp \<Rightarrow> 'v snap \<Rightarrow> 'v snap" where
  "snap_tick now s = (case s of Some e \<Rightarrow> if expired now e then None else Some e | None \<Rightarrow> None)"

definition cache_abs :: "timestamp \<Rightarrow> 'v cache \<Rightarrow> 'v snap" where
  "cache_abs now r = r_view now r NOTES_CACHE_KEY"

fun cache_call :: "timestamp \<Rightarrow> 'v cache_op \<Rightarrow> 'v cache \<Rightarrow> error + ('v cache_reply \<times> 'v cache)" where
  "cache_call now CGet r = map_sum id (\<lambda>(v, r'). (RGet v, r')) (get_notes now r)"
| "cache_call now (CPut v) r = map_sum id (\<lambda>r'. (RDone, r')) (set_notes now v r)"
| "cache_call now CTtl r = map_sum id (\<lambda>(t, r'). (RTtl t, r')) (get_notes_ttl now r)"
| "cache_call now CInvalidate r = map_sum id (\<lambda>r'. (RDone, r')) (invalidate_notes r)"
| "cache_call now CFlush r = map_sum id (\<lambda>r'. (RDone, r')) (flush_all r)"
| "cache_call now CPing r = map_sum id (\<lambda>b. (RPong b, r)) (cache_ping r)"

subsection \<open>Evaluation rules\<close>

text \<open>Each service call as the Redis command it sends, in terms of the client view.\<close>

lemma get_notes_eq [model_simps]:
  "get_notes now r = (if \<not> r_up r then Inl RedisConnectionError
     else Inr (map_option fst (r_view now r NOTES_CACHE_KEY), snd (lookup_read now NOTES_CACHE_KEY r)))"
  by (simp add: get_notes_def r_get_eq)

lemma get_notes_ttl_eq [model_simps]:
  "get_notes_ttl now r = (if \<not> r_up r then Inl RedisConnectionError
     else Inr (ttl_reply now (r_view now r NOTES_CACHE_KEY), snd (lookup_read now NOTES_CACHE_KEY r)))"
  by (simp add: get_notes_ttl_def r_ttl_eq)

lemma set_notes_eq [model_simps]:
  "set_notes now ns r = (if \<not> r_up r then Inl RedisConnectionError
     else Inr (r\<lparr>kv := AList.update NOTES_CACHE_KEY (ns, Some (now + CACHE_TTL * 1000)) (kv r)\<rparr>))"
  by (simp add: set_notes_def r_setex_def CACHE_TTL_def)

lemma invalidate_notes_eq [model_simps]:
  "invalidate_notes r = (if \<not> r_up r then Inl RedisConnectionError
     else Inr (r\<lparr>kv := AList.delete NOTES_CACHE_KEY (kv r)\<rparr>))"
  by (simp add: invalidate_notes_def r_del_def)

lemma flush_all_eq [model_simps]:
  "flush_all r = (if \<not> r_up r then Inl RedisConnectionError else Inr (r\<lparr>kv := []\<rparr>))"
  by (simp add: flush_all_def r_flushdb_def)

lemma expired_setex [simp]:
  "expired now (v, Some (now' + CACHE_TTL * 1000)) \<longleftrightarrow> now' + CACHE_TTL * 1000 < now"
  by (simp add: expired_def)

subsection \<open>Lemmas: the service against the contract\<close>

lemma r_view_flushed [simp]: "r_view now (r\<lparr>kv := []\<rparr>) k = None"
  by (simp add: r_view_def)

lemma cache_call_up:
  "r_up r \<Longrightarrow> \<exists>r'. cache_call now op r = Inr (fst (cache_spec now op (cache_abs now r)), r') \<and>
                   cache_abs now r' = snd (cache_spec now op (cache_abs now r)) \<and> r_up r'"
  by (cases op) (simp_all add: cache_abs_def get_notes_eq get_notes_ttl_eq set_notes_eq
      invalidate_notes_eq flush_all_eq cache_ping_def r_ping_def)

lemma cache_call_down:
  "\<not> r_up r \<Longrightarrow> cache_call now op r = Inl RedisConnectionError"
  by (cases op) (simp_all add: get_notes_eq get_notes_ttl_eq set_notes_eq
      invalidate_notes_eq flush_all_eq cache_ping_def r_ping_def)

lemma snap_tick_abs: "now \<le> now' \<Longrightarrow> cache_abs now' r = snap_tick now' (cache_abs now r)"
  by (auto simp: cache_abs_def snap_tick_def r_view_def expired_def split: option.splits)

subsection \<open>Refinement of the cache contract\<close>

text \<open>C6: The cache service implements the cache contract. While Redis is up, every
  operation answers what the contract answers on the snapshot the client sees, and leaves
  the snapshot the contract prescribes (lazy expiry and the hit and miss counters are not
  visible in it); while Redis is down every operation fails with a connection error; a
  later time only removes a snapshot whose expiry has passed, and the background expiry
  cycle leaves the snapshot as it is.\<close>

theorem cache_service_refines:
  assumes "r_up r" "redis_inv r" "now \<le> now'"
  shows "(\<exists>r'. cache_call now op r = Inr (fst (cache_spec now op (cache_abs now r)), r') \<and>
               cache_abs now r' = snd (cache_spec now op (cache_abs now r))) \<and>
         cache_call now op (r\<lparr>r_up := False\<rparr>) = Inl RedisConnectionError \<and>
         cache_abs now' r = snap_tick now' (cache_abs now r) \<and>
         cache_abs now (r_active_expire now r) = cache_abs now r"
  using cache_call_up [OF assms(1), of now op] cache_call_down [of "r\<lparr>r_up := False\<rparr>" now op]
    snap_tick_abs [OF assms(3), of r] r_view_active_expire [OF assms(2), of now]
  unfolding cache_abs_def by simp blast

theorem cache_service_refines_witness:
  "(\<exists>r'. cache_call 5 CGet (redis_initial\<lparr>kv := [(NOTES_CACHE_KEY, (''[]'', Some 9))]\<rparr>) =
          Inr (RGet (Some ''[]''), r')) \<and>
   cache_abs 10 (redis_initial\<lparr>kv := [(NOTES_CACHE_KEY, (''[]'', Some 9))]\<rparr>) = None"
proof -
  let ?r = "redis_initial\<lparr>kv := [(NOTES_CACHE_KEY, (''[]'', Some 9))]\<rparr>"
  have up: "r_up ?r" and inv: "redis_inv ?r" by (simp_all add: redis_initial_def redis_inv_def)
  have a: "cache_abs 5 ?r = Some (''[]'', Some 9)"
    by (simp add: cache_abs_def r_view_def expired_def)
  from cache_service_refines [OF up inv, of 5 10 CGet] a show ?thesis
    by (simp add: snap_tick_def expired_def) blast
qed

end
