(* ===== verification/World.thy ===== *)
theory World
  imports Store CacheService
begin

text \<open>
  The state the Flask handlers act on: the clock, the PostgreSQL server and the Redis
  server, whose cached value is a list of rows. A handler returns its HTTP response, or
  the exception that escaped it (Flask answers 500), together with the state after it:
  an exception raised half-way keeps the effects of the steps before it.
\<close>

record world =
  clock :: timestamp
  pg :: pg_db
  rds :: "note_row list cache"

datatype source = FromCache | FromDatabase

text \<open>The JSON bodies the handlers build with \<open>jsonify\<close>.\<close>

datatype body =
    NotesBody "note_row list" source int         \<comment> \<open>\<open>{notes, source, cache_ttl}\<close>\<close>
  | NoteBody nat string string timestamp          \<comment> \<open>\<open>{id, content, author, created_at}\<close>\<close>
  | ErrorBody string                              \<comment> \<open>\<open>{error}\<close>\<close>
  | DeletedBody nat                               \<comment> \<open>\<open>{deleted}\<close>\<close>
  | HealthBody bool bool "error option" "error option" \<comment> \<open>\<open>{postgres, redis, *_error}\<close>\<close>
  | StatsBody nat nat nat nat                     \<comment> \<open>\<open>{postgres_notes, redis_hits, redis_misses, redis_keys}\<close>\<close>
  | MessageBody string                            \<comment> \<open>\<open>{message}\<close>\<close>
  | BadRequestBody                                \<comment> \<open>Flask's 400 page for a body that is not JSON\<close>

type_synonym response = "nat \<times> body"

type_synonym outcome = "(error + response) \<times> world"

definition world_initial :: world where
  "world_initial = \<lparr>clock = 0, pg = pg_initial, rds = redis_initial\<rparr>"

text \<open>The cache entry of the notes key as a client sees it now.\<close>

abbreviation notes_entry :: "world \<Rightarrow> note_row list rentry option" where
  "notes_entry w \<equiv> r_view (clock w) (rds w) NOTES_CACHE_KEY"

text \<open>
  Cache coherence: a live notes entry is exactly the current listing of the table and
  expires within \<open>CACHE_TTL\<close> seconds of now. Stated on the clock, the listing and the
  entry alone, so that a change to any other part of the state leaves it alone.
\<close>

definition entry_fresh :: "timestamp \<Rightarrow> note_row list \<Rightarrow> note_row list rentry option \<Rightarrow> bool" where
  "entry_fresh now cur e =
     (case e of
        None \<Rightarrow> True
      | Some (ns, None) \<Rightarrow> False
      | Some (ns, Some t) \<Rightarrow> ns = cur \<and> t \<le> now + CACHE_TTL * 1000)"

definition cache_fresh :: "world \<Rightarrow> bool" where
  "cache_fresh w \<longleftrightarrow> entry_fresh (clock w) (newest_first (rows (pg w))) (notes_entry w)"

text \<open>A weaker fact that also survives a Redis outage: the entry expires in time.\<close>

definition entry_bounded :: "timestamp \<Rightarrow> note_row list rentry option \<Rightarrow> bool" where
  "entry_bounded now e =
     (case e of
        None \<Rightarrow> True
      | Some (ns, None) \<Rightarrow> False
      | Some (ns, Some t) \<Rightarrow> t \<le> now + CACHE_TTL * 1000)"

definition cache_bounded :: "world \<Rightarrow> bool" where
  "cache_bounded w \<longleftrightarrow> entry_bounded (clock w) (notes_entry w)"

definition world_inv :: "world \<Rightarrow> bool" where
  "world_inv w \<longleftrightarrow> store_inv (clock w) (pg w) \<and> redis_inv (rds w) \<and> cache_bounded w"

lemma entry_fresh_simps [simp]:
  "entry_fresh now cur None"
  "entry_fresh now cur (Some (ns, Some t)) \<longleftrightarrow> ns = cur \<and> t \<le> now + CACHE_TTL * 1000"
  "\<not> entry_fresh now cur (Some (ns, None))"
  by (simp_all add: entry_fresh_def)

lemma entry_bounded_simps [simp]:
  "entry_bounded now None"
  "entry_bounded now (Some (ns, Some t)) \<longleftrightarrow> t \<le> now + CACHE_TTL * 1000"
  "\<not> entry_bounded now (Some (ns, None))"
  by (simp_all add: entry_bounded_def)

lemma entry_fresh_bounded: "entry_fresh now cur e \<Longrightarrow> entry_bounded now e"
  by (auto simp: entry_fresh_def entry_bounded_def split: option.splits)

text \<open>What \<open>TTL\<close> reports for an entry that expires in time.\<close>

lemma ttl_reply_view_bounded:
  assumes "entry_bounded now (r_view now r k)"
  shows "ttl_reply now (r_view now r k) = -2 \<or>
         (0 \<le> ttl_reply now (r_view now r k) \<and> ttl_reply now (r_view now r k) \<le> int CACHE_TTL)"
proof (cases "r_view now r k")
  case None
  then show ?thesis by (simp add: ttl_reply_def)
next
  case (Some p)
  obtain v e where p: "p = (v, e)" by (cases p)
  with Some assms obtain x where x: "e = Some x" "x \<le> now + CACHE_TTL * 1000"
    by (cases e) auto
  have "now \<le> x" using Some p x(1) by (auto dest: r_view_live)
  with x(2) have "(x - now + 500) div 1000 \<le> (CACHE_TTL * 1000 + 500) div 1000"
    by (intro div_le_mono) linarith
  also have "\<dots> = CACHE_TTL" by (simp add: CACHE_TTL_def)
  finally show ?thesis using Some p x(1) by (simp add: ttl_reply_def)
qed

end
