(* ===== verification/Notes.thy ===== *)
theory Notes
  imports World
begin

text \<open>
  \<open>app/routes/notes.py\<close>: the cache-aside read and the two writes that invalidate.
  Each handler is the straight-line code of the route, one \<open>case\<close> per call that can
  raise, in the order the code makes the calls.
\<close>

subsection \<open>GET /notes\<close>

definition list_notes :: "world \<Rightarrow> outcome" where
  "list_notes w =
     (case get_notes (clock w) (rds w) of
        Inl e \<Rightarrow> (Inl e, w)
      | Inr (Some ns, r1) \<Rightarrow>
          (case get_notes_ttl (clock w) r1 of
             Inl e \<Rightarrow> (Inl e, w\<lparr>rds := r1\<rparr>)
           | Inr (t, r2) \<Rightarrow> (Inr (200, NotesBody ns FromCache t), w\<lparr>rds := r2\<rparr>))
      | Inr (None, r1) \<Rightarrow>
          (case get_all_notes (pg w) of
             Inl e \<Rightarrow> (Inl e, w\<lparr>rds := r1\<rparr>)
           | Inr ns \<Rightarrow>
               (case set_notes (clock w) ns r1 of
                  Inl e \<Rightarrow> (Inl e, w\<lparr>rds := r1\<rparr>)
                | Inr r2 \<Rightarrow> (Inr (200, NotesBody ns FromDatabase (int CACHE_TTL)), w\<lparr>rds := r2\<rparr>))))"

subsection \<open>POST /notes\<close>

text \<open>
  The two assignments before the check, in order:
  \<open>content = (data.get("content") or "").strip()\<close> and
  \<open>author = (data.get("author") or "Anonymous").strip() or "Anonymous"\<close>.
\<close>

definition parse_note_request :: "json \<Rightarrow> error + (string \<times> string)" where
  "parse_note_request data =
     (case py_dict_get data ''content'' of
        Inl e \<Rightarrow> Inl e
      | Inr cv \<Rightarrow>
          (case py_or_strip cv '''' of
             Inl e \<Rightarrow> Inl e
           | Inr c \<Rightarrow>
               (case py_dict_get data ''author'' of
                  Inl e \<Rightarrow> Inl e
                | Inr av \<Rightarrow>
                    (case py_or_strip av ''Anonymous'' of
                       Inl e \<Rightarrow> Inl e
                     | Inr a \<Rightarrow> Inr (c, if a = [] then ''Anonymous'' else a)))))"

text \<open>The request body as \<open>get_json(force=True)\<close> decodes it; \<open>None\<close> if it is not JSON.\<close>

definition create_note :: "json option \<Rightarrow> world \<Rightarrow> outcome" where
  "create_note req w =
     (case req of
        None \<Rightarrow> (Inr (400, BadRequestBody), w)
      | Some data \<Rightarrow>
          (case parse_note_request data of
             Inl e \<Rightarrow> (Inl e, w)
           | Inr (c, a) \<Rightarrow>
               if c = [] then (Inr (400, ErrorBody ''content is required''), w)
               else
                 (case insert_note (clock w) c a (pg w) of
                    Inl e \<Rightarrow> (Inl e, w)
                  | Inr ((i, t), db') \<Rightarrow>
                      (case invalidate_notes (rds w) of
                         Inl e \<Rightarrow> (Inl e, w\<lparr>pg := db'\<rparr>)
                       | Inr r' \<Rightarrow> (Inr (201, NoteBody i c a t), w\<lparr>pg := db', rds := r'\<rparr>)))))"

subsection \<open>DELETE /notes/<int:note_id>\<close>

text \<open>Flask's \<open>int\<close> converter accepts digits only, so the id is a natural number.\<close>

definition delete_note :: "nat \<Rightarrow> world \<Rightarrow> outcome" where
  "delete_note i w =
     (case db_delete_note i (pg w) of
        Inl e \<Rightarrow> (Inl e, w)
      | Inr (False, db') \<Rightarrow> (Inr (404, ErrorBody ''Note not found''), w\<lparr>pg := db'\<rparr>)
      | Inr (True, db') \<Rightarrow>
          (case invalidate_notes (rds w) of
             Inl e \<Rightarrow> (Inl e, w\<lparr>pg := db'\<rparr>)
           | Inr r' \<Rightarrow> (Inr (200, DeletedBody i), w\<lparr>pg := db', rds := r'\<rparr>)))"

subsection \<open>Lemmas: request parsing and the branches of the handlers\<close>

lemmas notes_eval = list_notes_def create_note_def delete_note_def parse_note_request_def
  py_strip_def is_py_space_def world_initial_def get_notes_def get_notes_ttl_def set_notes_def
  invalidate_notes_def flush_all_def cache_ping_def get_stats_def CACHE_TTL_def NOTES_CACHE_KEY_def


lemma py_or_strip_Inr: "py_or_strip v d = Inr s \<Longrightarrow> \<exists>x. s = py_strip x"
  by (auto simp: py_or_strip_def split: if_splits json.splits)

lemma parse_note_request_Inr:
  assumes "parse_note_request data = Inr (c, a)"
  shows "py_strip c = c \<and> a \<noteq> [] \<and> \<not> is_py_space (last a)"
proof -
  obtain cv av c0 a0 where
    c: "py_or_strip cv '''' = Inr c0" "c = c0" and
    a: "py_or_strip av ''Anonymous'' = Inr a0" "a = (if a0 = [] then ''Anonymous'' else a0)"
    using assms by (auto simp: parse_note_request_def split: sum.splits)
  from c obtain x where "c = py_strip x" by (auto dest: py_or_strip_Inr)
  then have "py_strip c = c" by simp
  moreover from a obtain y where "a0 = py_strip y" by (auto dest: py_or_strip_Inr)
  then have "a0 \<noteq> [] \<Longrightarrow> \<not> is_py_space (last a0)" by (simp add: py_strip_last)
  moreover have "\<not> is_py_space (last ''Anonymous'')" by (simp add: is_py_space_def)
  ultimately show ?thesis using a(2) by auto
qed

lemma parse_note_request_author_coerce:
  assumes "parse_note_request data = Inr (c, a)" "varchar_coerce AUTHOR_MAXLEN a = Inr a'"
  shows "a' = a"
proof (cases "length a \<le> AUTHOR_MAXLEN")
  case True
  with assms(2) show ?thesis by simp
next
  case False
  from parse_note_request_Inr [OF assms(1)] have "last a \<noteq> CHR '' ''" by auto
  with False have "varchar_coerce AUTHOR_MAXLEN a = Inl PgStringTooLong"
    by (simp add: varchar_coerce_long)
  with assms(2) show ?thesis by simp
qed

lemma parse_note_request_obj:
  "parse_note_request (JObj kvs) =
     (case py_or_strip (case map_of (rev kvs) ''content'' of None \<Rightarrow> JNull | Some v \<Rightarrow> v) '''' of
        Inl e \<Rightarrow> Inl e
      | Inr c \<Rightarrow> (case py_or_strip (case map_of (rev kvs) ''author'' of None \<Rightarrow> JNull | Some v \<Rightarrow> v) ''Anonymous'' of
           Inl e \<Rightarrow> Inl e
         | Inr a \<Rightarrow> Inr (c, if a = [] then ''Anonymous'' else a)))"
  by (simp add: parse_note_request_def cong: sum.case_cong)

lemma create_note_201E:
  assumes "create_note req w = (Inr (201, NoteBody i c a t), w1)"
  obtains data where "req = Some data" "parse_note_request data = Inr (c, a)" "c \<noteq> []"
    "insert_note (clock w) c a (pg w) = Inr ((i, t), pg w1)"
    "invalidate_notes (rds w) = Inr (rds w1)" "w1 = w\<lparr>pg := pg w1, rds := rds w1\<rparr>"
  using assms
  by (auto simp: create_note_def split: option.splits sum.splits prod.splits if_splits)

text \<open>What a successful insert stores, given that the author came from the request parser.\<close>

lemma create_note_201_row:
  assumes "create_note req w = (Inr (201, NoteBody i c a t), w1)"
  shows "rows (pg w1) = rows (pg w) @ [\<lparr>note_id = i, content = c, author = a, created_at = t\<rparr>] \<and>
         i = next_id (pg w) \<and> t = clock w \<and> pg_up (pg w1) \<and> table_exists (pg w1) \<and>
         r_up (rds w1) \<and> rds w1 = (rds w)\<lparr>kv := AList.delete NOTES_CACHE_KEY (kv (rds w))\<rparr>"
proof -
  obtain data where p: "parse_note_request data = Inr (c, a)"
    and ins: "insert_note (clock w) c a (pg w) = Inr ((i, t), pg w1)"
    and inv: "invalidate_notes (rds w) = Inr (rds w1)"
    by (rule create_note_201E [OF assms])
  obtain a' where a': "varchar_coerce AUTHOR_MAXLEN a = Inr a'" and
    db1: "pg w1 = (pg w)\<lparr>rows := rows (pg w) @ [\<lparr>note_id = i, content = c, author = a', created_at = t\<rparr>],
                 next_id := Suc (next_id (pg w))\<rparr>" and "pg_up (pg w)" "table_exists (pg w)"
    "i = next_id (pg w)" "t = clock w"
    using ins by (auto simp: insert_note_Inr)
  moreover have "a' = a" using p a' by (rule parse_note_request_author_coerce)
  moreover from inv have "r_up (rds w)"
    and "rds w1 = (rds w)\<lparr>kv := AList.delete NOTES_CACHE_KEY (kv (rds w))\<rparr>"
    by (auto simp: invalidate_notes_eq split: if_splits)
  ultimately show ?thesis by simp
qed

lemma list_notes_down:
  "\<not> r_up (rds w) \<Longrightarrow> list_notes w = (Inl RedisConnectionError, w)"
  by (simp add: list_notes_def get_notes_eq)

lemma list_notes_hit:
  assumes "r_up (rds w)" "notes_entry w = Some (ns, e)"
  shows "list_notes w = (Inr (200, NotesBody ns FromCache (ttl_reply (clock w) (Some (ns, e)))),
     w\<lparr>rds := snd (lookup_read (clock w) NOTES_CACHE_KEY (snd (lookup_read (clock w) NOTES_CACHE_KEY (rds w))))\<rparr>)"
  using assms by (simp add: list_notes_def get_notes_eq get_notes_ttl_eq)

lemma list_notes_miss:
  assumes "r_up (rds w)" "notes_entry w = None" "pg_up (pg w)" "table_exists (pg w)"
  shows "list_notes w = (Inr (200, NotesBody (newest_first (rows (pg w))) FromDatabase (int CACHE_TTL)),
     w\<lparr>rds := (snd (lookup_read (clock w) NOTES_CACHE_KEY (rds w)))\<lparr>kv := AList.update NOTES_CACHE_KEY
        (newest_first (rows (pg w)), Some (clock w + CACHE_TTL * 1000))
        (kv (snd (lookup_read (clock w) NOTES_CACHE_KEY (rds w))))\<rparr>\<rparr>)"
  using assms by (simp add: list_notes_def get_notes_eq set_notes_eq get_all_notes_def)

lemma py_or_strip_blank:
  "\<not> py_truthy v \<or> (\<exists>s. v = JStr s \<and> (\<forall>ch\<in>set s. is_py_space ch)) \<Longrightarrow> py_or_strip v d = Inr (py_strip d) \<or> py_or_strip v d = Inr []"
  by (auto simp: py_or_strip_def py_strip_all_space)

lemma py_or_strip_str_or_falsy:
  "\<not> py_truthy v \<or> (\<exists>s. v = JStr s) \<Longrightarrow> \<exists>x. py_or_strip v d = Inr x"
  by (auto simp: py_or_strip_def)

lemma list_ex_store_map: "list_ex (\<lambda>r. note_id r = i) (rows db) \<longleftrightarrow> i \<in> dom (store_map db)"
  by (auto simp: dom_store_map list_ex_iff)


lemma notes_entry_expired:
  assumes "cache_bounded w" "clock w + CACHE_TTL * 1000 < now"
  shows "r_view now (rds w) NOTES_CACHE_KEY = None"
proof (rule ccontr)
  assume "r_view now (rds w) NOTES_CACHE_KEY \<noteq> None"
  then obtain ns e where late: "r_view now (rds w) NOTES_CACHE_KEY = Some (ns, e)" by auto
  have "clock w \<le> now" using assms(2) by simp
  with late have early: "notes_entry w = Some (ns, e)" by (rule r_view_later)
  obtain x where x: "e = Some x" "x \<le> clock w + CACHE_TTL * 1000"
    using assms(1) early by (cases e) (auto simp: cache_bounded_def entry_bounded_def)
  from late have "now \<le> x" unfolding x(1) by (rule r_view_live)
  with x(2) assms(2) show False by simp
qed

subsection \<open>Properties of the notes routes\<close>

text \<open>C2: Cache-aside freshness. After \<open>POST /notes\<close> answers 201, a \<open>GET /notes\<close> at any later time is served from the database and its list contains the created note with the id, content, author and timestamp the POST returned.\<close>

theorem create_then_list:
  assumes "create_note req w = (Inr (201, NoteBody i c a t), w1)"
  shows "\<exists>ns w2. list_notes (w1\<lparr>clock := clock w1 + d\<rparr>) = (Inr (200, NotesBody ns FromDatabase (int CACHE_TTL)), w2)
           \<and> \<lparr>note_id = i, content = c, author = a, created_at = t\<rparr> \<in> set ns"
proof -
  let ?w = "w1\<lparr>clock := clock w1 + d\<rparr>"
  have r: "rows (pg w1) = rows (pg w) @ [\<lparr>note_id = i, content = c, author = a, created_at = t\<rparr>]"
    and up: "pg_up (pg w1)" "table_exists (pg w1)" "r_up (rds w1)"
    and rw1: "rds w1 = (rds w)\<lparr>kv := AList.delete NOTES_CACHE_KEY (kv (rds w))\<rparr>"
    using create_note_201_row [OF assms] by blast+
  have "notes_entry ?w = None" using rw1 by simp
  with up have "list_notes ?w = (Inr (200, NotesBody (newest_first (rows (pg w1))) FromDatabase (int CACHE_TTL)),
     snd (list_notes ?w))"
    by (simp add: list_notes_miss)
  with r show ?thesis by auto
qed

theorem create_then_list_witness:
  "create_note (Some (JObj [(''content'', JStr ''hi'')])) (world_initial\<lparr>pg := pg_initial\<lparr>table_exists := True\<rparr>\<rparr>) =
     (Inr (201, NoteBody 1 ''hi'' ''Anonymous'' 0),
      \<lparr>clock = 0, pg = \<lparr>pg_up = True, table_exists = True,
         rows = [\<lparr>note_id = 1, content = ''hi'', author = ''Anonymous'', created_at = 0\<rparr>], next_id = 2\<rparr>,
       rds = redis_initial\<rparr>) \<and>
   (\<exists>ns w2. list_notes \<lparr>clock = 5, pg = \<lparr>pg_up = True, table_exists = True,
         rows = [\<lparr>note_id = 1, content = ''hi'', author = ''Anonymous'', created_at = 0\<rparr>], next_id = 2\<rparr>,
       rds = redis_initial\<rparr> = (Inr (200, NotesBody ns FromDatabase (int CACHE_TTL)), w2)
     \<and> \<lparr>note_id = 1, content = ''hi'', author = ''Anonymous'', created_at = 0\<rparr> \<in> set ns)"
proof -
  have h: "create_note (Some (JObj [(''content'', JStr ''hi'')])) (world_initial\<lparr>pg := pg_initial\<lparr>table_exists := True\<rparr>\<rparr>) =
     (Inr (201, NoteBody 1 ''hi'' ''Anonymous'' 0),
      \<lparr>clock = 0, pg = \<lparr>pg_up = True, table_exists = True,
         rows = [\<lparr>note_id = 1, content = ''hi'', author = ''Anonymous'', created_at = 0\<rparr>], next_id = 2\<rparr>,
       rds = redis_initial\<rparr>)"
    by (simp add: notes_eval store_eval redis_eval)
  show ?thesis using h create_then_list [OF h, of 5] by simp
qed

text \<open>C11: TTL bound on a hit. Whenever the notes entry expires within \<open>CACHE_TTL\<close> seconds, a \<open>GET /notes\<close> served from the cache reports a \<open>cache_ttl\<close> between 0 and \<open>CACHE_TTL\<close>.\<close>

theorem list_notes_cache_ttl_bounds:
  assumes "cache_bounded w" "list_notes w = (Inr (200, NotesBody ns FromCache t), w')"
  shows "0 \<le> t \<and> t \<le> int CACHE_TTL"
proof -
  have up: "r_up (rds w)"
    using assms(2) list_notes_down by (cases "r_up (rds w)") auto
  obtain ns' e where e: "notes_entry w = Some (ns', e)"
  proof (cases "notes_entry w")
    case None
    with up assms(2) show ?thesis
      by (auto simp: list_notes_def get_notes_eq split: sum.splits)
  next
    case (Some p)
    then show ?thesis using that by (cases p) auto
  qed
  obtain x where x: "e = Some x" "x \<le> clock w + CACHE_TTL * 1000"
    using assms(1) e by (auto simp: cache_bounded_def entry_bounded_def split: option.splits)
  have "clock w \<le> x" using e x(1) by (auto dest: r_view_live)
  with x(2) have "(x - clock w + 500) div 1000 \<le> (CACHE_TTL * 1000 + 500) div 1000"
    by (intro div_le_mono) linarith
  also have "\<dots> = CACHE_TTL" by (simp add: CACHE_TTL_def)
  finally have "(x - clock w + 500) div 1000 \<le> CACHE_TTL" .
  moreover have "t = ttl_reply (clock w) (Some (ns', e))"
    using assms(2) list_notes_hit [OF up e] by auto
  ultimately show ?thesis using x(1) by (simp add: ttl_reply_def)
qed

theorem list_notes_cache_ttl_bounds_witness:
  "cache_bounded \<lparr>clock = 1000, pg = pg_initial, rds = redis_initial\<lparr>kv := [(NOTES_CACHE_KEY, ([], Some 15000))]\<rparr>\<rparr> \<and>
   fst (list_notes \<lparr>clock = 1000, pg = pg_initial, rds = redis_initial\<lparr>kv := [(NOTES_CACHE_KEY, ([], Some 15000))]\<rparr>\<rparr>)
     = Inr (200, NotesBody [] FromCache 14) \<and>
   0 \<le> (14::int) \<and> (14::int) \<le> int CACHE_TTL"
proof -
  let ?w = "\<lparr>clock = 1000, pg = pg_initial, rds = redis_initial\<lparr>kv := [(NOTES_CACHE_KEY, ([], Some 15000))]\<rparr>\<rparr>"
  have b: "cache_bounded ?w" by (simp add: cache_bounded_def entry_bounded_def r_view_def notes_eval redis_eval)
  have l: "list_notes ?w = (Inr (200, NotesBody [] FromCache 14), snd (list_notes ?w))"
    by (simp add: notes_eval redis_eval)
  have f: "fst (list_notes ?w) = Inr (200, NotesBody [] FromCache 14)" using l by (metis fst_conv)
  from list_notes_cache_ttl_bounds [OF b l] have "0 \<le> (14::int) \<and> (14::int) \<le> int CACHE_TTL" .
  with b f show ?thesis by blast
qed

text \<open>C14: A live cache hit reports \<open>cache_ttl = 0\<close> in the last half second of the
  entry's life. Redis rounds the remaining milliseconds to seconds, so a hit served while
  less than 500 ms remain reports 0, not a positive value; it reports 0 in no other case.\<close>

theorem list_notes_cache_hit_ttl_zero:
  assumes "r_up (rds w)" "notes_entry w = Some (ns, Some t)"
  shows "fst (list_notes w) = Inr (200, NotesBody ns FromCache 0) \<longleftrightarrow> t < clock w + 500"
proof -
  have le: "clock w \<le> t" using assms(2) by (rule r_view_live)
  have "fst (list_notes w) = Inr (200, NotesBody ns FromCache (int ((t - clock w + 500) div 1000)))"
    using list_notes_hit [OF assms] by (simp add: ttl_reply_def)
  moreover have "(t - clock w + 500) div 1000 = 0 \<longleftrightarrow> t < clock w + 500" using le by auto
  ultimately show ?thesis by simp
qed

theorem list_notes_cache_hit_ttl_zero_witness:
  "fst (list_notes \<lparr>clock = 14600, pg = pg_initial, rds = redis_initial\<lparr>kv := [(NOTES_CACHE_KEY, ([], Some 15000))]\<rparr>\<rparr>)
     = Inr (200, NotesBody [] FromCache 0)"
proof -
  let ?w = "\<lparr>clock = 14600, pg = pg_initial, rds = redis_initial\<lparr>kv := [(NOTES_CACHE_KEY, ([], Some 15000))]\<rparr>\<rparr>"
  have up: "r_up (rds ?w)" by (simp add: redis_initial_def)
  have e: "notes_entry ?w = Some ([], Some 15000)" by (simp add: r_view_def expired_def redis_initial_def)
  from list_notes_cache_hit_ttl_zero [OF up e] show ?thesis by simp
qed

text \<open>C20: Validation. A POST whose content is missing, falsy or only whitespace (and whose author is a string or falsy) is answered 400 \<open>content is required\<close>, and neither the store nor the cache is touched.\<close>

theorem create_note_rejects_blank:
  assumes "case map_of (rev kvs) ''content'' of None \<Rightarrow> True
             | Some v \<Rightarrow> \<not> py_truthy v \<or> (\<exists>s. v = JStr s \<and> (\<forall>ch\<in>set s. is_py_space ch))"
    and "case map_of (rev kvs) ''author'' of None \<Rightarrow> True | Some v \<Rightarrow> \<not> py_truthy v \<or> (\<exists>s. v = JStr s)"
  shows "create_note (Some (JObj kvs)) w = (Inr (400, ErrorBody ''content is required''), w)"
proof -
  let ?cv = "case map_of (rev kvs) ''content'' of None \<Rightarrow> JNull | Some v \<Rightarrow> v"
  let ?av = "case map_of (rev kvs) ''author'' of None \<Rightarrow> JNull | Some v \<Rightarrow> v"
  have "\<not> py_truthy ?cv \<or> (\<exists>s. ?cv = JStr s \<and> (\<forall>ch\<in>set s. is_py_space ch))"
    using assms(1) by (auto split: option.splits)
  then have c: "py_or_strip ?cv '''' = Inr []"
    using py_or_strip_blank [of ?cv "''''"] by auto
  have "\<not> py_truthy ?av \<or> (\<exists>s. ?av = JStr s)"
    using assms(2) by (auto split: option.splits)
  then obtain a where a: "py_or_strip ?av ''Anonymous'' = Inr a"
    using py_or_strip_str_or_falsy by blast
  have "parse_note_request (JObj kvs) = Inr ([], if a = [] then ''Anonymous'' else a)"
    by (simp add: parse_note_request_obj c a)
  then show ?thesis by (simp add: create_note_def)
qed

theorem create_note_rejects_blank_witness:
  "(case map_of (rev [(''content'', JStr ''  ''), (''author'', JStr ''bob'')]) ''content'' of None \<Rightarrow> True
     | Some v \<Rightarrow> \<not> py_truthy v \<or> (\<exists>s. v = JStr s \<and> (\<forall>ch\<in>set s. is_py_space ch))) \<and>
   (case map_of (rev [(''content'', JStr ''  ''), (''author'', JStr ''bob'')]) ''author'' of None \<Rightarrow> True
     | Some v \<Rightarrow> \<not> py_truthy v \<or> (\<exists>s. v = JStr s)) \<and>
   create_note (Some (JObj [(''content'', JStr ''  ''), (''author'', JStr ''bob'')])) world_initial
     = (Inr (400, ErrorBody ''content is required''), world_initial)"
proof -
  have h1: "case map_of (rev [(''content'', JStr ''  ''), (''author'', JStr ''bob'')]) ''content'' of None \<Rightarrow> True
     | Some v \<Rightarrow> \<not> py_truthy v \<or> (\<exists>s. v = JStr s \<and> (\<forall>ch\<in>set s. is_py_space ch))"
    by simp
  have h2: "case map_of (rev [(''content'', JStr ''  ''), (''author'', JStr ''bob'')]) ''author'' of None \<Rightarrow> True
     | Some v \<Rightarrow> \<not> py_truthy v \<or> (\<exists>s. v = JStr s)"
    by simp
  show ?thesis using h1 h2 create_note_rejects_blank [OF h1 h2, of world_initial] by blast
qed

text \<open>Author default. When the author is missing, falsy or only whitespace, a successful POST returns author \<open>Anonymous\<close> and the row it appends to the table has author \<open>Anonymous\<close>.\<close>

theorem create_note_default_author:
  assumes "create_note (Some (JObj kvs)) w = (Inr (201, NoteBody i c a t), w1)"
    and "case map_of (rev kvs) ''author'' of None \<Rightarrow> True
           | Some v \<Rightarrow> \<not> py_truthy v \<or> (\<exists>s. v = JStr s \<and> (\<forall>ch\<in>set s. is_py_space ch))"
  shows "a = ''Anonymous'' \<and>
         last (rows (pg w1)) = \<lparr>note_id = i, content = c, author = ''Anonymous'', created_at = t\<rparr>"
proof -
  let ?av = "case map_of (rev kvs) ''author'' of None \<Rightarrow> JNull | Some v \<Rightarrow> v"
  obtain data where d: "Some (JObj kvs) = Some data" and p: "parse_note_request data = Inr (c, a)"
    by (rule create_note_201E [OF assms(1)])
  have "\<not> py_truthy ?av \<or> (\<exists>s. ?av = JStr s \<and> (\<forall>ch\<in>set s. is_py_space ch))"
    using assms(2) by (auto split: option.splits)
  then have "py_or_strip ?av ''Anonymous'' = Inr ''Anonymous'' \<or> py_or_strip ?av ''Anonymous'' = Inr []"
    using py_or_strip_blank [of ?av "''Anonymous''"] by (simp add: py_strip_def is_py_space_def)
  then have "a = ''Anonymous''"
    using p d by (auto simp: parse_note_request_obj split: sum.splits)
  moreover have "last (rows (pg w1)) = \<lparr>note_id = i, content = c, author = a, created_at = t\<rparr>"
    using create_note_201_row [OF assms(1)] by simp
  ultimately show ?thesis by simp
qed

theorem create_note_default_author_witness:
  "create_note (Some (JObj [(''content'', JStr ''hi''), (''author'', JStr '' '')])) (world_initial\<lparr>pg := pg_initial\<lparr>table_exists := True\<rparr>\<rparr>) =
     (Inr (201, NoteBody 1 ''hi'' ''Anonymous'' 0),
      \<lparr>clock = 0, pg = \<lparr>pg_up = True, table_exists = True,
         rows = [\<lparr>note_id = 1, content = ''hi'', author = ''Anonymous'', created_at = 0\<rparr>], next_id = 2\<rparr>,
       rds = redis_initial\<rparr>) \<and>
   (case map_of (rev [(''content'', JStr ''hi''), (''author'', JStr '' '')]) ''author'' of None \<Rightarrow> True
           | Some v \<Rightarrow> \<not> py_truthy v \<or> (\<exists>s. v = JStr s \<and> (\<forall>ch\<in>set s. is_py_space ch))) \<and>
   ''Anonymous'' = ''Anonymous'' \<and>
   last [\<lparr>note_id = 1, content = ''hi'', author = ''Anonymous'', created_at = (0::nat)\<rparr>] =
     \<lparr>note_id = 1, content = ''hi'', author = ''Anonymous'', created_at = 0\<rparr>"
proof -
  have h: "create_note (Some (JObj [(''content'', JStr ''hi''), (''author'', JStr '' '')])) (world_initial\<lparr>pg := pg_initial\<lparr>table_exists := True\<rparr>\<rparr>) =
     (Inr (201, NoteBody 1 ''hi'' ''Anonymous'' 0),
      \<lparr>clock = 0, pg = \<lparr>pg_up = True, table_exists = True,
         rows = [\<lparr>note_id = 1, content = ''hi'', author = ''Anonymous'', created_at = 0\<rparr>], next_id = 2\<rparr>,
       rds = redis_initial\<rparr>)"
    by (simp add: notes_eval store_eval redis_eval)
  have a: "case map_of (rev [(''content'', JStr ''hi''), (''author'', JStr '' '')]) ''author'' of None \<Rightarrow> True
           | Some v \<Rightarrow> \<not> py_truthy v \<or> (\<exists>s. v = JStr s \<and> (\<forall>ch\<in>set s. is_py_space ch))"
    by simp
  show ?thesis using h a create_note_default_author [OF h a] by simp
qed

text \<open>C21: Delete of a missing id. When the store is reachable and has no row with the id, \<open>DELETE\<close> answers 404 \<open>Note not found\<close> and changes nothing, whether Redis is reachable or not.\<close>

theorem delete_note_not_found:
  assumes "i \<notin> dom (store_map (pg w))" "pg_up (pg w)" "table_exists (pg w)"
  shows "delete_note i w = (Inr (404, ErrorBody ''Note not found''), w)"
proof -
  have "\<forall>r\<in>set (rows (pg w)). note_id r \<noteq> i"
    using assms(1) by (auto simp: dom_store_map)
  then have "filter (\<lambda>r. note_id r \<noteq> i) (rows (pg w)) = rows (pg w)" by simp
  moreover have "\<not> list_ex (\<lambda>r. note_id r = i) (rows (pg w))"
    using assms(1) by (simp add: list_ex_store_map)
  ultimately show ?thesis using assms(2,3) by (simp add: delete_note_def db_delete_note_def)
qed

theorem delete_note_not_found_witness:
  "(7::nat) \<notin> dom (store_map pg_initial) \<and> pg_up (pg_initial\<lparr>table_exists := True\<rparr>) \<and>
   table_exists (pg_initial\<lparr>table_exists := True\<rparr>) \<and>
   delete_note 7 (world_initial\<lparr>pg := pg_initial\<lparr>table_exists := True\<rparr>, rds := (rds world_initial)\<lparr>r_up := False\<rparr>\<rparr>) =
     (Inr (404, ErrorBody ''Note not found''),
      world_initial\<lparr>pg := pg_initial\<lparr>table_exists := True\<rparr>, rds := (rds world_initial)\<lparr>r_up := False\<rparr>\<rparr>)"
proof -
  let ?w = "world_initial\<lparr>pg := pg_initial\<lparr>table_exists := True\<rparr>, rds := (rds world_initial)\<lparr>r_up := False\<rparr>\<rparr>"
  have h: "(7::nat) \<notin> dom (store_map (pg ?w))" "pg_up (pg ?w)" "table_exists (pg ?w)"
    by (simp_all add: store_map_def pg_initial_def)
  from delete_note_not_found [OF h] h show ?thesis by (simp add: store_map_def pg_initial_def)
qed

text \<open>Delete of an existing id. With both servers reachable, \<open>DELETE\<close> answers 200, removes the row (the id map of the table loses exactly that id) and leaves no notes entry in the cache.\<close>

theorem delete_note_found:
  assumes "i \<in> dom (store_map (pg w))" "pg_up (pg w)" "table_exists (pg w)" "r_up (rds w)"
  shows "\<exists>w'. delete_note i w = (Inr (200, DeletedBody i), w') \<and>
           store_map (pg w') = (store_map (pg w))(i := None) \<and> notes_entry w' = None \<and> clock w' = clock w"
proof -
  let ?db = "(pg w)\<lparr>rows := filter (\<lambda>r. note_id r \<noteq> i) (rows (pg w))\<rparr>"
  let ?r = "(rds w)\<lparr>kv := AList.delete NOTES_CACHE_KEY (kv (rds w))\<rparr>"
  have "list_ex (\<lambda>r. note_id r = i) (rows (pg w))" using assms(1) by (simp add: list_ex_store_map)
  then have "delete_note i w = (Inr (200, DeletedBody i), w\<lparr>pg := ?db, rds := ?r\<rparr>)"
    using assms(2-4) by (simp add: delete_note_def db_delete_note_def invalidate_notes_eq)
  moreover have "store_map ?db = (store_map (pg w))(i := None)"
    by (simp add: store_map_def map_of_filter_key)
  ultimately show ?thesis by simp
qed

theorem delete_note_found_witness:
  "(1::nat) \<in> dom (store_map \<lparr>pg_up = True, table_exists = True,
       rows = [\<lparr>note_id = 1, content = ''hi'', author = ''Anonymous'', created_at = 0\<rparr>], next_id = 2\<rparr>) \<and>
   (\<exists>w'. delete_note 1 \<lparr>clock = 0, pg = \<lparr>pg_up = True, table_exists = True,
       rows = [\<lparr>note_id = 1, content = ''hi'', author = ''Anonymous'', created_at = 0\<rparr>], next_id = 2\<rparr>,
       rds = redis_initial\<rparr> = (Inr (200, DeletedBody 1), w') \<and> store_map (pg w') = Map.empty \<and> notes_entry w' = None)"
proof -
  let ?w = "\<lparr>clock = 0, pg = \<lparr>pg_up = True, table_exists = True,
       rows = [\<lparr>note_id = 1, content = ''hi'', author = ''Anonymous'', created_at = 0\<rparr>], next_id = 2\<rparr>,
       rds = redis_initial\<rparr>"
  have h: "(1::nat) \<in> dom (store_map (pg ?w))" "pg_up (pg ?w)" "table_exists (pg ?w)" "r_up (rds ?w)"
    by (simp_all add: store_map_def redis_initial_def)
  have "store_map (pg ?w) = [1 \<mapsto> \<lparr>note_id = 1, content = ''hi'', author = ''Anonymous'', created_at = 0\<rparr>]"
    by (simp add: store_map_def)
  with delete_note_found [OF h] h(1) show ?thesis by auto
qed

text \<open>C29: Author length. The column is \<open>VARCHAR(80)\<close> and the route does not check the length: a well-formed POST whose stripped author is longer than 80 characters fails with the string-too-long error of PostgreSQL (HTTP 500), never a 400, and changes nothing.\<close>

theorem create_note_author_too_long:
  assumes "parse_note_request data = Inr (c, a)" "c \<noteq> []" "AUTHOR_MAXLEN < length a"
    "CHR 0x00 \<notin> set c" "CHR 0x00 \<notin> set a" "pg_up (pg w)" "table_exists (pg w)"
  shows "create_note (Some data) w = (Inl PgStringTooLong, w)"
proof -
  from parse_note_request_Inr [OF assms(1)] have "last a \<noteq> CHR '' ''" by auto
  with assms(3) have "varchar_coerce AUTHOR_MAXLEN a = Inl PgStringTooLong"
    by (simp add: varchar_coerce_long)
  with assms show ?thesis by (simp add: create_note_def insert_note_def)
qed

theorem create_note_author_too_long_witness:
  "parse_note_request (JObj [(''content'', JStr ''hi''), (''author'', JStr (replicate 81 (CHR ''x'')))]) =
     Inr (''hi'', replicate 81 (CHR ''x'')) \<and> ''hi'' \<noteq> [] \<and> AUTHOR_MAXLEN < length (replicate 81 (CHR ''x'')) \<and>
   CHR 0x00 \<notin> set ''hi'' \<and> CHR 0x00 \<notin> set (replicate 81 (CHR ''x'')) \<and>
   pg_up (pg (world_initial\<lparr>pg := pg_initial\<lparr>table_exists := True\<rparr>\<rparr>)) \<and>
   table_exists (pg (world_initial\<lparr>pg := pg_initial\<lparr>table_exists := True\<rparr>\<rparr>)) \<and>
   create_note (Some (JObj [(''content'', JStr ''hi''), (''author'', JStr (replicate 81 (CHR ''x'')))]))
      (world_initial\<lparr>pg := pg_initial\<lparr>table_exists := True\<rparr>\<rparr>) =
     (Inl PgStringTooLong, world_initial\<lparr>pg := pg_initial\<lparr>table_exists := True\<rparr>\<rparr>)"
proof -
  let ?a = "replicate 81 (CHR ''x'')"
  let ?w = "world_initial\<lparr>pg := pg_initial\<lparr>table_exists := True\<rparr>\<rparr>"
  have "py_strip ?a = ?a" by (simp add: py_strip_def is_py_space_def)
  then have p: "parse_note_request (JObj [(''content'', JStr ''hi''), (''author'', JStr ?a)]) = Inr (''hi'', ?a)"
    by (simp add: parse_note_request_def py_strip_def is_py_space_def)
  have h: "''hi'' \<noteq> []" "AUTHOR_MAXLEN < length ?a" "CHR 0x00 \<notin> set ''hi''" "CHR 0x00 \<notin> set ?a"
     "pg_up (pg ?w)" "table_exists (pg ?w)"
    by (simp_all add: AUTHOR_MAXLEN_def world_initial_def pg_initial_def)
  show ?thesis using p h create_note_author_too_long [OF p h] by simp
qed

text \<open>C30: No fail-open on reads. When Redis is unreachable, \<open>GET /notes\<close> fails with the Redis connection error and changes nothing, even when the store could answer.\<close>

theorem list_notes_redis_unavailable:
  assumes "\<not> r_up (rds w)" "get_all_notes (pg w) = Inr ns"
  shows "list_notes w = (Inl RedisConnectionError, w)"
  using assms(1) by (simp add: list_notes_def get_notes_eq)

theorem list_notes_redis_unavailable_witness:
  "\<not> r_up (rds (world_initial\<lparr>pg := pg_initial\<lparr>table_exists := True\<rparr>, rds := redis_initial\<lparr>r_up := False\<rparr>\<rparr>)) \<and>
   get_all_notes (pg (world_initial\<lparr>pg := pg_initial\<lparr>table_exists := True\<rparr>, rds := redis_initial\<lparr>r_up := False\<rparr>\<rparr>)) = Inr [] \<and>
   list_notes (world_initial\<lparr>pg := pg_initial\<lparr>table_exists := True\<rparr>, rds := redis_initial\<lparr>r_up := False\<rparr>\<rparr>) =
     (Inl RedisConnectionError, world_initial\<lparr>pg := pg_initial\<lparr>table_exists := True\<rparr>, rds := redis_initial\<lparr>r_up := False\<rparr>\<rparr>)"
proof -
  let ?w = "world_initial\<lparr>pg := pg_initial\<lparr>table_exists := True\<rparr>, rds := redis_initial\<lparr>r_up := False\<rparr>\<rparr>"
  have h: "\<not> r_up (rds ?w)" "get_all_notes (pg ?w) = Inr []"
    by (simp_all add: store_eval)
  show ?thesis using h list_notes_redis_unavailable [OF h] by simp
qed

text \<open>C15: Expiry. Once more than \<open>CACHE_TTL\<close> seconds have passed since the entry was written (any entry that respects the TTL bound), the next \<open>GET /notes\<close> is served from the database with the current listing.\<close>

theorem list_notes_after_ttl:
  assumes "cache_bounded w" "clock w + CACHE_TTL * 1000 < now" "r_up (rds w)" "pg_up (pg w)" "table_exists (pg w)"
  shows "fst (list_notes (w\<lparr>clock := now\<rparr>)) =
           Inr (200, NotesBody (newest_first (rows (pg w))) FromDatabase (int CACHE_TTL))"
proof -
  let ?w = "w\<lparr>clock := now\<rparr>"
  have "notes_entry ?w = None"
    using notes_entry_expired [OF assms(1,2)] by simp
  with assms(3-5) show ?thesis by (simp add: list_notes_miss)
qed

theorem list_notes_after_ttl_witness:
  "cache_bounded \<lparr>clock = 1000, pg = pg_initial\<lparr>table_exists := True\<rparr>,
      rds = redis_initial\<lparr>kv := [(NOTES_CACHE_KEY, ([], Some 15000))]\<rparr>\<rparr> \<and>
   1000 + CACHE_TTL * 1000 < (16001::nat) \<and> r_up (redis_initial\<lparr>kv := [(NOTES_CACHE_KEY, ([]::note_row list, Some 15000))]\<rparr>) \<and>
   pg_up (pg_initial\<lparr>table_exists := True\<rparr>) \<and> table_exists (pg_initial\<lparr>table_exists := True\<rparr>) \<and>
   fst (list_notes \<lparr>clock = 16001, pg = pg_initial\<lparr>table_exists := True\<rparr>,
      rds = redis_initial\<lparr>kv := [(NOTES_CACHE_KEY, ([], Some 15000))]\<rparr>\<rparr>) =
     Inr (200, NotesBody [] FromDatabase (int CACHE_TTL))"
proof -
  let ?w = "\<lparr>clock = 1000, pg = pg_initial\<lparr>table_exists := True\<rparr>,
      rds = redis_initial\<lparr>kv := [(NOTES_CACHE_KEY, ([], Some 15000))]\<rparr>\<rparr>"
  have h: "cache_bounded ?w" "clock ?w + CACHE_TTL * 1000 < 16001" "r_up (rds ?w)" "pg_up (pg ?w)" "table_exists (pg ?w)"
    by (simp_all add: cache_bounded_def entry_bounded_def r_view_def notes_eval redis_eval pg_initial_def)
  from list_notes_after_ttl [OF h] h show ?thesis by (simp add: pg_initial_def store_eval)
qed

text \<open>C22: Delete is idempotent in effect. After a \<open>DELETE\<close> that answered 200, the same
  \<open>DELETE\<close> answers 404 \<open>Note not found\<close> and changes nothing.\<close>

theorem delete_note_twice:
  assumes "delete_note i w = (Inr (200, DeletedBody i), w')"
  shows "delete_note i w' = (Inr (404, ErrorBody ''Note not found''), w')"
proof -
  obtain db' r' where d: "db_delete_note i (pg w) = Inr (True, db')" "invalidate_notes (rds w) = Inr r'"
      and w': "w' = w\<lparr>pg := db', rds := r'\<rparr>"
    using assms by (auto simp: delete_note_def split: sum.splits bool.splits prod.splits)
  from d(1) have db': "pg_up db'" "table_exists db'" "db' = (pg w)\<lparr>rows := filter (\<lambda>r. note_id r \<noteq> i) (rows (pg w))\<rparr>"
    by (simp_all add: db_delete_note_Inr)
  then have "\<not> list_ex (\<lambda>r. note_id r = i) (rows db')" by (simp add: list_ex_iff)
  with db' w' show ?thesis by (simp add: delete_note_def db_delete_note_def)
qed

theorem delete_note_twice_witness:
  "delete_note 1 \<lparr>clock = 0, pg = \<lparr>pg_up = True, table_exists = True, rows = [\<lparr>note_id = 1, content = ''hi'', author = ''Anonymous'', created_at = 0\<rparr>], next_id = 2\<rparr>, rds = redis_initial\<rparr> = (Inr (200, DeletedBody 1), \<lparr>clock = 0, pg = \<lparr>pg_up = True, table_exists = True, rows = [], next_id = 2\<rparr>, rds = redis_initial\<rparr>) \<and>
   delete_note 1 \<lparr>clock = 0, pg = \<lparr>pg_up = True, table_exists = True, rows = [], next_id = 2\<rparr>, rds = redis_initial\<rparr> = (Inr (404, ErrorBody ''Note not found''), \<lparr>clock = 0, pg = \<lparr>pg_up = True, table_exists = True, rows = [], next_id = 2\<rparr>, rds = redis_initial\<rparr>)"
proof -
  have h: "delete_note 1 \<lparr>clock = 0, pg = \<lparr>pg_up = True, table_exists = True, rows = [\<lparr>note_id = 1, content = ''hi'', author = ''Anonymous'', created_at = 0\<rparr>], next_id = 2\<rparr>, rds = redis_initial\<rparr> = (Inr (200, DeletedBody 1), \<lparr>clock = 0, pg = \<lparr>pg_up = True, table_exists = True, rows = [], next_id = 2\<rparr>, rds = redis_initial\<rparr>)"
    by (simp add: notes_eval store_eval redis_eval)
  from delete_note_twice [OF h] h show ?thesis by blast
qed

text \<open>C31: A JSON body that is not an object (\<open>null\<close>, a list, a string, a number, a
  boolean) makes \<open>data.get\<close> raise \<open>AttributeError\<close>: HTTP 500 before any validation, with
  nothing changed.\<close>

theorem create_note_non_object:
  assumes "\<forall>kvs. data \<noteq> JObj kvs"
  shows "create_note (Some data) w = (Inl PyAttributeError, w)"
proof -
  have "py_dict_get data ''content'' = Inl PyAttributeError" using assms by (cases data) auto
  then show ?thesis by (simp add: create_note_def parse_note_request_def)
qed

theorem create_note_non_object_witness:
  "(\<forall>kvs. JArr [] \<noteq> JObj kvs) \<and> create_note (Some (JArr [])) world_initial = (Inl PyAttributeError, world_initial)"
proof -
  have h: "\<forall>kvs. JArr [] \<noteq> JObj kvs" by simp
  from create_note_non_object [OF h] h show ?thesis by blast
qed

end
