(* ===== verification/System.thy ===== *)
theory System
  imports Notes
begin

text \<open>
  \<open>app/routes/system.py\<close>: the health check, the statistics and the manual cache
  flush. \<open>health\<close> catches every exception of the two probes, so it always answers;
  the other two let exceptions escape like the notes routes.
\<close>

definition error_of :: "error + 'a \<Rightarrow> error option" where
  "error_of x = (case x of Inl e \<Rightarrow> Some e | Inr _ \<Rightarrow> None)"

text \<open>
  \<open>status["postgres"]\<close> becomes \<open>True\<close> only when \<open>db_service.ping()\<close> returns, and
  the exception text goes to \<open>postgres_error\<close>; the same for Redis. The code is 200 when
  both are up and 503 otherwise. The timestamp field is not modelled.
\<close>

definition health :: "world \<Rightarrow> outcome" where
  "health w =
     (let pe = error_of (pg_ping (pg w));
          ce = error_of (cache_ping (rds w));
          ok = (pe = None \<and> ce = None)
      in (Inr (if ok then 200 else 503, HealthBody (pe = None) (ce = None) pe ce), w))"

text \<open>\<open>{"postgres_notes": db_service.count_notes(), **cache_service.get_stats()}\<close>, in that order.\<close>

definition stats :: "world \<Rightarrow> outcome" where
  "stats w =
     (case count_notes (pg w) of
        Inl e \<Rightarrow> (Inl e, w)
      | Inr n \<Rightarrow>
          (case get_stats (rds w) of
             Inl e \<Rightarrow> (Inl e, w)
           | Inr (h, m, k) \<Rightarrow> (Inr (200, StatsBody n h m k), w)))"

definition flush_cache :: "world \<Rightarrow> outcome" where
  "flush_cache w =
     (case flush_all (rds w) of
        Inl e \<Rightarrow> (Inl e, w)
      | Inr r' \<Rightarrow> (Inr (200, MessageBody ''Cache flushed''), w\<lparr>rds := r'\<rparr>))"

lemmas system_eval = health_def stats_def flush_cache_def error_of_def

subsection \<open>Properties of the system routes\<close>

text \<open>C23: Health independence. \<open>GET /health\<close> never fails and changes nothing; it reports
  PostgreSQL as up exactly when PostgreSQL is reachable, whatever the state of Redis,
  and Redis as up exactly when Redis is reachable, with the exception of each failed
  probe, and answers 200 when both are up and 503 otherwise.
\<close>

theorem health_status:
  "health w =
     (Inr (if pg_up (pg w) \<and> r_up (rds w) then 200 else 503,
           HealthBody (pg_up (pg w)) (r_up (rds w))
             (if pg_up (pg w) then None else Some PgConnectionError)
             (if r_up (rds w) then None else Some RedisConnectionError)), w)"
  by (simp add: health_def error_of_def pg_ping_def cache_ping_def r_ping_def)

end
