(* ===== verification/Service.thy ===== *)
theory Service
  imports System
begin

text \<open>
  The running service as a state machine. \<open>handle\<close> is the routing table that
  \<open>register_routes\<close> installs (\<open>app/routes/__init__.py\<close> and the blueprints' route
  decorators): one request, one handler. Between requests the environment may let time
  pass, take either server down or bring it back, or run Redis's active expiry cycle.
  Requests are handled one at a time here; their interleaving is the subject of a later
  theory.
\<close>

datatype request =
    GetNotes
  | PostNotes "json option"
  | DeleteNotes nat
  | GetHealth
  | GetStats
  | PostCacheFlush

fun handle :: "request \<Rightarrow> world \<Rightarrow> outcome" where
  "handle GetNotes w = list_notes w"
| "handle (PostNotes req) w = create_note req w"
| "handle (DeleteNotes i) w = delete_note i w"
| "handle GetHealth w = health w"
| "handle GetStats w = stats w"
| "handle PostCacheFlush w = flush_cache w"

text \<open>The responses each route can give (spec section 6), as a predicate on the route and
  the status code and body.\<close>

fun response_ok :: "request \<Rightarrow> response \<Rightarrow> bool" where
  "response_ok GetNotes (c, b) = (c = 200 \<and> (case b of NotesBody _ _ _ \<Rightarrow> True | _ \<Rightarrow> False))"
| "response_ok (PostNotes _) (c, b) =
     ((c = 201 \<and> (case b of NoteBody _ _ _ _ \<Rightarrow> True | _ \<Rightarrow> False)) \<or>
      (c = 400 \<and> (b = ErrorBody ''content is required'' \<or> b = BadRequestBody)))"
| "response_ok (DeleteNotes i) (c, b) =
     ((c = 200 \<and> b = DeletedBody i) \<or> (c = 404 \<and> b = ErrorBody ''Note not found''))"
| "response_ok GetHealth (c, b) =
     (case b of HealthBody p r _ _ \<Rightarrow> c = (if p \<and> r then 200 else 503) | _ \<Rightarrow> False)"
| "response_ok GetStats (c, b) = (c = 200 \<and> (case b of StatsBody _ _ _ _ \<Rightarrow> True | _ \<Rightarrow> False))"
| "response_ok PostCacheFlush (c, b) = (c = 200 \<and> b = MessageBody ''Cache flushed'')"

datatype event =
    Request request
  | Tick nat
  | SetPgUp bool
  | SetRedisUp bool
  | ExpireCycle

fun step :: "world \<Rightarrow> event \<Rightarrow> world" where
  "step w (Request q) = snd (handle q w)"
| "step w (Tick d) = w\<lparr>clock := clock w + d\<rparr>"
| "step w (SetPgUp b) = w\<lparr>pg := (pg w)\<lparr>pg_up := b\<rparr>\<rparr>"
| "step w (SetRedisUp b) = w\<lparr>rds := (rds w)\<lparr>r_up := b\<rparr>\<rparr>"
| "step w ExpireCycle = w\<lparr>rds := r_active_expire (clock w) (rds w)\<rparr>"

fun run :: "world \<Rightarrow> event list \<Rightarrow> world" where
  "run w [] = w"
| "run w (e # es) = run (step w e) es"

text \<open>A run in which every request finds Redis reachable.\<close>

fun redis_ok_run :: "world \<Rightarrow> event list \<Rightarrow> bool" where
  "redis_ok_run w [] = True"
| "redis_ok_run w (e # es) =
     ((case e of Request _ \<Rightarrow> r_up (rds w) | _ \<Rightarrow> True) \<and> redis_ok_run (step w e) es)"

subsection \<open>Properties of the routing\<close>

text \<open>C18: Response shapes. Every response a route gives (not an exception) has a status
  code and body of the kinds the interface lists: \<open>GET /notes\<close> 200 with a notes body,
  \<open>POST\<close> 201 with the note or 400, \<open>DELETE\<close> 200 with the id or 404, \<open>/health\<close> 200
  exactly when both servers are up and 503 otherwise, \<open>/stats\<close> and \<open>/cache/flush\<close> 200.\<close>

theorem handle_response_ok:
  assumes "fst (handle q w) = Inr r"
  shows "response_ok q r"
proof (cases q)
  case GetNotes
  with assms show ?thesis
    by (auto simp: list_notes_def split: sum.splits option.splits prod.splits)
next
  case (PostNotes req)
  with assms show ?thesis
    by (auto simp: create_note_def split: sum.splits option.splits prod.splits if_splits)
next
  case (DeleteNotes i)
  with assms show ?thesis
    by (auto simp: delete_note_def split: sum.splits bool.splits prod.splits)
next
  case GetHealth
  with assms show ?thesis by (auto simp: health_def Let_def)
next
  case GetStats
  with assms show ?thesis by (auto simp: stats_def split: sum.splits prod.splits)
next
  case PostCacheFlush
  with assms show ?thesis by (auto simp: flush_cache_def split: sum.splits)
qed

theorem handle_response_ok_witness:
  "fst (handle GetNotes (world_initial\<lparr>pg := pg_initial\<lparr>table_exists := True\<rparr>\<rparr>)) =
     Inr (200, NotesBody [] FromDatabase 15) \<and>
   response_ok GetNotes (200, NotesBody [] FromDatabase 15)"
proof -
  have h: "fst (handle GetNotes (world_initial\<lparr>pg := pg_initial\<lparr>table_exists := True\<rparr>\<rparr>)) =
     Inr (200, NotesBody [] FromDatabase 15)"
    by (simp add: notes_eval redis_eval store_eval r_view_def)
  from handle_response_ok [OF h] h show ?thesis by blast
qed

end
