(* ===== verification/Coherence.thy ===== *)
theory Coherence
  imports Service
begin

text \<open>
  What the running service keeps true between requests. The lemmas of the first part
  list, for each handler, the states it can leave behind; the second part shows that
  every step preserves \<open>world_inv\<close> (the store invariant, the Redis invariant and the
  expiry bound of the notes entry) and, in runs where every request finds Redis
  reachable, \<open>cache_fresh\<close>: a live notes entry is the current listing.
\<close>

subsection \<open>Cache coherence predicates under state changes\<close>

lemma cache_fresh_same_view:
  "r_view (clock w) r' NOTES_CACHE_KEY = notes_entry w \<Longrightarrow> rows db' = rows (pg w) \<Longrightarrow>
   cache_fresh (w\<lparr>pg := db', rds := r'\<rparr>) = cache_fresh w"
  by (simp add: cache_fresh_def)

lemma cache_bounded_same_view:
  "r_view (clock w) r' NOTES_CACHE_KEY = notes_entry w \<Longrightarrow> cache_bounded (w\<lparr>pg := db', rds := r'\<rparr>) = cache_bounded w"
  by (simp add: cache_bounded_def)

lemma cache_fresh_no_entry: "notes_entry w = None \<Longrightarrow> cache_fresh w"
  by (simp add: cache_fresh_def)

lemma cache_bounded_no_entry: "notes_entry w = None \<Longrightarrow> cache_bounded w"
  by (simp add: cache_bounded_def)

lemma cache_fresh_bounded: "cache_fresh w \<Longrightarrow> cache_bounded w"
  by (simp add: cache_fresh_def cache_bounded_def entry_fresh_bounded)

lemma list_notes_miss_fail:
  assumes "r_up (rds w)" "notes_entry w = None" "get_all_notes (pg w) = Inl e"
  shows "list_notes w = (Inl e, w\<lparr>rds := snd (lookup_read (clock w) NOTES_CACHE_KEY (rds w))\<rparr>)"
  using assms by (simp add: list_notes_def get_notes_eq)

lemma db_delete_note_False: "db_delete_note i db = Inr (False, db') \<Longrightarrow> db' = db"
proof -
  assume a: "db_delete_note i db = Inr (False, db')"
  then have "\<forall>r\<in>set (rows db). note_id r \<noteq> i" and "db' = db\<lparr>rows := filter (\<lambda>r. note_id r \<noteq> i) (rows db)\<rparr>"
    by (auto simp: db_delete_note_Inr list_ex_iff)
  then show "db' = db" by simp
qed

subsection \<open>The states a handler leaves behind\<close>

lemma create_note_worldE:
  obtains (same) "snd (create_note req w) = w"
  | (down) c a i t db' where "insert_note (clock w) c a (pg w) = Inr ((i, t), db')" "\<not> r_up (rds w)"
      "snd (create_note req w) = w\<lparr>pg := db'\<rparr>"
  | (ok) c a i t db' where "insert_note (clock w) c a (pg w) = Inr ((i, t), db')" "r_up (rds w)"
      "snd (create_note req w) = w\<lparr>pg := db', rds := (rds w)\<lparr>kv := AList.delete NOTES_CACHE_KEY (kv (rds w))\<rparr>\<rparr>"
proof (cases req)
  case None
  then show ?thesis using same by (simp add: create_note_def)
next
  case (Some data)
  show ?thesis
  proof (cases "parse_note_request data")
    case (Inl e)
    with Some show ?thesis using same by (simp add: create_note_def)
  next
    case (Inr p)
    obtain c a where p: "p = (c, a)" by (cases p)
    show ?thesis
    proof (cases "c = [] \<or> (\<exists>e. insert_note (clock w) c a (pg w) = Inl e)")
      case True
      with Some Inr p show ?thesis using same by (auto simp: create_note_def)
    next
      case False
      then obtain i t db' where ins: "insert_note (clock w) c a (pg w) = Inr ((i, t), db')" and "c \<noteq> []"
        by (cases "insert_note (clock w) c a (pg w)") auto
      then show ?thesis
        using Some Inr p down [OF ins] ok [OF ins]
        by (cases "r_up (rds w)") (simp_all add: create_note_def invalidate_notes_eq)
    qed
  qed
qed

lemma delete_note_worldE:
  obtains (same) "snd (delete_note i w) = w"
  | (down) db' where "db_delete_note i (pg w) = Inr (True, db')" "\<not> r_up (rds w)"
      "snd (delete_note i w) = w\<lparr>pg := db'\<rparr>"
  | (ok) db' where "db_delete_note i (pg w) = Inr (True, db')" "r_up (rds w)"
      "snd (delete_note i w) = w\<lparr>pg := db', rds := (rds w)\<lparr>kv := AList.delete NOTES_CACHE_KEY (kv (rds w))\<rparr>\<rparr>"
proof (cases "db_delete_note i (pg w)")
  case (Inl e)
  then show ?thesis using same by (simp add: delete_note_def)
next
  case (Inr p)
  obtain b db' where p: "p = (b, db')" by (cases p)
  show ?thesis
  proof (cases b)
    case False
    with Inr p have "db' = pg w" by (auto dest: db_delete_note_False)
    with Inr p False show ?thesis using same by (simp add: delete_note_def)
  next
    case True
    with Inr p have del: "db_delete_note i (pg w) = Inr (True, db')" by simp
    then show ?thesis
      using down [OF del] ok [OF del]
      by (cases "r_up (rds w)") (simp_all add: delete_note_def invalidate_notes_eq)
  qed
qed

lemma list_notes_worldE:
  obtains (view) r' where "snd (list_notes w) = w\<lparr>rds := r'\<rparr>"
      "r_view (clock w) r' = r_view (clock w) (rds w)" "redis_inv (rds w) \<Longrightarrow> redis_inv r'"
  | (fill) "r_up (rds w)" "notes_entry w = None" "pg_up (pg w)" "table_exists (pg w)"
      "snd (list_notes w) = w\<lparr>rds := (snd (lookup_read (clock w) NOTES_CACHE_KEY (rds w)))\<lparr>kv :=
         AList.update NOTES_CACHE_KEY (newest_first (rows (pg w)), Some (clock w + CACHE_TTL * 1000))
           (kv (snd (lookup_read (clock w) NOTES_CACHE_KEY (rds w))))\<rparr>\<rparr>"
proof (cases "r_up (rds w)")
  case False
  then have "snd (list_notes w) = w\<lparr>rds := rds w\<rparr>" by (simp add: list_notes_down)
  then show ?thesis using view by blast
next
  case up: True
  show ?thesis
  proof (cases "notes_entry w")
    case (Some p)
    obtain ns e where p: "p = (ns, e)" by (cases p)
    show ?thesis
      using list_notes_hit [OF up Some [unfolded p]] view by simp
  next
    case None
    show ?thesis
    proof (cases "get_all_notes (pg w)")
      case (Inl e)
      show ?thesis using list_notes_miss_fail [OF up None Inl] view by simp
    next
      case (Inr ns)
      then have "pg_up (pg w)" "table_exists (pg w)" by (simp_all add: get_all_notes_Inr)
      with up None show ?thesis using fill list_notes_miss by simp
    qed
  qed
qed

lemma flush_cache_world:
  "snd (flush_cache w) = (if r_up (rds w) then w\<lparr>rds := (rds w)\<lparr>kv := []\<rparr>\<rparr> else w)"
  by (simp add: flush_cache_def flush_all_eq)

lemma stats_world: "snd (stats w) = w"
  by (simp add: stats_def split: sum.split prod.split)

lemma health_world: "snd (health w) = w"
  by (simp add: health_def Let_def)

subsection \<open>The invariant of the running service\<close>

lemma cache_bounded_later:
  assumes "cache_bounded w" "clock w \<le> now"
  shows "cache_bounded (w\<lparr>clock := now\<rparr>)"
proof (cases "r_view now (rds w) NOTES_CACHE_KEY")
  case (Some p)
  obtain ns e where p: "p = (ns, e)" by (cases p)
  from Some p have "r_view now (rds w) NOTES_CACHE_KEY = Some (ns, e)" by simp
  then have "notes_entry w = Some (ns, e)" using assms(2) by (rule r_view_later)
  with assms Some p show ?thesis by (auto simp: cache_bounded_def entry_bounded_def split: option.splits)
qed (simp add: cache_bounded_def)

lemma cache_fresh_later:
  assumes "cache_fresh w" "clock w \<le> now"
  shows "cache_fresh (w\<lparr>clock := now\<rparr>)"
proof (cases "r_view now (rds w) NOTES_CACHE_KEY")
  case (Some p)
  obtain ns e where p: "p = (ns, e)" by (cases p)
  from Some p have "r_view now (rds w) NOTES_CACHE_KEY = Some (ns, e)" by simp
  then have "notes_entry w = Some (ns, e)" using assms(2) by (rule r_view_later)
  with assms Some p show ?thesis by (auto simp: cache_fresh_def entry_fresh_def split: option.splits)
qed (simp add: cache_fresh_def)

lemma world_inv_fill:
  assumes "world_inv w"
  shows "world_inv (w\<lparr>rds := (snd (lookup_read (clock w) NOTES_CACHE_KEY (rds w)))\<lparr>kv :=
         AList.update NOTES_CACHE_KEY (ns, Some (clock w + CACHE_TTL * 1000))
           (kv (snd (lookup_read (clock w) NOTES_CACHE_KEY (rds w))))\<rparr>\<rparr>)"
proof -
  have "redis_inv (snd (lookup_read (clock w) NOTES_CACHE_KEY (rds w)))"
    using assms by (simp add: world_inv_def)
  then show ?thesis using assms
    by (simp add: world_inv_def cache_bounded_def redis_inv_def distinct_update)
qed

lemma handle_world_inv:
  assumes "world_inv w"
  shows "world_inv (snd (handle q w))"
proof (cases q)
  case GetNotes
  show ?thesis
  proof (cases rule: list_notes_worldE [of w])
    case (view r')
    with assms GetNotes show ?thesis
      by (simp add: world_inv_def cache_bounded_same_view [of w r' "pg w", simplified])
  next
    case fill
    with GetNotes world_inv_fill [OF assms] show ?thesis by simp
  qed
next
  case (PostNotes req)
  show ?thesis
  proof (cases rule: create_note_worldE [of req w])
    case same
    with PostNotes assms show ?thesis by simp
  next
    case (down c a i t db')
    with PostNotes assms show ?thesis
      by (auto simp: world_inv_def cache_bounded_def intro: store_inv_insert)
  next
    case (ok c a i t db')
    with PostNotes assms show ?thesis
      by (auto simp: world_inv_def cache_bounded_def redis_inv_def distinct_delete intro: store_inv_insert
         )
  qed
next
  case (DeleteNotes i)
  show ?thesis
  proof (cases rule: delete_note_worldE [of i w])
    case same
    with DeleteNotes assms show ?thesis by simp
  next
    case (down db')
    with DeleteNotes assms show ?thesis
      by (auto simp: world_inv_def cache_bounded_def intro: store_inv_delete)
  next
    case (ok db')
    with DeleteNotes assms show ?thesis
      by (auto simp: world_inv_def cache_bounded_def redis_inv_def distinct_delete intro: store_inv_delete
         )
  qed
next
  case GetHealth
  with assms show ?thesis by (simp add: health_world)
next
  case GetStats
  with assms show ?thesis by (simp add: stats_world)
next
  case PostCacheFlush
  with assms show ?thesis
    by (simp add: flush_cache_world world_inv_def cache_bounded_def redis_inv_def r_view_def)
qed

lemma step_world_inv:
  assumes "world_inv w"
  shows "world_inv (step w e)"
proof (cases e)
  case (Request q)
  with assms show ?thesis by (simp add: handle_world_inv)
next
  case (Tick d)
  have "cache_bounded (w\<lparr>clock := clock w + d\<rparr>)"
    using assms by (simp add: world_inv_def cache_bounded_later)
  moreover have "store_inv (clock w + d) (pg w)"
    using assms store_inv_clock [of "clock w" "pg w" "clock w + d"] by (simp add: world_inv_def)
  ultimately show ?thesis using Tick assms by (simp add: world_inv_def)
next
  case (SetPgUp b)
  with assms show ?thesis by (simp add: world_inv_def store_inv_pg_up cache_bounded_def)
next
  case (SetRedisUp b)
  with assms show ?thesis by (simp add: world_inv_def redis_inv_def cache_bounded_def)
next
  case ExpireCycle
  with assms show ?thesis
    by (simp add: world_inv_def redis_inv_active_expire r_view_active_expire cache_bounded_def
       )
qed


subsection \<open>Freshness of the cache in runs with Redis reachable\<close>

lemma cache_fresh_fill:
  "cache_fresh (w\<lparr>rds := (snd (lookup_read (clock w) NOTES_CACHE_KEY (rds w)))\<lparr>kv :=
      AList.update NOTES_CACHE_KEY (newest_first (rows (pg w)), Some (clock w + CACHE_TTL * 1000))
        (kv (snd (lookup_read (clock w) NOTES_CACHE_KEY (rds w))))\<rparr>\<rparr>)"
  by (simp add: cache_fresh_def expired_def)

lemma list_notes_cache_fresh:
  assumes "cache_fresh w"
  shows "cache_fresh (snd (list_notes w))"
proof (cases rule: list_notes_worldE [of w])
  case (view r')
  with assms show ?thesis by (simp add: cache_fresh_same_view [of w r' "pg w", simplified])
next
  case fill
  then show ?thesis using cache_fresh_fill [of w] by simp
qed

lemma create_note_cache_fresh:
  assumes "cache_fresh w" "r_up (rds w)"
  shows "cache_fresh (snd (create_note req w))"
proof (cases rule: create_note_worldE [of req w])
  case same
  with assms show ?thesis by simp
next
  case (down c a i t db')
  with assms show ?thesis by simp
next
  case (ok c a i t db')
  then show ?thesis by (simp add: cache_fresh_def)
qed

lemma delete_note_cache_fresh:
  assumes "cache_fresh w" "r_up (rds w)"
  shows "cache_fresh (snd (delete_note i w))"
proof (cases rule: delete_note_worldE [of i w])
  case same
  with assms show ?thesis by simp
next
  case (down db')
  with assms show ?thesis by simp
next
  case ok
  then show ?thesis by (simp add: cache_fresh_def)
qed

lemma handle_cache_fresh:
  assumes "cache_fresh w" "r_up (rds w)"
  shows "cache_fresh (snd (handle q w))"
proof (cases q)
  case PostCacheFlush
  with assms show ?thesis by (simp add: flush_cache_world cache_fresh_def r_view_def)
qed (use assms in \<open>simp_all add: list_notes_cache_fresh create_note_cache_fresh
      delete_note_cache_fresh health_world stats_world\<close>)

lemma step_cache_fresh:
  assumes "world_inv w" "cache_fresh w" "case e of Request _ \<Rightarrow> r_up (rds w) | _ \<Rightarrow> True"
  shows "cache_fresh (step w e)"
proof (cases e)
  case (Request q)
  with assms show ?thesis by (simp add: handle_cache_fresh)
next
  case (Tick d)
  with assms show ?thesis by (simp add: cache_fresh_later)
next
  case (SetPgUp b)
  with assms show ?thesis by (simp add: cache_fresh_def)
next
  case (SetRedisUp b)
  with assms show ?thesis by (simp add: cache_fresh_def r_view_def)
next
  case ExpireCycle
  with assms show ?thesis by (simp add: cache_fresh_def world_inv_def r_view_active_expire)
qed

lemma run_cache_fresh:
  "world_inv w \<Longrightarrow> cache_fresh w \<Longrightarrow> redis_ok_run w es \<Longrightarrow> cache_fresh (run w es)"
proof (induction es arbitrary: w)
  case Nil
  then show ?case by simp
next
  case (Cons e es)
  have "world_inv (step w e)" using Cons.prems(1) by (rule step_world_inv)
  moreover have "cache_fresh (step w e)"
    using Cons.prems by (intro step_cache_fresh) simp_all
  ultimately show ?case using Cons.IH Cons.prems(3) by simp
qed

lemma list_notes_fresh_result:
  assumes "cache_fresh w" "fst (list_notes w) = Inr (200, NotesBody ns src t)"
  shows "ns = newest_first (rows (pg w))"
proof -
  have up: "r_up (rds w)"
  proof (rule ccontr)
    assume "\<not> r_up (rds w)"
    with assms(2) show False by (simp add: list_notes_down)
  qed
  show ?thesis
  proof (cases "notes_entry w")
    case None
    show ?thesis
    proof (cases "get_all_notes (pg w)")
      case (Inl e)
      with assms(2) show ?thesis by (simp add: list_notes_miss_fail [OF up None Inl])
    next
      case (Inr ns')
      then have "pg_up (pg w)" "table_exists (pg w)" by (simp_all add: get_all_notes_Inr)
      with assms(2) show ?thesis by (simp add: list_notes_miss [OF up None])
    qed
  next
    case (Some p)
    obtain v e where p: "p = (v, e)" by (cases p)
    with assms(1) Some have "v = newest_first (rows (pg w))"
      by (cases e) (simp_all add: cache_fresh_def)
    with assms(2) Some p show ?thesis by (simp add: list_notes_hit [OF up])
  qed
qed

text \<open>The definitions to unfold when a concrete run is evaluated.\<close>

lemmas run_eval = notes_eval system_eval redis_eval store_eval r_view_def Let_def world_inv_def store_inv_def redis_inv_def cache_bounded_def cache_fresh_def

subsection \<open>Properties of the running service\<close>

text \<open>C1: Reads are current. From a state satisfying the invariant with a fresh cache, in any
  run of requests, clock ticks, server outages and expiry cycles in which every request
  finds Redis reachable, a successful \<open>GET /notes\<close> returns exactly the current table
  contents, newest first, whether it is served from the cache or from the database.
\<close>

theorem run_list_notes_current:
  assumes "world_inv w" "cache_fresh w" "redis_ok_run w es"
    and "fst (list_notes (run w es)) = Inr (200, NotesBody ns src t)"
  shows "ns = newest_first (rows (pg (run w es)))"
  using list_notes_fresh_result [OF run_cache_fresh [OF assms(1-3)] assms(4)] .

theorem run_list_notes_current_witness:
  "world_inv (world_initial\<lparr>pg := pg_initial\<lparr>table_exists := True\<rparr>\<rparr>) \<and>
   cache_fresh (world_initial\<lparr>pg := pg_initial\<lparr>table_exists := True\<rparr>\<rparr>) \<and>
   redis_ok_run (world_initial\<lparr>pg := pg_initial\<lparr>table_exists := True\<rparr>\<rparr>)
     [Request (PostNotes (Some (JObj [(''content'', JStr ''hi'')]))), Request GetNotes, Tick 1000] \<and>
   fst (list_notes (run (world_initial\<lparr>pg := pg_initial\<lparr>table_exists := True\<rparr>\<rparr>)
     [Request (PostNotes (Some (JObj [(''content'', JStr ''hi'')]))), Request GetNotes, Tick 1000])) =
     Inr (200, NotesBody [\<lparr>note_id = 1, content = ''hi'', author = ''Anonymous'', created_at = 0\<rparr>] FromCache 14) \<and>
   [\<lparr>note_id = 1, content = ''hi'', author = ''Anonymous'', created_at = 0\<rparr>] =
     newest_first (rows (pg (run (world_initial\<lparr>pg := pg_initial\<lparr>table_exists := True\<rparr>\<rparr>)
     [Request (PostNotes (Some (JObj [(''content'', JStr ''hi'')]))), Request GetNotes, Tick 1000])))"
proof -
  let ?w = "world_initial\<lparr>pg := pg_initial\<lparr>table_exists := True\<rparr>\<rparr>"
  let ?es = "[Request (PostNotes (Some (JObj [(''content'', JStr ''hi'')]))), Request GetNotes, Tick 1000]"
  let ?ns = "[\<lparr>note_id = 1, content = ''hi'', author = ''Anonymous'', created_at = 0::nat\<rparr>]"
  have h1: "world_inv ?w" by (simp add: run_eval)
  have h2: "cache_fresh ?w" by (simp add: run_eval)
  have h3: "redis_ok_run ?w ?es" by (simp add: run_eval)
  have h4: "fst (list_notes (run ?w ?es)) = Inr (200, NotesBody ?ns FromCache 14)"
    by (simp add: run_eval)
  from run_list_notes_current [OF h1 h2 h3 h4] h1 h2 h3 h4 show ?thesis by simp
qed

text \<open>C5: The invariant of the running service. Every step, from any state satisfying
  \<open>world_inv\<close>, leads to a state satisfying it: the store keeps increasing ids below the
  sequence, rows in insertion order with valid columns; Redis keeps one entry per key;
  and the notes entry, when live, expires within \<open>CACHE_TTL\<close> seconds, also across
  Redis and PostgreSQL outages.
\<close>

theorem run_world_inv:
  assumes "world_inv w"
  shows "world_inv (run w es)"
  using assms by (induction es arbitrary: w) (simp_all add: step_world_inv)

theorem run_world_inv_witness:
  "world_inv (world_initial\<lparr>pg := pg_initial\<lparr>table_exists := True\<rparr>\<rparr>) \<and>
   world_inv (run (world_initial\<lparr>pg := pg_initial\<lparr>table_exists := True\<rparr>\<rparr>)
     [Request GetNotes, SetRedisUp False, Request (PostNotes (Some (JObj [(''content'', JStr ''hi'')]))),
      SetRedisUp True, Tick 20000, ExpireCycle])"
proof -
  have h: "world_inv (world_initial\<lparr>pg := pg_initial\<lparr>table_exists := True\<rparr>\<rparr>)" by (simp add: run_eval)
  from h run_world_inv [OF h] show ?thesis by blast
qed

text \<open>C10: A Redis outage during a write leaves a stale cache. Whenever Redis is down
  when a valid \<open>POST\<close> arrives, the row is committed and the request fails with the
  connection error (HTTP 500); the cache is not invalidated, so once Redis is back, every
  \<open>GET\<close> until the old entry expires is served from the cache with the old list, which
  lacks the committed note.
\<close>

theorem redis_outage_stale_read:
  assumes down: "\<not> r_up (rds w)"
    and p: "parse_note_request data = Inr (c, a)" "c \<noteq> []"
    and ins: "insert_note (clock w) c a (pg w) = Inr ((i, t), db')"
    and inv: "store_inv (clock w) (pg w)" "cache_fresh w"
    and live: "notes_entry w = Some (ns, Some e)" "clock w + d \<le> e"
  shows "create_note (Some data) w = (Inl RedisConnectionError, w\<lparr>pg := db'\<rparr>) \<and>
         (\<exists>ttl. fst (list_notes (w\<lparr>pg := db', rds := (rds w)\<lparr>r_up := True\<rparr>, clock := clock w + d\<rparr>)) =
                  Inr (200, NotesBody ns FromCache ttl)) \<and>
         i \<in> note_id ` set (rows db') \<and> i \<notin> note_id ` set ns"
proof (intro conjI)
  show "create_note (Some data) w = (Inl RedisConnectionError, w\<lparr>pg := db'\<rparr>)"
    using down p ins by (simp add: create_note_def invalidate_notes_eq)
  let ?w2 = "w\<lparr>pg := db', rds := (rds w)\<lparr>r_up := True\<rparr>, clock := clock w + d\<rparr>"
  have "notes_entry ?w2 = Some (ns, Some e)"
    using live by (auto simp: r_view_def expired_def split: option.splits if_splits)
  from list_notes_hit [of ?w2, OF _ this]
  show "\<exists>ttl. fst (list_notes ?w2) = Inr (200, NotesBody ns FromCache ttl)" by simp
  show "i \<in> note_id ` set (rows db')" using ins by (auto simp: insert_note_Inr)
  have ns: "ns = newest_first (rows (pg w))"
    using inv(2) live by (simp add: cache_fresh_def entry_fresh_def)
  have "i = next_id (pg w)" using ins by (auto simp: insert_note_Inr)
  with inv(1) have "i \<notin> note_id ` set (rows (pg w))" by (auto simp: store_inv_def)
  with ns show "i \<notin> note_id ` set ns" by simp
qed

theorem redis_outage_stale_read_witness:
  "create_note (Some (JObj [(''content'', JStr ''hi'')]))
      \<lparr>clock = 0, pg = pg_initial\<lparr>table_exists := True\<rparr>,
       rds = redis_initial\<lparr>r_up := False, kv := [(NOTES_CACHE_KEY, ([], Some 15000))]\<rparr>\<rparr> =
     (Inl RedisConnectionError,
      \<lparr>clock = 0, pg = pg_initial\<lparr>table_exists := True, rows := [\<lparr>note_id = 1, content = ''hi'', author = ''Anonymous'', created_at = 0\<rparr>], next_id := 2\<rparr>,
       rds = redis_initial\<lparr>r_up := False, kv := [(NOTES_CACHE_KEY, ([], Some 15000))]\<rparr>\<rparr>) \<and>
   (\<exists>ttl. fst (list_notes
      \<lparr>clock = 10000, pg = pg_initial\<lparr>table_exists := True, rows := [\<lparr>note_id = 1, content = ''hi'', author = ''Anonymous'', created_at = 0\<rparr>], next_id := 2\<rparr>,
       rds = redis_initial\<lparr>kv := [(NOTES_CACHE_KEY, ([], Some 15000))]\<rparr>\<rparr>) = Inr (200, NotesBody [] FromCache ttl))"
proof -
  let ?w = "\<lparr>clock = 0, pg = pg_initial\<lparr>table_exists := True\<rparr>,
       rds = redis_initial\<lparr>r_up := False, kv := [(NOTES_CACHE_KEY, ([], Some 15000))]\<rparr>\<rparr>"
  let ?db = "pg_initial\<lparr>table_exists := True, rows := [\<lparr>note_id = 1, content = ''hi'', author = ''Anonymous'', created_at = 0\<rparr>], next_id := 2\<rparr>"
  have down: "\<not> r_up (rds ?w)" by simp
  have p: "parse_note_request (JObj [(''content'', JStr ''hi'')]) = Inr (''hi'', ''Anonymous'')"
    by (simp add: run_eval)
  have ins: "insert_note (clock ?w) ''hi'' ''Anonymous'' (pg ?w) = Inr ((1, 0), ?db)"
    by (simp add: run_eval)
  have inv: "store_inv (clock ?w) (pg ?w)" "cache_fresh ?w" by (simp_all add: run_eval)
  have live: "notes_entry ?w = Some ([], Some 15000)" "clock ?w + 10000 \<le> 15000"
    by (simp_all add: run_eval)
  from redis_outage_stale_read [OF down p _ ins inv live] show ?thesis by (simp add: redis_initial_def)
qed

text \<open>C16: Flush then list. After a successful \<open>POST /cache/flush\<close>, the next
  \<open>GET /notes\<close> with PostgreSQL reachable is answered from the database with the
  current listing and the configured TTL.
\<close>

theorem flush_then_list:
  assumes "fst (flush_cache w) = Inr (200, MessageBody ''Cache flushed'')"
    and "pg_up (pg w)" "table_exists (pg w)"
  shows "fst (list_notes (snd (flush_cache w))) =
           Inr (200, NotesBody (newest_first (rows (pg w))) FromDatabase (int CACHE_TTL))"
proof -
  have up: "r_up (rds w)"
    using assms(1) by (auto simp: flush_cache_def flush_all_def r_flushdb_def split: if_splits)
  let ?w = "w\<lparr>rds := (rds w)\<lparr>kv := []\<rparr>\<rparr>"
  have w: "snd (flush_cache w) = ?w" using up by (simp add: flush_cache_world)
  have "notes_entry ?w = None" by (simp add: r_view_def)
  from list_notes_miss [of ?w, OF _ this] up assms(2,3) w show ?thesis by simp
qed

theorem flush_then_list_witness:
  "fst (flush_cache (world_initial\<lparr>pg := pg_initial\<lparr>table_exists := True\<rparr>,
      rds := redis_initial\<lparr>kv := [(NOTES_CACHE_KEY, ([], Some 15000))]\<rparr>\<rparr>)) = Inr (200, MessageBody ''Cache flushed'') \<and>
   pg_up (pg_initial\<lparr>table_exists := True\<rparr>) \<and> table_exists (pg_initial\<lparr>table_exists := True\<rparr>) \<and>
   fst (list_notes (snd (flush_cache (world_initial\<lparr>pg := pg_initial\<lparr>table_exists := True\<rparr>,
      rds := redis_initial\<lparr>kv := [(NOTES_CACHE_KEY, ([], Some 15000))]\<rparr>\<rparr>)))) =
     Inr (200, NotesBody [] FromDatabase 15)"
proof -
  let ?w = "world_initial\<lparr>pg := pg_initial\<lparr>table_exists := True\<rparr>,
      rds := redis_initial\<lparr>kv := [(NOTES_CACHE_KEY, ([], Some 15000))]\<rparr>\<rparr>"
  have h1: "fst (flush_cache ?w) = Inr (200, MessageBody ''Cache flushed'')" by (simp add: run_eval)
  have h2: "pg_up (pg ?w)" "table_exists (pg ?w)" by (simp_all add: run_eval)
  from flush_then_list [OF h1 h2] h1 h2 show ?thesis by (simp add: run_eval)
qed

text \<open>C24: Statistics count lookups, not requests. A \<open>GET /notes\<close> answered from the cache
  sends \<open>GET\<close> and \<open>TTL\<close>, and Redis counts both as keyspace hits: \<open>/stats\<close> afterwards
  reports \<open>redis_hits\<close> two higher, the other figures unchanged.\<close>

theorem list_hit_stats:
  assumes "r_up (rds w)" "notes_entry w \<noteq> None" "fst (stats w) = Inr (200, StatsBody n h m k)"
  shows "fst (stats (snd (list_notes w))) = Inr (200, StatsBody n (h + 2) m k)"
proof -
  obtain ns e where ent: "notes_entry w = Some (ns, e)" using assms(2) by auto
  let ?r1 = "(rds w)\<lparr>hits := Suc (hits (rds w))\<rparr>"
  have l1: "lookup_read (clock w) NOTES_CACHE_KEY (rds w) = (Some (ns, e), ?r1)"
    using ent by (rule lookup_read_hit)
  have "r_view (clock w) ?r1 NOTES_CACHE_KEY = Some (ns, e)" using ent by (simp add: r_view_def)
  then have l2: "lookup_read (clock w) NOTES_CACHE_KEY ?r1 = (Some (ns, e), ?r1\<lparr>hits := Suc (hits ?r1)\<rparr>)"
    by (rule lookup_read_hit)
  have w': "snd (list_notes w) = w\<lparr>rds := (rds w)\<lparr>hits := hits (rds w) + 2\<rparr>\<rparr>"
    using list_notes_hit [OF assms(1) ent] l1 l2 by simp
  from assms(3) have "count_notes (pg w) = Inr n" "h = hits (rds w)" "m = misses (rds w)" "k = length (kv (rds w))"
    by (auto simp: stats_def get_stats_def r_info_def split: sum.splits if_splits)
  with assms(1) w' show ?thesis by (simp add: stats_def get_stats_def r_info_def)
qed

theorem list_hit_stats_witness:
  "r_up (rds \<lparr>clock = 1000, pg = pg_initial\<lparr>table_exists := True\<rparr>, rds = redis_initial\<lparr>kv := [(NOTES_CACHE_KEY, ([], Some 15000))]\<rparr>\<rparr>) \<and> notes_entry \<lparr>clock = 1000, pg = pg_initial\<lparr>table_exists := True\<rparr>, rds = redis_initial\<lparr>kv := [(NOTES_CACHE_KEY, ([], Some 15000))]\<rparr>\<rparr> \<noteq> None \<and>
   fst (stats \<lparr>clock = 1000, pg = pg_initial\<lparr>table_exists := True\<rparr>, rds = redis_initial\<lparr>kv := [(NOTES_CACHE_KEY, ([], Some 15000))]\<rparr>\<rparr>) = Inr (200, StatsBody 0 0 0 1) \<and>
   fst (stats (snd (list_notes \<lparr>clock = 1000, pg = pg_initial\<lparr>table_exists := True\<rparr>, rds = redis_initial\<lparr>kv := [(NOTES_CACHE_KEY, ([], Some 15000))]\<rparr>\<rparr>))) = Inr (200, StatsBody 0 (0 + 2) 0 1)"
proof -
  have h: "r_up (rds \<lparr>clock = 1000, pg = pg_initial\<lparr>table_exists := True\<rparr>, rds = redis_initial\<lparr>kv := [(NOTES_CACHE_KEY, ([], Some 15000))]\<rparr>\<rparr>)" "notes_entry \<lparr>clock = 1000, pg = pg_initial\<lparr>table_exists := True\<rparr>, rds = redis_initial\<lparr>kv := [(NOTES_CACHE_KEY, ([], Some 15000))]\<rparr>\<rparr> \<noteq> None"
    "fst (stats \<lparr>clock = 1000, pg = pg_initial\<lparr>table_exists := True\<rparr>, rds = redis_initial\<lparr>kv := [(NOTES_CACHE_KEY, ([], Some 15000))]\<rparr>\<rparr>) = Inr (200, StatsBody 0 0 0 1)"
    by (simp_all add: run_eval)
  from list_hit_stats [OF h] h show ?thesis by blast
qed

end
