(* ===== verification/Concurrency.thy ===== *)
theory Concurrency
  imports Coherence
begin

text \<open>
  The worker pool of the deployed service handles requests concurrently, with no lock
  around PostgreSQL or Redis (spec section 5). Each notes handler is here a thread: a
  program counter with the handler's local variables, and \<open>thread_step\<close> performs
  the next service call of \<open>routes/notes.py\<close> on the shared state as one atomic step.
  The request parsing of \<open>create_note\<close> touches no shared state and is done in the
  step of the \<open>INSERT\<close>. The system routes are one step each. A configuration is the
  list of threads and the shared world; a schedule says which thread moves, when a
  request arrives and when the environment acts.
\<close>

subsection \<open>Threads\<close>

datatype thread =
    ListStart                                   \<comment> \<open>before \<open>cache_service.get_notes()\<close>\<close>
  | ListHit "note_row list"                     \<comment> \<open>\<open>cached\<close> bound, before \<open>get_notes_ttl()\<close>\<close>
  | ListMiss                                    \<comment> \<open>before \<open>db_service.get_all_notes()\<close>\<close>
  | ListFill "note_row list"                    \<comment> \<open>\<open>notes\<close> bound, before \<open>set_notes(notes)\<close>\<close>
  | CreateStart "json option"                   \<comment> \<open>before parsing and \<open>insert_note\<close>\<close>
  | CreateInvalidate nat string string timestamp \<comment> \<open>\<open>result\<close> bound, before \<open>invalidate_notes()\<close>\<close>
  | DeleteStart nat                             \<comment> \<open>before \<open>db_service.delete_note\<close>\<close>
  | DeleteInvalidate nat                        \<comment> \<open>row deleted, before \<open>invalidate_notes()\<close>\<close>
  | Atomic request                              \<comment> \<open>a system route, one step\<close>
  | Done "error + response"                     \<comment> \<open>the response, or the exception that escaped\<close>

fun thread_of :: "request \<Rightarrow> thread" where
  "thread_of GetNotes = ListStart"
| "thread_of (PostNotes req) = CreateStart req"
| "thread_of (DeleteNotes i) = DeleteStart i"
| "thread_of q = Atomic q"

fun thread_step :: "thread \<Rightarrow> world \<Rightarrow> thread \<times> world" where
  "thread_step ListStart w =
     (case get_notes (clock w) (rds w) of
        Inl e \<Rightarrow> (Done (Inl e), w)
      | Inr (Some ns, r1) \<Rightarrow> (ListHit ns, w\<lparr>rds := r1\<rparr>)
      | Inr (None, r1) \<Rightarrow> (ListMiss, w\<lparr>rds := r1\<rparr>))"
| "thread_step (ListHit ns) w =
     (case get_notes_ttl (clock w) (rds w) of
        Inl e \<Rightarrow> (Done (Inl e), w)
      | Inr (t, r2) \<Rightarrow> (Done (Inr (200, NotesBody ns FromCache t)), w\<lparr>rds := r2\<rparr>))"
| "thread_step ListMiss w =
     (case get_all_notes (pg w) of
        Inl e \<Rightarrow> (Done (Inl e), w)
      | Inr ns \<Rightarrow> (ListFill ns, w))"
| "thread_step (ListFill ns) w =
     (case set_notes (clock w) ns (rds w) of
        Inl e \<Rightarrow> (Done (Inl e), w)
      | Inr r2 \<Rightarrow> (Done (Inr (200, NotesBody ns FromDatabase (int CACHE_TTL))), w\<lparr>rds := r2\<rparr>))"
| "thread_step (CreateStart req) w =
     (case req of
        None \<Rightarrow> (Done (Inr (400, BadRequestBody)), w)
      | Some data \<Rightarrow>
          (case parse_note_request data of
             Inl e \<Rightarrow> (Done (Inl e), w)
           | Inr (c, a) \<Rightarrow>
               if c = [] then (Done (Inr (400, ErrorBody ''content is required'')), w)
               else
                 (case insert_note (clock w) c a (pg w) of
                    Inl e \<Rightarrow> (Done (Inl e), w)
                  | Inr ((i, t), db') \<Rightarrow> (CreateInvalidate i c a t, w\<lparr>pg := db'\<rparr>))))"
| "thread_step (CreateInvalidate i c a t) w =
     (case invalidate_notes (rds w) of
        Inl e \<Rightarrow> (Done (Inl e), w)
      | Inr r' \<Rightarrow> (Done (Inr (201, NoteBody i c a t)), w\<lparr>rds := r'\<rparr>))"
| "thread_step (DeleteStart i) w =
     (case db_delete_note i (pg w) of
        Inl e \<Rightarrow> (Done (Inl e), w)
      | Inr (False, db') \<Rightarrow> (Done (Inr (404, ErrorBody ''Note not found'')), w\<lparr>pg := db'\<rparr>)
      | Inr (True, db') \<Rightarrow> (DeleteInvalidate i, w\<lparr>pg := db'\<rparr>))"
| "thread_step (DeleteInvalidate i) w =
     (case invalidate_notes (rds w) of
        Inl e \<Rightarrow> (Done (Inl e), w)
      | Inr r' \<Rightarrow> (Done (Inr (200, DeletedBody i)), w\<lparr>rds := r'\<rparr>))"
| "thread_step (Atomic q) w = (case handle q w of (res, w') \<Rightarrow> (Done res, w'))"
| "thread_step (Done res) w = (Done res, w)"

text \<open>A thread run alone: its steps back to back, with fuel.\<close>

fun solo :: "nat \<Rightarrow> thread \<Rightarrow> world \<Rightarrow> outcome option" where
  "solo n (Done res) w = Some (res, w)"
| "solo 0 th w = None"
| "solo (Suc n) th w = (case thread_step th w of (th', w') \<Rightarrow> solo n th' w')"

subsection \<open>Interleaved execution\<close>

record conc =
  threads :: "thread list"
  shared :: world

datatype sched =
    Arrive request      \<comment> \<open>a request is handed to a new worker\<close>
  | Run nat             \<comment> \<open>worker \<open>i\<close> performs its next call\<close>
  | Env event           \<comment> \<open>the environment acts, as in the sequential service\<close>

fun conc_step :: "conc \<Rightarrow> sched \<Rightarrow> conc" where
  "conc_step c (Arrive q) = c\<lparr>threads := threads c @ [thread_of q]\<rparr>"
| "conc_step c (Run i) =
     (if i < length (threads c) then
        (case thread_step (threads c ! i) (shared c) of
           (th', w') \<Rightarrow> c\<lparr>threads := (threads c)[i := th'], shared := w'\<rparr>)
      else c)"
| "conc_step c (Env e) = c\<lparr>shared := step (shared c) e\<rparr>"

fun conc_exec :: "conc \<Rightarrow> sched list \<Rightarrow> conc" where
  "conc_exec c [] = c"
| "conc_exec c (s # ss) = conc_exec (conc_step c s) ss"

text \<open>The serial schedule: each request arrives at a new worker, which runs its three
  calls before the next request arrives.\<close>

fun serial_sched :: "nat \<Rightarrow> request list \<Rightarrow> sched list" where
  "serial_sched n [] = []"
| "serial_sched n (q # qs) = Arrive q # replicate 3 (Run n) @ serial_sched (Suc n) qs"

text \<open>A thread moved \<open>k\<close> times in a row.\<close>

fun step_n :: "nat \<Rightarrow> thread \<Rightarrow> world \<Rightarrow> thread \<times> world" where
  "step_n 0 th w = (th, w)"
| "step_n (Suc k) th w = (case thread_step th w of (th', w') \<Rightarrow> step_n k th' w')"

text \<open>The configurations the service can reach from an idle state that satisfies the
  invariant of the sequential service.\<close>

inductive reach :: "conc \<Rightarrow> bool" where
  reach_start: "world_inv w \<Longrightarrow> reach \<lparr>threads = [], shared = w\<rparr>"
| reach_step: "reach c \<Longrightarrow> reach (conc_step c s)"

text \<open>A response of \<open>GET /notes\<close> from the cache reports a \<open>cache_ttl\<close> that is \<open>-2\<close> or
  between 0 and \<open>CACHE_TTL\<close>.\<close>

definition cache_ttl_ok :: "thread \<Rightarrow> bool" where
  "cache_ttl_ok th =
     (case th of
        Done (Inr (_, NotesBody _ FromCache t)) \<Rightarrow> t = -2 \<or> (0 \<le> t \<and> t \<le> int CACHE_TTL)
      | _ \<Rightarrow> True)"

subsection \<open>Lemmas: the steps of a thread\<close>

lemma world_inv_lookup:
  assumes "world_inv w"
  shows "world_inv (w\<lparr>rds := snd (lookup_read (clock w) k (rds w))\<rparr>)"
proof -
  obtain e r' where l: "lookup_read (clock w) k (rds w) = (e, r')" by (cases "lookup_read (clock w) k (rds w)")
  then have "r_view (clock w) r' = r_view (clock w) (rds w)" by (auto dest: lookup_read_view)
  with assms l show ?thesis
    by (simp add: world_inv_def cache_bounded_def redis_inv_lookup_read [of "rds w" "clock w" k e r'])
qed

lemma world_inv_set_notes:
  assumes "world_inv w" "set_notes (clock w) ns (rds w) = Inr r2"
  shows "world_inv (w\<lparr>rds := r2\<rparr>)"
  using assms by (auto simp: world_inv_def cache_bounded_def redis_inv_def set_notes_eq distinct_update
    split: if_splits)

lemma world_inv_invalidate:
  assumes "world_inv w" "invalidate_notes (rds w) = Inr r'"
  shows "world_inv (w\<lparr>rds := r'\<rparr>)"
  using assms by (auto simp: world_inv_def cache_bounded_def redis_inv_def invalidate_notes_eq distinct_delete
    split: if_splits)

lemma world_inv_pg:
  assumes "world_inv w" "store_inv (clock w) db'"
  shows "world_inv (w\<lparr>pg := db'\<rparr>)"
  using assms by (simp add: world_inv_def cache_bounded_def)

lemma thread_step_world_inv:
  assumes "world_inv w"
  shows "world_inv (snd (thread_step th w))"
proof (cases th)
  case ListStart
  with assms show ?thesis
    by (simp add: get_notes_eq world_inv_lookup split: option.split)
next
  case (ListHit ns)
  with assms show ?thesis
    by (simp add: get_notes_ttl_eq world_inv_lookup)
next
  case ListMiss
  with assms show ?thesis by (simp split: sum.split)
next
  case (ListFill ns)
  with assms show ?thesis by (auto simp: world_inv_set_notes split: sum.split)
next
  case (CreateStart req)
  with assms show ?thesis
    by (auto simp: world_inv_def cache_bounded_def intro: store_inv_insert
        split: option.split sum.split prod.split if_split)
next
  case (CreateInvalidate i c a t)
  with assms show ?thesis by (auto simp: world_inv_invalidate split: sum.split)
next
  case (DeleteStart i)
  with assms show ?thesis
    by (auto simp: world_inv_def cache_bounded_def intro: store_inv_delete
        split: sum.split prod.split bool.split)
next
  case (DeleteInvalidate i)
  with assms show ?thesis by (auto simp: world_inv_invalidate split: sum.split)
next
  case (Atomic q)
  with assms handle_world_inv [of w q] show ?thesis by (cases "handle q w") simp
next
  case (Done r)
  with assms show ?thesis by simp
qed

lemma list_notes_ttl_ok:
  assumes "world_inv w"
  shows "cache_ttl_ok (Done (fst (list_notes w)))"
proof (cases "r_up (rds w)")
  case False
  then show ?thesis by (simp add: list_notes_down cache_ttl_ok_def)
next
  case up: True
  show ?thesis
  proof (cases "notes_entry w")
    case None
    then show ?thesis
      by (auto simp: list_notes_def get_notes_eq cache_ttl_ok_def split: sum.split)
  next
    case (Some p)
    obtain ns e where p: "p = (ns, e)" by (cases p)
    have "entry_bounded (clock w) (notes_entry w)" using assms by (simp add: world_inv_def cache_bounded_def)
    from ttl_reply_view_bounded [OF this] Some p
    show ?thesis by (simp add: list_notes_hit [OF up] cache_ttl_ok_def)
  qed
qed

lemma handle_ttl_ok:
  assumes "world_inv w"
  shows "cache_ttl_ok (Done (fst (handle q w)))"
proof (cases q)
  case GetNotes
  with assms show ?thesis by (simp add: list_notes_ttl_ok)
next
  case (PostNotes req)
  then show ?thesis
    by (auto simp: create_note_def cache_ttl_ok_def split: option.split sum.split prod.split)
next
  case (DeleteNotes i)
  then show ?thesis
    by (auto simp: delete_note_def cache_ttl_ok_def split: sum.split prod.split bool.split)
qed (auto simp: system_eval cache_ttl_ok_def Let_def split: sum.split prod.split)

lemma thread_step_ttl_ok:
  assumes "world_inv w" "cache_ttl_ok th"
  shows "cache_ttl_ok (fst (thread_step th w))"
proof (cases th)
  case (ListHit ns)
  have "entry_bounded (clock w) (notes_entry w)" using assms(1) by (simp add: world_inv_def cache_bounded_def)
  from ttl_reply_view_bounded [OF this] ListHit show ?thesis
    by (simp add: get_notes_ttl_eq cache_ttl_ok_def)
next
  case (Atomic q)
  with handle_ttl_ok [OF assms(1), of q] show ?thesis by (cases "handle q w") simp
next
  case (Done r)
  with assms(2) show ?thesis by simp
qed (auto simp: cache_ttl_ok_def split: sum.split option.split prod.split bool.split if_split)

lemma reach_inv:
  assumes "reach c"
  shows "world_inv (shared c) \<and> (\<forall>th\<in>set (threads c). cache_ttl_ok th)"
  using assms
proof (induction rule: reach.induct)
  case (reach_start w)
  then show ?case by simp
next
  case (reach_step c s)
  show ?case
  proof (cases s)
    case (Arrive q)
    with reach_step.IH show ?thesis by (cases q) (auto simp: cache_ttl_ok_def)
  next
    case (Run i)
    show ?thesis
    proof (cases "i < length (threads c)")
      case True
      let ?th = "threads c ! i"
      have ok: "cache_ttl_ok ?th" using reach_step.IH True by simp
      obtain th' w' where ts: "thread_step ?th (shared c) = (th', w')" by (cases "thread_step ?th (shared c)")
      have "world_inv w'" using thread_step_world_inv [of "shared c" ?th] reach_step.IH ts by simp
      moreover have "cache_ttl_ok th'" using thread_step_ttl_ok [of "shared c" ?th] reach_step.IH ok ts by simp
      moreover have "set ((threads c)[i := th']) \<subseteq> insert th' (set (threads c))"
        by (rule set_update_subset_insert)
      ultimately show ?thesis using reach_step.IH Run True ts by auto
    next
      case False
      with Run reach_step.IH show ?thesis by simp
    qed
  next
    case (Env e)
    with reach_step.IH show ?thesis by (simp add: step_world_inv)
  qed
qed

lemma reach_exec: "reach c \<Longrightarrow> reach (conc_exec c ss)"
  by (induction ss arbitrary: c) (simp_all add: reach.reach_step)

lemma reach_booted: "reach \<lparr>threads = [], shared = world_initial\<lparr>pg := pg_initial\<lparr>table_exists := True\<rparr>\<rparr>\<rparr>"
  by (rule reach_start) (simp add: run_eval)

subsection \<open>Lemmas: serial schedules\<close>

lemma step_n_handle: "step_n 3 (thread_of q) w = (Done (fst (handle q w)), snd (handle q w))"
proof (cases q)
  case GetNotes
  then show ?thesis
    by (simp add: list_notes_def eval_nat_numeral split: sum.split option.split prod.split)
next
  case (PostNotes req)
  then show ?thesis
    by (simp add: create_note_def eval_nat_numeral split: sum.split option.split prod.split)
next
  case (DeleteNotes i)
  then show ?thesis
    by (simp add: delete_note_def eval_nat_numeral split: sum.split bool.split prod.split)
qed (simp_all add: eval_nat_numeral split: prod.split)

lemma conc_exec_append: "conc_exec c (xs @ ys) = conc_exec (conc_exec c xs) ys"
  by (induction xs arbitrary: c) simp_all

lemma conc_exec_runs:
  assumes "n < length (threads c)"
  shows "conc_exec c (replicate k (Run n)) =
           (case step_n k (threads c ! n) (shared c) of
              (th', w') \<Rightarrow> c\<lparr>threads := (threads c)[n := th'], shared := w'\<rparr>)"
  using assms
proof (induction k arbitrary: c)
  case 0
  then show ?case by simp
next
  case (Suc k)
  obtain th1 w1 where t: "thread_step (threads c ! n) (shared c) = (th1, w1)"
    by (cases "thread_step (threads c ! n) (shared c)")
  let ?c1 = "c\<lparr>threads := (threads c)[n := th1], shared := w1\<rparr>"
  have c1: "conc_step c (Run n) = ?c1" using Suc.prems t by simp
  have "conc_exec ?c1 (replicate k (Run n)) =
          (case step_n k th1 w1 of (th', w') \<Rightarrow> ?c1\<lparr>threads := (threads ?c1)[n := th'], shared := w'\<rparr>)"
    using Suc.IH [of ?c1] Suc.prems by simp
  then show ?case using c1 t by (simp split: prod.split)
qed

lemma serial_sched_exec:
  "length (threads c) = n \<Longrightarrow>
   shared (conc_exec c (serial_sched n qs)) = run (shared c) (map Request qs)"
proof (induction qs arbitrary: c n)
  case Nil
  then show ?case by simp
next
  case (Cons q qs)
  let ?c1 = "c\<lparr>threads := threads c @ [thread_of q]\<rparr>"
  obtain res w' where h: "handle q (shared c) = (res, w')" by (cases "handle q (shared c)")
  have s: "step_n 3 (thread_of q) (shared c) = (Done res, w')"
    using step_n_handle [of q "shared c"] h by simp
  let ?c2 = "?c1\<lparr>threads := (threads ?c1)[n := Done res], shared := w'\<rparr>"
  have nth: "(threads c @ [thread_of q]) ! n = thread_of q" using Cons.prems by (simp add: nth_append)
  have r3: "conc_exec ?c1 (replicate 3 (Run n)) = ?c2"
    using conc_exec_runs [of n ?c1 3] Cons.prems s nth by simp
  have "conc_exec c (serial_sched n (q # qs)) = conc_exec (conc_exec ?c1 (replicate 3 (Run n))) (serial_sched (Suc n) qs)"
    by (simp add: conc_exec_append)
  also have "\<dots> = conc_exec ?c2 (serial_sched (Suc n) qs)" by (simp only: r3)
  finally have e: "conc_exec c (serial_sched n (q # qs)) = conc_exec ?c2 (serial_sched (Suc n) qs)" .
  have "length (threads ?c2) = Suc n" using Cons.prems by simp
  from Cons.IH [OF this] e h show ?case by simp
qed

subsection \<open>Lemmas: two workers racing\<close>

lemma conc_exec_run2:
  assumes "i < length (threads c)" "j < length (threads c)"
  shows "conc_exec c [Run j, Run i] =
    (case thread_step (threads c ! j) (shared c) of (tj, w1) \<Rightarrow>
     case thread_step (((threads c)[j := tj]) ! i) w1 of (ti, w2) \<Rightarrow>
       c\<lparr>threads := (threads c)[j := tj, i := ti], shared := w2\<rparr>)"
  using assms by (simp split: prod.split)

lemma conc_exec_fill_race:
  assumes "i < length (threads c)" "j < length (threads c)" "i \<noteq> j"
    and "threads c ! i = ListFill ns" "threads c ! j = CreateInvalidate k cn a t"
    and "r_up (rds (shared c))"
  shows "conc_exec c [Run j, Env (Tick d), Run i] =
    c\<lparr>threads := (threads c)[j := Done (Inr (201, NoteBody k cn a t)),
                             i := Done (Inr (200, NotesBody ns FromDatabase (int CACHE_TTL)))],
      shared := (shared c)\<lparr>clock := clock (shared c) + d,
        rds := (rds (shared c))\<lparr>kv := AList.update NOTES_CACHE_KEY
                  (ns, Some (clock (shared c) + d + CACHE_TTL * 1000))
                  (AList.delete NOTES_CACHE_KEY (kv (rds (shared c))))\<rparr>\<rparr>\<rparr>"
  using assms by (simp add: invalidate_notes_eq set_notes_eq)

subsection \<open>Properties of the interleaved service\<close>

text \<open>Equivalence with the sequential handlers (a consistency check of the two models). Run without interference, the atomic
  steps of a request's thread give exactly the response and the state of the handler of
  the sequential model, for every request; three steps always suffice.\<close>

theorem solo_handle: "solo 3 (thread_of q) w = Some (handle q w)"
proof (cases q)
  case GetNotes
  then show ?thesis
    by (simp add: list_notes_def eval_nat_numeral split: sum.split option.split prod.split)
next
  case (PostNotes req)
  then show ?thesis
    by (simp add: create_note_def eval_nat_numeral split: sum.split option.split prod.split)
next
  case (DeleteNotes i)
  then show ?thesis
    by (simp add: delete_note_def eval_nat_numeral split: sum.split bool.split prod.split)
qed (simp_all add: eval_nat_numeral split: prod.split)

text \<open>C4: The service invariant under interleaving. In every configuration reachable by
  any interleaving of request steps, arrivals and environment events, the shared state
  satisfies \<open>world_inv\<close>: the store invariant, distinct Redis keys, and a notes entry that
  expires within \<open>CACHE_TTL\<close> seconds of now.\<close>

theorem reach_world_inv:
  assumes "reach c"
  shows "world_inv (shared c)"
  using reach_inv [OF assms] by simp

theorem reach_world_inv_witness:
  "reach (conc_exec \<lparr>threads = [], shared = world_initial\<lparr>pg := pg_initial\<lparr>table_exists := True\<rparr>\<rparr>\<rparr>
     [Arrive GetNotes, Run 0, Run 0, Arrive (PostNotes (Some (JObj [(''content'', JStr ''hi'')]))), Run 1, Run 1, Run 0]) \<and>
   world_inv (shared (conc_exec \<lparr>threads = [], shared = world_initial\<lparr>pg := pg_initial\<lparr>table_exists := True\<rparr>\<rparr>\<rparr>
     [Arrive GetNotes, Run 0, Run 0, Arrive (PostNotes (Some (JObj [(''content'', JStr ''hi'')]))), Run 1, Run 1, Run 0]))"
proof -
  let ?S = "[Arrive GetNotes, Run 0, Run 0, Arrive (PostNotes (Some (JObj [(''content'', JStr ''hi'')]))), Run 1, Run 1, Run 0]"
  have r: "reach (conc_exec \<lparr>threads = [], shared = world_initial\<lparr>pg := pg_initial\<lparr>table_exists := True\<rparr>\<rparr>\<rparr> ?S)" by (rule reach_exec [OF reach_booted])
  from r reach_world_inv [OF r] show ?thesis by blast
qed

text \<open>C12: Reported TTL under interleaving. Every response of \<open>GET /notes\<close> served from
  the cache, in any interleaving, reports a \<open>cache_ttl\<close> of at most \<open>CACHE_TTL\<close>
  seconds, and never \<open>-1\<close>: it is either between 0 and \<open>CACHE_TTL\<close> or \<open>-2\<close>.\<close>

theorem reach_cache_ttl:
  assumes "reach c" "Done (Inr (code, NotesBody ns FromCache t)) \<in> set (threads c)"
  shows "t = -2 \<or> (0 \<le> t \<and> t \<le> int CACHE_TTL)"
  using reach_inv [OF assms(1)] assms(2) by (force simp: cache_ttl_ok_def)

theorem reach_cache_ttl_witness:
  "reach (conc_exec \<lparr>threads = [], shared = world_initial\<lparr>pg := pg_initial\<lparr>table_exists := True\<rparr>\<rparr>\<rparr> [Env (Request GetNotes), Arrive GetNotes, Run 0, Run 0]) \<and>
   Done (Inr (200, NotesBody [] FromCache 15)) \<in>
     set (threads (conc_exec \<lparr>threads = [], shared = world_initial\<lparr>pg := pg_initial\<lparr>table_exists := True\<rparr>\<rparr>\<rparr> [Env (Request GetNotes), Arrive GetNotes, Run 0, Run 0])) \<and>
   (15 = (-2::int) \<or> (0 \<le> (15::int) \<and> (15::int) \<le> int CACHE_TTL))"
proof -
  let ?S = "[Env (Request GetNotes), Arrive GetNotes, Run 0, Run 0]"
  have r: "reach (conc_exec \<lparr>threads = [], shared = world_initial\<lparr>pg := pg_initial\<lparr>table_exists := True\<rparr>\<rparr>\<rparr> ?S)" by (rule reach_exec [OF reach_booted])
  have m: "Done (Inr (200, NotesBody [] FromCache 15)) \<in> set (threads (conc_exec \<lparr>threads = [], shared = world_initial\<lparr>pg := pg_initial\<lparr>table_exists := True\<rparr>\<rparr>\<rparr> ?S))"
    by (simp add: run_eval)
  from reach_cache_ttl [OF r m] r m show ?thesis by blast
qed

text \<open>C3: The cache-fill race makes a stale entry outlive the TTL. In any configuration of
  the worker pool where a \<open>GET\<close> has read a list that is no longer the table's (it is
  about to \<open>SETEX\<close> it) and a \<open>POST\<close> has committed its row (it is about to invalidate),
  if the \<open>POST\<close> invalidates first and the reader writes \<open>d\<close> milliseconds later, both
  requests succeed, the cache holds the old list with a full TTL from the late write, the
  cache is not fresh, and a \<open>GET\<close> at the very end of that TTL, \<open>d\<close> ms plus
  \<open>CACHE_TTL\<close> after the \<open>POST\<close> answered, is still served the old list: staleness is
  not bounded by \<open>CACHE_TTL\<close>.\<close>

theorem interleaved_fill_stale:
  assumes "i < length (threads c)" "j < length (threads c)" "i \<noteq> j"
    and "threads c ! i = ListFill ns" "threads c ! j = CreateInvalidate k cn a t"
    and "r_up (rds (shared c))" "ns \<noteq> newest_first (rows (pg (shared c)))"
  shows "threads (conc_exec c [Run j, Env (Tick d), Run i]) ! j = Done (Inr (201, NoteBody k cn a t)) \<and>
         threads (conc_exec c [Run j, Env (Tick d), Run i]) ! i =
           Done (Inr (200, NotesBody ns FromDatabase (int CACHE_TTL))) \<and>
         notes_entry (shared (conc_exec c [Run j, Env (Tick d), Run i])) =
           Some (ns, Some (clock (shared c) + d + CACHE_TTL * 1000)) \<and>
         \<not> cache_fresh (shared (conc_exec c [Run j, Env (Tick d), Run i])) \<and>
         fst (list_notes ((shared (conc_exec c [Run j, Env (Tick d), Run i]))
                \<lparr>clock := clock (shared c) + d + CACHE_TTL * 1000\<rparr>)) =
           Inr (200, NotesBody ns FromCache 0)"
proof -
  let ?T = "clock (shared c) + d + CACHE_TTL * 1000"
  let ?w = "shared (conc_exec c [Run j, Env (Tick d), Run i])"
  note e = conc_exec_fill_race [OF assms(1-6), of d]
  have ent: "notes_entry ?w = Some (ns, Some ?T)"
    unfolding e by (simp add: expired_def r_view_def update_conv')
  have ent': "notes_entry (?w\<lparr>clock := ?T\<rparr>) = Some (ns, Some ?T)"
    unfolding e by (simp add: expired_def r_view_def update_conv')
  have up: "r_up (rds (?w\<lparr>clock := ?T\<rparr>))" using assms(6) unfolding e by simp
  have rows: "rows (pg ?w) = rows (pg (shared c))" unfolding e by simp
  show ?thesis
    using assms(1-3,7) ent rows list_notes_hit [OF up ent'] unfolding e
    by (simp add: cache_fresh_def entry_fresh_def ttl_reply_def)
qed

theorem interleaved_fill_stale_witness:
  "reach (conc_exec \<lparr>threads = [], shared = world_initial\<lparr>pg := pg_initial\<lparr>table_exists := True\<rparr>\<rparr>\<rparr> [Arrive GetNotes, Run 0, Run 0, Arrive (PostNotes (Some (JObj [(''content'', JStr ''hi'')]))), Run 1]) \<and>
   fst (list_notes ((shared (conc_exec (conc_exec \<lparr>threads = [], shared = world_initial\<lparr>pg := pg_initial\<lparr>table_exists := True\<rparr>\<rparr>\<rparr> [Arrive GetNotes, Run 0, Run 0, Arrive (PostNotes (Some (JObj [(''content'', JStr ''hi'')]))), Run 1]) [Run 1, Env (Tick 100000), Run 0]))
     \<lparr>clock := 115000\<rparr>)) = Inr (200, NotesBody [] FromCache 0) \<and>
   rows (pg (shared (conc_exec \<lparr>threads = [], shared = world_initial\<lparr>pg := pg_initial\<lparr>table_exists := True\<rparr>\<rparr>\<rparr> [Arrive GetNotes, Run 0, Run 0, Arrive (PostNotes (Some (JObj [(''content'', JStr ''hi'')]))), Run 1]))) = [\<lparr>note_id = 1, content = ''hi'', author = ''Anonymous'', created_at = 0\<rparr>]"
proof -
  define c where "c = conc_exec \<lparr>threads = [], shared = world_initial\<lparr>pg := pg_initial\<lparr>table_exists := True\<rparr>\<rparr>\<rparr> [Arrive GetNotes, Run 0, Run 0, Arrive (PostNotes (Some (JObj [(''content'', JStr ''hi'')]))), Run 1]"
  have r: "reach c" unfolding c_def by (rule reach_exec [OF reach_booted])
  have t: "threads c = [ListFill [], CreateInvalidate 1 ''hi'' ''Anonymous'' 0]"
    unfolding c_def by (simp add: run_eval)
  have up: "r_up (rds (shared c))" unfolding c_def by (simp add: run_eval)
  have rows: "rows (pg (shared c)) = [\<lparr>note_id = 1, content = ''hi'', author = ''Anonymous'', created_at = 0\<rparr>]"
    unfolding c_def by (simp add: run_eval)
  have cl: "clock (shared c) = 0" unfolding c_def by (simp add: run_eval)
  have ne: "[] \<noteq> newest_first (rows (pg (shared c)))" by (simp add: rows newest_first_def)
  have "fst (list_notes ((shared (conc_exec c [Run 1, Env (Tick 100000), Run 0]))
          \<lparr>clock := clock (shared c) + 100000 + CACHE_TTL * 1000\<rparr>)) = Inr (200, NotesBody [] FromCache 0)"
    using interleaved_fill_stale [of 0 c 1 "[]" 1 "''hi''" "''Anonymous''" 0 100000] t up ne by simp
  then have "fst (list_notes ((shared (conc_exec c [Run 1, Env (Tick 100000), Run 0]))
          \<lparr>clock := 115000\<rparr>)) = Inr (200, NotesBody [] FromCache 0)"
    by (simp only: cl CACHE_TTL_def) simp
  with r rows show ?thesis unfolding c_def by blast
qed

text \<open>C13: A cache hit can report \<open>cache_ttl = -2\<close>. In any configuration where a \<open>GET\<close>
  has read a live entry (it is about to ask for its TTL) and a \<open>POST\<close> or \<open>DELETE\<close> is
  about to invalidate the cache, with Redis up, if the invalidation runs first the
  \<open>GET\<close> answers with the list from the cache and \<open>cache_ttl = -2\<close>, Redis's reply for a
  missing key.\<close>

theorem interleaved_ttl_minus_two:
  assumes "i < length (threads c)" "j < length (threads c)" "i \<noteq> j"
    and "threads c ! i = ListHit ns"
    and "threads c ! j = CreateInvalidate k cn a t \<or> threads c ! j = DeleteInvalidate k"
    and "r_up (rds (shared c))"
  shows "threads (conc_exec c [Run j, Run i]) ! i = Done (Inr (200, NotesBody ns FromCache (-2)))"
  using assms
  by (auto simp: conc_exec_run2 invalidate_notes_eq get_notes_ttl_eq ttl_reply_def lookup_read_def
      Let_def expire_if_needed_def split: prod.split)

theorem interleaved_ttl_minus_two_witness:
  "reach (conc_exec \<lparr>threads = [], shared = world_initial\<lparr>pg := pg_initial\<lparr>table_exists := True\<rparr>\<rparr>\<rparr> [Env (Request GetNotes), Arrive GetNotes, Run 0, Arrive (PostNotes (Some (JObj [(''content'', JStr ''hi'')]))), Run 1]) \<and>
   threads (conc_exec (conc_exec \<lparr>threads = [], shared = world_initial\<lparr>pg := pg_initial\<lparr>table_exists := True\<rparr>\<rparr>\<rparr> [Env (Request GetNotes), Arrive GetNotes, Run 0, Arrive (PostNotes (Some (JObj [(''content'', JStr ''hi'')]))), Run 1]) [Run 1, Run 0]) ! 0 = Done (Inr (200, NotesBody [] FromCache (-2)))"
proof -
  define c where "c = conc_exec \<lparr>threads = [], shared = world_initial\<lparr>pg := pg_initial\<lparr>table_exists := True\<rparr>\<rparr>\<rparr> [Env (Request GetNotes), Arrive GetNotes, Run 0, Arrive (PostNotes (Some (JObj [(''content'', JStr ''hi'')]))), Run 1]"
  have r: "reach c" unfolding c_def by (rule reach_exec [OF reach_booted])
  have t: "threads c = [ListHit [], CreateInvalidate 1 ''hi'' ''Anonymous'' 0]"
    unfolding c_def by (simp add: run_eval)
  have up: "r_up (rds (shared c))" unfolding c_def by (simp add: run_eval)
  have "threads (conc_exec c [Run 1, Run 0]) ! 0 = Done (Inr (200, NotesBody [] FromCache (-2)))"
    using interleaved_ttl_minus_two [of 0 c 1 "[]" 1 "''hi''" "''Anonymous''" 0] t up by simp
  with r show ?thesis unfolding c_def by blast
qed

text \<open>Equivalence of the serial schedule with the sequential service (a consistency check of
  the two models). When every
  request is handed to a fresh worker that runs to completion before the next request
  arrives, the shared state after the whole schedule is the state the sequential service
  reaches on the same requests.\<close>

theorem serial_schedule_sequential:
  "shared (conc_exec \<lparr>threads = [], shared = w\<rparr> (serial_sched 0 qs)) = run w (map Request qs)"
  using serial_sched_exec [of "\<lparr>threads = [], shared = w\<rparr>" 0 qs] by simp

end
