(* ===== verification/Bootstrap.thy ===== *)
theory Bootstrap
  imports World
begin

text \<open>
  \<open>main.py\<close>: before the app is created, up to ten attempts to run \<open>init_db\<close>, two
  seconds apart; after the tenth failure the process exits with status 1. Whether
  PostgreSQL accepts connections at attempt \<open>k\<close> is the environment's answer
  \<open>avail k\<close>. The loop is structural recursion on the attempts left, so it terminates
  by construction; what is proved is when it starts the app and in which state.
\<close>

datatype boot_result = Started nat world | SystemExit

text \<open>\<open>k\<close> counts the attempts made so far, \<open>n\<close> those left.\<close>

fun boot_loop :: "nat \<Rightarrow> nat \<Rightarrow> (nat \<Rightarrow> bool) \<Rightarrow> world \<Rightarrow> boot_result" where
  "boot_loop k 0 avail w = SystemExit"
| "boot_loop k (Suc n) avail w =
     (case init_db ((pg w)\<lparr>pg_up := avail k\<rparr>) of
        Inr db' \<Rightarrow> Started k (w\<lparr>pg := db'\<rparr>)
      | Inl e \<Rightarrow> boot_loop (Suc k) n avail (w\<lparr>clock := clock w + 2000, pg := (pg w)\<lparr>pg_up := avail k\<rparr>\<rparr>))"

definition main_boot :: "(nat \<Rightarrow> bool) \<Rightarrow> world \<Rightarrow> boot_result" where
  "main_boot avail w = boot_loop 0 10 avail w"

lemma first_index_shift:
  assumes "\<not> avail k"
  shows "(Suc k \<le> m \<and> m < Suc k + n \<and> avail m \<and> (\<forall>j. Suc k \<le> j \<and> j < m \<longrightarrow> \<not> avail j)) \<longleftrightarrow>
         (k \<le> m \<and> m < k + Suc n \<and> avail m \<and> (\<forall>j. k \<le> j \<and> j < m \<longrightarrow> \<not> avail j))"
proof
  assume a: "Suc k \<le> m \<and> m < Suc k + n \<and> avail m \<and> (\<forall>j. Suc k \<le> j \<and> j < m \<longrightarrow> \<not> avail j)"
  have "\<forall>j. k \<le> j \<and> j < m \<longrightarrow> \<not> avail j"
  proof (intro allI impI)
    fix j assume j: "k \<le> j \<and> j < m"
    show "\<not> avail j"
    proof (cases "j = k")
      case True with assms show ?thesis by simp
    next
      case False with j a show ?thesis by simp
    qed
  qed
  with a show "k \<le> m \<and> m < k + Suc n \<and> avail m \<and> (\<forall>j. k \<le> j \<and> j < m \<longrightarrow> \<not> avail j)" by simp
next
  assume a: "k \<le> m \<and> m < k + Suc n \<and> avail m \<and> (\<forall>j. k \<le> j \<and> j < m \<longrightarrow> \<not> avail j)"
  with assms have "m \<noteq> k" by auto
  with a have "Suc k \<le> m" by simp
  with a show "Suc k \<le> m \<and> m < Suc k + n \<and> avail m \<and> (\<forall>j. Suc k \<le> j \<and> j < m \<longrightarrow> \<not> avail j)" by simp
qed

lemma first_index_here:
  assumes "avail k"
  shows "(k \<le> m \<and> m < k + Suc n \<and> avail m \<and> (\<forall>j. k \<le> j \<and> j < m \<longrightarrow> \<not> avail j)) \<longleftrightarrow> m = k"
proof
  assume a: "k \<le> m \<and> m < k + Suc n \<and> avail m \<and> (\<forall>j. k \<le> j \<and> j < m \<longrightarrow> \<not> avail j)"
  show "m = k"
  proof (rule ccontr)
    assume "m \<noteq> k"
    with a have "k < m" by simp
    with a assms show False by blast
  qed
next
  assume "m = k"
  with assms show "k \<le> m \<and> m < k + Suc n \<and> avail m \<and> (\<forall>j. k \<le> j \<and> j < m \<longrightarrow> \<not> avail j)" by auto
qed

text \<open>The first attempt, from \<open>k\<close> on and among the next \<open>n\<close>, at which PostgreSQL
  accepts connections: the attempt at which the loop starts the app.\<close>

fun first_avail :: "nat \<Rightarrow> nat \<Rightarrow> (nat \<Rightarrow> bool) \<Rightarrow> nat option" where
  "first_avail k 0 avail = None"
| "first_avail k (Suc n) avail = (if avail k then Some k else first_avail (Suc k) n avail)"

lemma first_avail_Some:
  "first_avail k n avail = Some m \<longleftrightarrow>
     k \<le> m \<and> m < k + n \<and> avail m \<and> (\<forall>j. k \<le> j \<and> j < m \<longrightarrow> \<not> avail j)"
proof (induction n arbitrary: k)
  case 0
  then show ?case by simp
next
  case (Suc n)
  show ?case
  proof (cases "avail k")
    case True
    then show ?thesis using first_index_here [where avail = avail and k = k and m = m and n = n]
      by auto
  next
    case False
    then show ?thesis using first_index_shift [where avail = avail and k = k and m = m and n = n]
      by (simp add: Suc.IH)
  qed
qed

lemma first_avail_None:
  "first_avail k n avail = None \<longleftrightarrow> (\<forall>j. k \<le> j \<and> j < k + n \<longrightarrow> \<not> avail j)"
proof (induction n arbitrary: k)
  case 0
  then show ?case by auto
next
  case (Suc n)
  show ?case
  proof (cases "avail k")
    case True
    then show ?thesis by auto
  next
    case False
    have "(\<forall>j. Suc k \<le> j \<and> j < Suc k + n \<longrightarrow> \<not> avail j) \<longleftrightarrow> (\<forall>j. k \<le> j \<and> j < k + Suc n \<longrightarrow> \<not> avail j)"
      using False by (metis Suc_le_eq add_Suc add_Suc_right le_eq_less_or_eq)
    with False show ?thesis by (simp add: Suc.IH)
  qed
qed

lemma first_avail_ge: "first_avail k n avail = Some m \<Longrightarrow> k \<le> m"
  by (simp add: first_avail_Some)

text \<open>The world after a start at attempt \<open>m\<close>: one two-second sleep per failed attempt,
  the server reachable and the table created.\<close>

definition booted :: "nat \<Rightarrow> nat \<Rightarrow> world \<Rightarrow> world" where
  "booted k m w = w\<lparr>clock := clock w + 2000 * (m - k), pg := (pg w)\<lparr>pg_up := True, table_exists := True\<rparr>\<rparr>"

lemma booted_step: "Suc k \<le> m \<Longrightarrow>
  booted (Suc k) m (w\<lparr>clock := clock w + 2000, pg := (pg w)\<lparr>pg_up := False\<rparr>\<rparr>) = booted k m w"
proof -
  assume "Suc k \<le> m"
  then obtain d where m: "m = Suc k + d" using le_Suc_ex by blast
  show ?thesis by (simp add: booted_def m)
qed

lemma boot_loop_first_avail:
  "boot_loop k n avail w =
     (case first_avail k n avail of None \<Rightarrow> SystemExit | Some m \<Rightarrow> Started m (booted k m w))"
proof (induction n arbitrary: k w)
  case 0
  then show ?case by simp
next
  case (Suc n)
  show ?case
  proof (cases "avail k")
    case True
    then show ?thesis by (simp add: init_db_def booted_def)
  next
    case False
    let ?w2 = "w\<lparr>clock := clock w + 2000, pg := (pg w)\<lparr>pg_up := False\<rparr>\<rparr>"
    have "boot_loop k (Suc n) avail w = boot_loop (Suc k) n avail ?w2"
      using False by (simp add: init_db_def)
    also have "\<dots> = (case first_avail (Suc k) n avail of None \<Rightarrow> SystemExit
                      | Some m \<Rightarrow> Started m (booted (Suc k) m ?w2))"
      by (rule Suc.IH)
    also have "\<dots> = (case first_avail (Suc k) n avail of None \<Rightarrow> SystemExit
                      | Some m \<Rightarrow> Started m (booted k m w))"
      by (auto split: option.split dest: first_avail_ge simp: booted_step)
    finally show ?thesis using False by simp
  qed
qed

lemma main_boot_eq:
  "main_boot avail w =
     (case first_avail 0 10 avail of None \<Rightarrow> SystemExit | Some m \<Rightarrow> Started m (booted 0 m w))"
  by (simp add: main_boot_def boot_loop_first_avail)

subsection \<open>Properties of the start-up loop\<close>

text \<open>C25: \<open>main.py\<close> starts the app exactly when PostgreSQL accepts connections at one of
  the ten attempts, and then at the first such attempt \<open>m\<close>, after \<open>m\<close> sleeps of two
  seconds, with the server reachable and the \<open>notes\<close> table created.
\<close>

theorem main_boot_Started:
  "main_boot avail w = Started m w' \<longleftrightarrow>
     m < 10 \<and> avail m \<and> (\<forall>j<m. \<not> avail j) \<and>
     w' = w\<lparr>clock := clock w + 2000 * m, pg := (pg w)\<lparr>pg_up := True, table_exists := True\<rparr>\<rparr>"
proof -
  have "main_boot avail w = Started m w' \<longleftrightarrow> first_avail 0 10 avail = Some m \<and> w' = booted 0 m w"
    by (auto simp: main_boot_eq split: option.split)
  then show ?thesis by (simp add: first_avail_Some booted_def)
qed

theorem main_boot_Started_witness:
  "main_boot (\<lambda>k. 3 \<le> k) world_initial =
     Started 3 (world_initial\<lparr>clock := 6000, pg := pg_initial\<lparr>pg_up := True, table_exists := True\<rparr>\<rparr>)"
  using main_boot_Started [of "\<lambda>k. 3 \<le> k" world_initial 3
      "world_initial\<lparr>clock := 6000, pg := pg_initial\<lparr>pg_up := True, table_exists := True\<rparr>\<rparr>"]
  by (simp add: world_initial_def)

text \<open>C26: the process exits (\<open>raise SystemExit(1)\<close>) exactly when all ten attempts find
  PostgreSQL unreachable; the loop always ends with one of the two outcomes.
\<close>

theorem main_boot_SystemExit:
  "main_boot avail w = SystemExit \<longleftrightarrow> (\<forall>j<10. \<not> avail j)"
proof -
  have "main_boot avail w = SystemExit \<longleftrightarrow> first_avail 0 10 avail = None"
    by (simp add: main_boot_eq split: option.split)
  then show ?thesis by (simp add: first_avail_None)
qed

theorem main_boot_SystemExit_witness:
  "main_boot (\<lambda>k. False) world_initial = SystemExit"
  using main_boot_SystemExit [of "\<lambda>k. False" world_initial] by simp

end
