(* ===== verification/Router.thy ===== *)
theory Router
  imports Service Bootstrap
begin

text \<open>
  The Flask application around the handlers: \<open>create_app\<close> (\<open>app/__init__.py\<close>) builds
  the app, whose constructor adds the static-file route, and \<open>register_routes\<close>
  (\<open>app/routes/__init__.py\<close>) registers the \<open>ui\<close>, \<open>notes\<close> and \<open>system\<close> blueprints in
  that order. Each blueprint route becomes a URL rule: the blueprint's \<open>url_prefix\<close> is
  joined to the rule, \<open>OPTIONS\<close> is added (automatic options) and \<open>HEAD\<close> where \<open>GET\<close> is
  allowed. A request is matched against the rules as Werkzeug's URL map does: a rule
  whose path and method match is dispatched to its view; a path that matches only with a
  trailing slash added is redirected (308); a path that matches with other methods only is
  refused (405); a path that matches once its doubled slashes are merged is redirected
  to the merged path (308); anything else is 404. \<open>routes/ui.py\<close> is not among the sources, so the
  \<open>ui\<close> blueprint is a parameter. Paths are the decoded request paths.
\<close>

datatype http_method = GET | HEAD | POST | PUT | PATCH | DELETE | OPTIONS

datatype endpoint =
    EStatic | EUi string | EListNotes | ECreateNote | EDeleteNote | EHealth | EStats | EFlush

subsection \<open>URL rules\<close>

text \<open>A rule or path is split at \<open>/\<close> after its leading slash; a part of a rule is a
  static string or a converter: \<open><int:..>\<close> (\<open>\d+\<close>, read with \<open>int\<close>), \<open><path:..>\<close>
  (\<open>[^/].*?\<close>, the rest of the path) or any other \<open><..>\<close>, the string converter
  (\<open>[^/]+\<close>).\<close>

datatype seg = SStatic string | SInt | SPath | SStr

fun split_slash :: "string \<Rightarrow> string list" where
  "split_slash [] = [[]]"
| "split_slash (c # cs) =
     (if c = CHR ''/'' then [] # split_slash cs
      else (case split_slash cs of w # ws \<Rightarrow> (c # w) # ws | [] \<Rightarrow> [[c]]))"

definition path_parts :: "string \<Rightarrow> string list" where
  "path_parts p = split_slash (case p of c # q \<Rightarrow> if c = CHR ''/'' then q else p | [] \<Rightarrow> [])"

definition parse_seg :: "string \<Rightarrow> seg" where
  "parse_seg s =
     (if strip_prefix ''<int:'' s \<noteq> None then SInt
      else if strip_prefix ''<path:'' s \<noteq> None then SPath
      else if strip_prefix ''<'' s \<noteq> None then SStr
      else SStatic s)"

definition rule_segs :: "string \<Rightarrow> seg list" where
  "rule_segs r = map parse_seg (path_parts r)"

datatype arg = AInt nat | APath string | AStr string

fun segs_match :: "seg list \<Rightarrow> string list \<Rightarrow> arg list option" where
  "segs_match [] [] = Some []"
| "segs_match (SStatic s # ss) (p # ps) = (if p = s then segs_match ss ps else None)"
| "segs_match (SInt # ss) (p # ps) =
     (if p \<noteq> [] \<and> list_all is_digit p then map_option (Cons (AInt (digits_val p))) (segs_match ss ps)
      else None)"
| "segs_match (SStr # ss) (p # ps) =
     (if p \<noteq> [] then map_option (Cons (AStr p)) (segs_match ss ps) else None)"
| "segs_match (SPath # ss) (p # ps) =
     (if ss = [] \<and> p \<noteq> [] then Some [APath (py_join ''/'' (p # ps))] else None)"
| "segs_match _ _ = None"

record rule =
  rule_str :: string
  rule_methods :: "http_method list"
  rule_endpoint :: endpoint

definition rule_hits :: "rule list \<Rightarrow> string list \<Rightarrow> (rule \<times> arg list) list" where
  "rule_hits rs ps =
     concat (map (\<lambda>r. case segs_match (rule_segs (rule_str r)) ps of None \<Rightarrow> [] | Some a \<Rightarrow> [(r, a)]) rs)"

definition hit_methods :: "(rule \<times> arg list) list \<Rightarrow> http_method list" where
  "hit_methods hs = remdups (concat (map (rule_methods \<circ> fst) hs))"

datatype match_result = Matched rule "arg list" | Redirect string | NotAllowed "http_method list" | NoMatch

text \<open>One pass of \<open>StateMachineMatcher.match\<close> over a path: the first rule that matches
  path and method; otherwise \<open>SlashRequired\<close> when the path with a slash appended
  matches a rule for this method (\<open>strict_slashes\<close>); otherwise no match. Where two rules
  match the same path and method, Werkzeug ranks static parts before converters; the
  model takes the first registered, which is the same for the rules of this app.\<close>

datatype pass_result = PFound rule "arg list" | PSlash | PNone

definition match_pass :: "rule list \<Rightarrow> http_method \<Rightarrow> string \<Rightarrow> pass_result" where
  "match_pass rs m path =
     (let ps = path_parts path in
      case find (\<lambda>(r, a). m \<in> set (rule_methods r)) (rule_hits rs ps) of
        Some (r, a) \<Rightarrow> PFound r a
      | None \<Rightarrow>
          if list_ex (\<lambda>(r, a). m \<in> set (rule_methods r)) (rule_hits rs (ps @ [[]])) then PSlash
          else PNone)"

text \<open>\<open>re.sub("/{2,}?", "/", path)\<close>: each pair of slashes, left to right, becomes one.\<close>

fun merge_slashes :: "string \<Rightarrow> string" where
  "merge_slashes (a # b # cs) =
     (if a = CHR ''/'' \<and> b = CHR ''/'' then CHR ''/'' # merge_slashes cs else a # merge_slashes (b # cs))"
| "merge_slashes cs = cs"

text \<open>\<open>MapAdapter.match\<close> passes \<open>"/" + path_info.lstrip("/")\<close>.\<close>

definition norm_path :: "string \<Rightarrow> string" where
  "norm_path p = (if p = [] then [] else CHR ''/'' # dropWhile (\<lambda>c. c = CHR ''/'') p)"

text \<open>The methods of the rules that match the path, as given or with slashes merged: the
  \<open>have_match_for\<close> set of both passes.\<close>

definition path_methods :: "rule list \<Rightarrow> string \<Rightarrow> http_method list" where
  "path_methods rs path =
     hit_methods (rule_hits rs (path_parts path) @ rule_hits rs (path_parts (merge_slashes path)))"

text \<open>\<open>MapAdapter.match\<close> with the map's defaults (\<open>strict_slashes\<close> and
  \<open>merge_slashes\<close>): a match is dispatched; \<open>SlashRequired\<close> redirects to the path with a
  slash; otherwise the path with merged slashes is tried, and a match there (or its
  \<open>SlashRequired\<close>) redirects to it; otherwise 405 with the methods of the rules that
  match, or 404.\<close>

definition url_match :: "rule list \<Rightarrow> http_method \<Rightarrow> string \<Rightarrow> match_result" where
  "url_match rs m path0 =
     (let path = norm_path path0 in
      case match_pass rs m path of
        PFound r a \<Rightarrow> Matched r a
      | PSlash \<Rightarrow> Redirect (path @ ''/'')
      | PNone \<Rightarrow>
          (let path' = merge_slashes path in
           case match_pass rs m path' of
             PFound r a \<Rightarrow> Redirect path'
           | PSlash \<Rightarrow> Redirect (path' @ ''/'')
           | PNone \<Rightarrow> if path_methods rs path \<noteq> [] then NotAllowed (path_methods rs path) else NoMatch))"

subsection \<open>The application and its blueprints\<close>

record flask_app =
  url_rules :: "rule list"

text \<open>\<open>add_url_rule\<close>: the automatic \<open>OPTIONS\<close> (Flask) and \<open>HEAD\<close> with \<open>GET\<close> (Werkzeug).\<close>

definition auto_methods :: "http_method list \<Rightarrow> http_method list" where
  "auto_methods ms = remdups (ms @ (if GET \<in> set ms then [HEAD] else []) @ [OPTIONS])"

definition add_url_rule :: "flask_app \<Rightarrow> string \<Rightarrow> http_method list \<Rightarrow> endpoint \<Rightarrow> flask_app" where
  "add_url_rule app r ms e =
     app\<lparr>url_rules := url_rules app @ [\<lparr>rule_str = r, rule_methods = auto_methods ms, rule_endpoint = e\<rparr>]\<rparr>"

text \<open>\<open>Flask(__name__, static_folder="../static")\<close>: the static route.\<close>

definition flask_new :: flask_app where
  "flask_new = add_url_rule \<lparr>url_rules = []\<rparr> ''/static/<path:filename>'' [GET] EStatic"

record blueprint =
  bp_prefix :: "string option"
  bp_routes :: "(string \<times> http_method list \<times> endpoint) list"

text \<open>\<open>BlueprintSetupState.add_url_rule\<close>: the prefix without trailing and the rule
  without leading slashes, joined by one.\<close>

definition bp_rule_str :: "string option \<Rightarrow> string \<Rightarrow> string" where
  "bp_rule_str pre r =
     (case pre of
        None \<Rightarrow> r
      | Some p \<Rightarrow> if r = [] then p
                  else rev (dropWhile (\<lambda>c. c = CHR ''/'') (rev p)) @ ''/'' @ dropWhile (\<lambda>c. c = CHR ''/'') r)"

definition register_blueprint :: "flask_app \<Rightarrow> blueprint \<Rightarrow> flask_app" where
  "register_blueprint app bp =
     foldl (\<lambda>a (r, ms, e). add_url_rule a (bp_rule_str (bp_prefix bp) r) ms e) app (bp_routes bp)"

text \<open>The rule a blueprint route becomes.\<close>

definition bp_rule :: "string option \<Rightarrow> string \<times> http_method list \<times> endpoint \<Rightarrow> rule" where
  "bp_rule pre = (\<lambda>(r, ms, e). \<lparr>rule_str = bp_rule_str pre r, rule_methods = auto_methods ms, rule_endpoint = e\<rparr>)"

definition notes_bp :: blueprint where
  "notes_bp = \<lparr>bp_prefix = Some ''/notes'',
               bp_routes = [(''/'', [GET], EListNotes), (''/'', [POST], ECreateNote),
                            (''/<int:note_id>'', [DELETE], EDeleteNote)]\<rparr>"

definition system_bp :: blueprint where
  "system_bp = \<lparr>bp_prefix = None,
                bp_routes = [(''/health'', [GET], EHealth), (''/stats'', [GET], EStats),
                             (''/cache/flush'', [POST], EFlush)]\<rparr>"

definition register_routes :: "blueprint \<Rightarrow> flask_app \<Rightarrow> flask_app" where
  "register_routes ui_bp app =
     register_blueprint (register_blueprint (register_blueprint app ui_bp) notes_bp) system_bp"

definition create_app :: "blueprint \<Rightarrow> flask_app" where
  "create_app ui_bp = register_routes ui_bp flask_new"

subsection \<open>Dispatch\<close>

datatype http_response =
    Served "error + response"
  | Redirect308 string
  | NotFound404
  | MethodNotAllowed405 "http_method list"
  | OptionsOk "http_method list"
  | StaticFile string
  | UiPage string

text \<open>The view function of an endpoint called with the converted arguments; the body of a
  \<open>POST\<close> is what \<open>request.get_json(force=True)\<close> decodes, \<open>None\<close> when it is not JSON.\<close>

fun endpoint_request :: "endpoint \<Rightarrow> arg list \<Rightarrow> json option \<Rightarrow> request option" where
  "endpoint_request EListNotes [] b = Some GetNotes"
| "endpoint_request ECreateNote [] b = Some (PostNotes b)"
| "endpoint_request EDeleteNote [AInt i] b = Some (DeleteNotes i)"
| "endpoint_request EHealth [] b = Some GetHealth"
| "endpoint_request EStats [] b = Some GetStats"
| "endpoint_request EFlush [] b = Some PostCacheFlush"
| "endpoint_request _ _ _ = None"

text \<open>\<open>Flask.full_dispatch_request\<close>: routing errors become 404, 405 and 308 responses;
  \<open>OPTIONS\<close> is answered with the allowed methods of the path without calling the view;
  a \<open>HEAD\<close> runs the view of \<open>GET\<close> (the server drops the body).\<close>

definition app_handle ::
  "flask_app \<Rightarrow> http_method \<Rightarrow> string \<Rightarrow> json option \<Rightarrow> world \<Rightarrow> http_response \<times> world" where
  "app_handle app m path body w =
     (case url_match (url_rules app) m path of
        NoMatch \<Rightarrow> (NotFound404, w)
      | NotAllowed ms \<Rightarrow> (MethodNotAllowed405 ms, w)
      | Redirect p \<Rightarrow> (Redirect308 p, w)
      | Matched r args \<Rightarrow>
          if m = OPTIONS then (OptionsOk (path_methods (url_rules app) (norm_path path)), w)
          else (case rule_endpoint r of
                  EStatic \<Rightarrow> (StaticFile (case args of [APath f] \<Rightarrow> f | _ \<Rightarrow> []), w)
                | EUi n \<Rightarrow> (UiPage n, w)
                | e \<Rightarrow> (case endpoint_request e args body of
                         Some q \<Rightarrow> (case handle q w of (res, w') \<Rightarrow> (Served res, w'))
                       | None \<Rightarrow> (NotFound404, w))))"

subsection \<open>The interface of the service\<close>

text \<open>The request line of each service call at the paths the blueprints declare.\<close>

fun http_form :: "request \<Rightarrow> http_method \<times> string \<times> json option" where
  "http_form GetNotes = (GET, ''/notes/'', None)"
| "http_form (PostNotes b) = (POST, ''/notes/'', b)"
| "http_form (DeleteNotes i) = (DELETE, ''/notes/'' @ show_nat i, None)"
| "http_form GetHealth = (GET, ''/health'', None)"
| "http_form GetStats = (GET, ''/stats'', None)"
| "http_form PostCacheFlush = (POST, ''/cache/flush'', None)"

text \<open>A \<open>ui\<close> blueprint that serves pages only, under static first parts other than
  those of the API and of the static files.\<close>

definition api_heads :: "string list" where
  "api_heads = [''notes'', ''health'', ''stats'', ''cache'', ''static'']"

definition ui_disjoint :: "blueprint \<Rightarrow> bool" where
  "ui_disjoint ui_bp =
     list_all (\<lambda>(r, ms, e). (case e of EUi _ \<Rightarrow> True | _ \<Rightarrow> False) \<and>
                 (case rule_segs (bp_rule_str (bp_prefix ui_bp) r) of
                    SStatic s # _ \<Rightarrow> s \<notin> set api_heads
                  | _ \<Rightarrow> False)) (bp_routes ui_bp)"

subsection \<open>The start-up module\<close>

text \<open>\<open>main.py\<close>: importing \<open>app\<close> evaluates \<open>Config\<close> (\<open>load_config\<close>), whose
  failure ends the process before anything else; then the start-up loop; then
  \<open>create_app()\<close>, which \<open>app.run\<close> serves on the booted state.\<close>

datatype main_result = ImportFailed error | Serving flask_app world | Exited

definition main_module :: "environ \<Rightarrow> blueprint \<Rightarrow> (nat \<Rightarrow> bool) \<Rightarrow> world \<Rightarrow> main_result" where
  "main_module env ui_bp avail w =
     (case load_config env of
        Inl e \<Rightarrow> ImportFailed e
      | Inr cfg \<Rightarrow>
          (case main_boot avail w of
             Started n w' \<Rightarrow> Serving (create_app ui_bp) w'
           | SystemExit \<Rightarrow> Exited))"

subsection \<open>Lemmas: the rule table\<close>

lemma register_blueprint_rules:
  "url_rules (register_blueprint app bp) = url_rules app @ map (bp_rule (bp_prefix bp)) (bp_routes bp)"
proof -
  have "\<And>app. url_rules (foldl (\<lambda>a (r, ms, e). add_url_rule a (bp_rule_str pre r) ms e) app rs) =
        url_rules app @ map (bp_rule pre) rs" for pre rs
    by (induction rs) (auto simp: add_url_rule_def bp_rule_def)
  then show ?thesis by (simp add: register_blueprint_def)
qed

lemma url_rules_create_app:
  "url_rules (create_app ui_bp) =
     url_rules flask_new @ map (bp_rule (bp_prefix ui_bp)) (bp_routes ui_bp) @
     map (bp_rule (bp_prefix notes_bp)) (bp_routes notes_bp) @ map (bp_rule (bp_prefix system_bp)) (bp_routes system_bp)"
  by (simp add: create_app_def register_routes_def register_blueprint_rules)

lemma rule_hits_append [simp]: "rule_hits (xs @ ys) ps = rule_hits xs ps @ rule_hits ys ps"
  by (simp add: rule_hits_def)

lemma split_slash_ne [simp]: "split_slash s \<noteq> []"
  by (induction s) (auto split: list.split)

lemma path_parts_ne [simp]: "path_parts p \<noteq> []"
  by (simp add: path_parts_def split: list.split)

lemma split_slash_plain: "CHR ''/'' \<notin> set s \<Longrightarrow> split_slash s = [s]"
  by (induction s) auto

lemma split_slash_append: "CHR ''/'' \<notin> set xs \<Longrightarrow> split_slash (xs @ CHR ''/'' # ys) = xs # split_slash ys"
  by (induction xs) auto

lemma ui_hits_nil:
  assumes "ui_disjoint ui_bp" "hd ps \<in> set api_heads" "ps \<noteq> []"
  shows "rule_hits (map (bp_rule (bp_prefix ui_bp)) (bp_routes ui_bp)) ps = []"
proof -
  obtain p qs where ps: "ps = p # qs" using assms(3) by (cases ps) auto
  have "segs_match (rule_segs (bp_rule_str (bp_prefix ui_bp) r)) ps = None"
    if "(r, ms, e) \<in> set (bp_routes ui_bp)" for r ms e
  proof -
    from assms(1) that obtain s ss where seg: "rule_segs (bp_rule_str (bp_prefix ui_bp) r) = SStatic s # ss"
      and s: "s \<notin> set api_heads"
      by (fastforce simp: ui_disjoint_def list_all_iff split: list.splits seg.splits)
    then show ?thesis using assms(2) ps by auto
  qed
  then show ?thesis by (fastforce simp: rule_hits_def bp_rule_def split: option.split)
qed

lemma show_nat_no_slash: "CHR ''/'' \<notin> set (show_nat n)"
  using show_nat_digits [of n] by (auto simp: is_digit_def)

lemma split_slash_show_nat [simp]: "split_slash (show_nat n) = [show_nat n]"
  by (rule split_slash_plain [OF show_nat_no_slash])

lemma show_nat_all_digits: "list_all is_digit (show_nat n)"
  using show_nat_digits [of n] by (simp add: list_all_iff)

lemma segs_match_int_show_nat: "segs_match (SInt # ss) (show_nat i # ps) = map_option (Cons (AInt i)) (segs_match ss ps)"
  using show_nat_digits [of i] show_nat_ne [of i] by (simp add: digits_val_show_nat list_all_iff)

lemma rule_hits_simps [simp]:
  "rule_hits [] ps = []"
  "rule_hits (r # rs) ps =
     (case segs_match (rule_segs (rule_str r)) ps of None \<Rightarrow> [] | Some a \<Rightarrow> [(r, a)]) @ rule_hits rs ps"
  by (simp_all add: rule_hits_def)

lemma bp_rule_apply [simp]:
  "bp_rule pre (r, ms, e) = \<lparr>rule_str = bp_rule_str pre r, rule_methods = auto_methods ms, rule_endpoint = e\<rparr>"
  by (simp add: bp_rule_def)

lemma merge_slashes_id: "CHR ''/'' \<notin> set s \<Longrightarrow> merge_slashes s = s"
  by (induction s rule: merge_slashes.induct) auto

lemma merge_slashes_slash: "CHR ''/'' \<notin> set s \<Longrightarrow> merge_slashes (CHR ''/'' # s) = CHR ''/'' # s"
  by (cases s) (auto simp: merge_slashes_id)

lemma merge_slashes_show_nat [simp]:
  "merge_slashes (show_nat n) = show_nat n" "merge_slashes (CHR ''/'' # show_nat n) = CHR ''/'' # show_nat n"
  by (rule merge_slashes_id [OF show_nat_no_slash], rule merge_slashes_slash [OF show_nat_no_slash])

lemmas route_eval = app_handle_def url_match_def match_pass_def norm_path_def path_methods_def Let_def
  url_rules_create_app flask_new_def add_url_rule_def notes_bp_def system_bp_def bp_rule_str_def
  auto_methods_def rule_segs_def parse_seg_def hit_methods_def api_heads_def

subsection \<open>Properties of the HTTP layer\<close>

text \<open>C7: The HTTP surface refines the service. For every service request, sending its
  request line to the app that \<open>create_app\<close> builds (whatever pages the \<open>ui\<close> blueprint
  serves outside the API paths) routes it to its handler: the response and the new state
  are those of \<open>handle\<close>. For \<open>DELETE\<close> the id printed in decimal comes back through
  the \<open>int\<close> converter unchanged.\<close>

theorem http_dispatch_handle:
  assumes "ui_disjoint ui_bp"
  shows "(case http_form q of (m, p, b) \<Rightarrow> app_handle (create_app ui_bp) m p b w) =
           (Served (fst (handle q w)), snd (handle q w))"
  using assms
  by (cases q) (simp_all add: route_eval ui_hits_nil path_parts_def segs_match_int_show_nat show_nat_ne
      show_nat_all_digits digits_val_show_nat prod.case_eq_if)

theorem http_dispatch_handle_witness:
  "ui_disjoint \<lparr>bp_prefix = None, bp_routes = [(''/'', [GET], EUi ''index'')]\<rparr> \<and>
   app_handle (create_app \<lparr>bp_prefix = None, bp_routes = [(''/'', [GET], EUi ''index'')]\<rparr>) GET ''/notes/'' None world_initial =
     (Served (fst (handle GetNotes world_initial)), snd (handle GetNotes world_initial))"
proof -
  have u: "ui_disjoint \<lparr>bp_prefix = None, bp_routes = [(''/'', [GET], EUi ''index'')]\<rparr>" by (simp add: ui_disjoint_def rule_segs_def path_parts_def parse_seg_def
      bp_rule_str_def api_heads_def)
  from http_dispatch_handle [OF u, where q = GetNotes and w = world_initial] u show ?thesis by simp
qed

text \<open>C8: \<open>/notes\<close> without the trailing slash is not the notes endpoint. The blueprint
  routes are \<open>"/"\<close> under the prefix \<open>/notes\<close>, so the rules are \<open>/notes/\<close>; a request
  to \<open>/notes\<close>, the path the interface names, is answered with a 308 redirect to
  \<open>/notes/\<close> for the methods of those rules and with 404 for the others, and no
  handler runs.\<close>

theorem notes_without_slash:
  assumes "ui_disjoint ui_bp"
  shows "app_handle (create_app ui_bp) m ''/notes'' b w =
           (if m \<in> set [GET, HEAD, POST, OPTIONS] then Redirect308 ''/notes/'' else NotFound404, w)"
  using assms by (cases m; simp add: route_eval ui_hits_nil path_parts_def)

theorem notes_without_slash_witness:
  "ui_disjoint \<lparr>bp_prefix = None, bp_routes = [(''/'', [GET], EUi ''index'')]\<rparr> \<and>
   app_handle (create_app \<lparr>bp_prefix = None, bp_routes = [(''/'', [GET], EUi ''index'')]\<rparr>) GET ''/notes'' None world_initial = (Redirect308 ''/notes/'', world_initial)"
proof -
  have u: "ui_disjoint \<lparr>bp_prefix = None, bp_routes = [(''/'', [GET], EUi ''index'')]\<rparr>" by (simp add: ui_disjoint_def rule_segs_def path_parts_def parse_seg_def
      bp_rule_str_def api_heads_def)
  from notes_without_slash [OF u, where m = GET and b = None and w = world_initial] u show ?thesis by simp
qed

text \<open>C9: Routing errors. A note id that is not a non-empty string of decimal digits is
  404 (no negative ids, no other text); a method the rules of a path do not have is 405
  with the allowed methods of the path; a doubled slash before the id is not an error but
  a 308 redirect to the path with the slashes merged. In none of these cases does a
  handler run or the state change.\<close>

theorem route_errors:
  assumes "ui_disjoint ui_bp"
  shows "(s \<noteq> [] \<and> CHR ''/'' \<notin> set s \<and> \<not> list_all is_digit s \<longrightarrow>
           app_handle (create_app ui_bp) m (''/notes/'' @ s) b w = (NotFound404, w)) \<and>
         (m \<notin> set [GET, HEAD, POST, OPTIONS] \<longrightarrow>
           (\<exists>ms. app_handle (create_app ui_bp) m ''/notes/'' b w = (MethodNotAllowed405 ms, w) \<and>
                 set ms = {GET, HEAD, POST, OPTIONS})) \<and>
         (m \<notin> set [DELETE, OPTIONS] \<longrightarrow>
           (\<exists>ms. app_handle (create_app ui_bp) m (''/notes/'' @ show_nat i) b w = (MethodNotAllowed405 ms, w) \<and>
                 set ms = {DELETE, OPTIONS})) \<and>
         app_handle (create_app ui_bp) DELETE (''/notes//'' @ show_nat i) b w =
           (Redirect308 (''/notes/'' @ show_nat i), w)"
proof (intro conjI impI)
  assume a: "s \<noteq> [] \<and> CHR ''/'' \<notin> set s \<and> \<not> list_all is_digit s"
  then have "split_slash s = [s]" "merge_slashes (CHR ''/'' # s) = CHR ''/'' # s"
    by (simp_all add: split_slash_plain merge_slashes_slash)
  with a assms show "app_handle (create_app ui_bp) m (''/notes/'' @ s) b w = (NotFound404, w)"
    by (simp add: route_eval ui_hits_nil path_parts_def)
next
  assume "m \<notin> set [GET, HEAD, POST, OPTIONS]"
  with assms show "(\<exists>ms. app_handle (create_app ui_bp) m ''/notes/'' b w = (MethodNotAllowed405 ms, w) \<and>
                 set ms = {GET, HEAD, POST, OPTIONS})"
    by (cases m; auto simp: route_eval ui_hits_nil path_parts_def)
next
  assume "m \<notin> set [DELETE, OPTIONS]"
  with assms show "(\<exists>ms. app_handle (create_app ui_bp) m (''/notes/'' @ show_nat i) b w = (MethodNotAllowed405 ms, w) \<and>
                 set ms = {DELETE, OPTIONS})"
    by (cases m; auto simp: route_eval ui_hits_nil path_parts_def segs_match_int_show_nat show_nat_ne
        show_nat_all_digits)
next
  from assms show "app_handle (create_app ui_bp) DELETE (''/notes//'' @ show_nat i) b w =
           (Redirect308 (''/notes/'' @ show_nat i), w)"
    by (simp add: route_eval ui_hits_nil path_parts_def segs_match_int_show_nat show_nat_ne
        show_nat_all_digits)
qed

theorem route_errors_witness:
  "ui_disjoint \<lparr>bp_prefix = None, bp_routes = [(''/'', [GET], EUi ''index'')]\<rparr> \<and>
   app_handle (create_app \<lparr>bp_prefix = None, bp_routes = [(''/'', [GET], EUi ''index'')]\<rparr>) DELETE ''/notes/abc'' None world_initial = (NotFound404, world_initial) \<and>
   (\<exists>ms. app_handle (create_app \<lparr>bp_prefix = None, bp_routes = [(''/'', [GET], EUi ''index'')]\<rparr>) PUT ''/notes/'' None world_initial =
      (MethodNotAllowed405 ms, world_initial) \<and> set ms = {GET, HEAD, POST, OPTIONS})"
proof -
  have u: "ui_disjoint \<lparr>bp_prefix = None, bp_routes = [(''/'', [GET], EUi ''index'')]\<rparr>" by (simp add: ui_disjoint_def rule_segs_def path_parts_def parse_seg_def
      bp_rule_str_def api_heads_def)
  have d: "\<not> list_all is_digit ''abc''" "CHR ''/'' \<notin> set ''abc''" by (simp_all add: is_digit_def)
  from route_errors [OF u, where s = "''abc''" and m = DELETE and b = None and w = world_initial and i = 0]
       route_errors [OF u, where s = "''abc''" and m = PUT and b = None and w = world_initial and i = 0] u d
  show ?thesis by simp
qed

end
