(* ===== verification/LegacyApp.thy ===== *)
theory LegacyApp
  imports Config
begin

text \<open>
  \<open>src/docker-practice-app/app/app.py\<close>: the older single-file app with health probes
  for PostgreSQL, Redis and MySQL. Each probe opens a connection (or sends \<open>PING\<close>),
  closes it and returns \<open>"connected"\<close>; any exception, including an \<open>ImportError\<close> of
  \<open>pymysql\<close> inside the \<open>try\<close>, gives \<open>"stopped"\<close>. What each dial returns is the
  environment's answer, a field of \<open>probes\<close>. The module-level configuration is read
  from the environment at import. The timestamps are not modelled.
\<close>

record probes =
  pg_accepts :: bool        \<comment> \<open>\<open>psycopg2.connect\<close> succeeds within the timeout\<close>
  redis_pongs :: bool       \<comment> \<open>\<open>redis.Redis(...).ping()\<close> succeeds\<close>
  pymysql_present :: bool   \<comment> \<open>\<open>import pymysql\<close> succeeds\<close>
  mysql_accepts :: bool     \<comment> \<open>\<open>pymysql.connect\<close> succeeds\<close>

datatype svc_status = Connected | Stopped | Running

definition check_postgres :: "probes \<Rightarrow> svc_status" where
  "check_postgres p = (if pg_accepts p then Connected else Stopped)"

definition check_redis :: "probes \<Rightarrow> svc_status" where
  "check_redis p = (if redis_pongs p then Connected else Stopped)"

text \<open>The import is the first statement of the \<open>try\<close>, so the connection is only tried
  when the module is present.\<close>

definition check_mysql :: "probes \<Rightarrow> svc_status" where
  "check_mysql p = (if \<not> pymysql_present p then Stopped else if mysql_accepts p then Connected else Stopped)"

text \<open>Response bodies: \<open>{services: {PostgreSQL, Redis, MySQL, Flask API}, healthy}\<close>,
  \<open>{service, status}\<close> and the index \<open>{app, status}\<close>.\<close>

datatype legacy_body =
    ServicesBody svc_status svc_status svc_status svc_status bool
  | ServiceBody string svc_status
  | IndexBody string string

definition legacy_health :: "probes \<Rightarrow> nat \<times> legacy_body" where
  "legacy_health p =
     (let ps = check_postgres p;
          rs = check_redis p;
          ms = check_mysql p;
          fs = Running;
          all_ok = (ps = Connected \<and> rs = Connected \<and> ms = Connected)
      in (if all_ok then 200 else 207, ServicesBody ps rs ms fs all_ok))"

datatype legacy_request =
    LIndex | LHealth | LHealthPostgres | LHealthRedis | LHealthFlask | LHealthMysql

fun legacy_handle :: "legacy_request \<Rightarrow> probes \<Rightarrow> nat \<times> legacy_body" where
  "legacy_handle LIndex p = (200, IndexBody ''Docker Practice App'' ''running'')"
| "legacy_handle LHealth p = legacy_health p"
| "legacy_handle LHealthPostgres p = (200, ServiceBody ''PostgreSQL'' (check_postgres p))"
| "legacy_handle LHealthRedis p = (200, ServiceBody ''Redis'' (check_redis p))"
| "legacy_handle LHealthFlask p = (200, ServiceBody ''Flask API'' Running)"
| "legacy_handle LHealthMysql p = (200, ServiceBody ''MySQL'' (check_mysql p))"



subsection \<open>Properties of the legacy health endpoint\<close>

text \<open>C33: Aggregation in the legacy app. \<open>/health\<close> reports each dependency with the same
  status as its own endpoint, a failing probe does not change the others, \<open>healthy\<close>
  holds exactly when all three are \<open>connected\<close>, and the code is 200 when healthy and
  207 otherwise. MySQL counts as \<open>stopped\<close> also when \<open>pymysql\<close> is not installed.
\<close>

theorem legacy_health_aggregate:
  assumes "legacy_handle LHealth p = (code, ServicesBody ps rs ms fs ok)"
  shows "(200, ServiceBody ''PostgreSQL'' ps) = legacy_handle LHealthPostgres p \<and>
         (200, ServiceBody ''Redis'' rs) = legacy_handle LHealthRedis p \<and>
         (200, ServiceBody ''MySQL'' ms) = legacy_handle LHealthMysql p \<and>
         fs = Running \<and>
         (ok \<longleftrightarrow> pg_accepts p \<and> redis_pongs p \<and> pymysql_present p \<and> mysql_accepts p) \<and>
         code = (if ok then 200 else 207)"
  using assms
  by (auto simp: legacy_health_def check_postgres_def check_redis_def check_mysql_def Let_def
      split: if_splits)

theorem legacy_health_aggregate_witness:
  "legacy_handle LHealth \<lparr>pg_accepts = True, redis_pongs = True, pymysql_present = False, mysql_accepts = True\<rparr>
     = (207, ServicesBody Connected Connected Stopped Running False) \<and>
   (200, ServiceBody ''MySQL'' Stopped) =
     legacy_handle LHealthMysql \<lparr>pg_accepts = True, redis_pongs = True, pymysql_present = False, mysql_accepts = True\<rparr>"
proof -
  let ?p = "\<lparr>pg_accepts = True, redis_pongs = True, pymysql_present = False, mysql_accepts = True\<rparr>"
  have h: "legacy_handle LHealth ?p = (207, ServicesBody Connected Connected Stopped Running False)"
    by (simp add: legacy_health_def check_postgres_def check_redis_def check_mysql_def)
  from legacy_health_aggregate [OF h] h show ?thesis by simp
qed



end
